theory Spec2Isabelle
  imports
    Complex_Main
    "HOL-Library.AList"
    "HOL-Library.Char_ord"
    "HOL-Library.List_Lexorder"
    "HOL-Library.Product_Lexorder"
begin

chapter \<open>Enrolment analytics core: embedding\<close>

text \<open>
  The pipeline is written against pandas and numpy. Conventions of the embedding:
  \<^item> a float is a \<^typ>\<open>real\<close>; where the source can see NaN the value is a
    \<^typ>\<open>real option\<close> with \<open>None\<close> for NaN (pandas reductions skip NaN);
  \<^item> a DataFrame is a record of its column names and the list of its rows, in row order;
  \<^item> a Python dict is an association list in insertion order;
  \<^item> an exception is the \<open>Inl\<close> side of a sum.
\<close>

text \<open>
  \<open>Unsupported\<close> is not a Python exception: it marks a frame that leaves the embedding
  (two columns of one name), where the source goes on.
\<close>

datatype py_error = KeyError | TypeError | AttributeError | Unsupported

section \<open>Anomaly detector: confidence levels\<close>

text \<open>
  \<open>AadhaarAnomalyDetector._calculate_confidence\<close> (anomaly_detector.py). The result array
  holds either the numbers of \<open>np.zeros_like(scores)\<close> or the four labels.
\<close>

datatype bucket = LOW | MEDIUM | HIGH | VERY_HIGH

datatype confidence = Number real | Label bucket

definition np_mean :: "real list \<Rightarrow> real" where
  "np_mean xs = sum_list xs / real (length xs)"

text \<open>
  \<open>np.std\<close>: the population standard deviation (ddof = 0), in exact arithmetic;
  \<open>np_std_double\<close> below is the computation in doubles.
\<close>

definition np_std :: "real list \<Rightarrow> real" where
  "np_std xs = sqrt (np_mean (map (\<lambda>x. \<bar>x - np_mean xs\<bar> ^ 2) xs))"

text \<open>The body of the loop over \<open>normalized_scores\<close>.\<close>

definition confidence_level :: "real \<Rightarrow> bucket" where
  "confidence_level score =
     (if score > 0.8 then VERY_HIGH
      else if score > 0.6 then HIGH
      else if score > 0.4 then MEDIUM
      else LOW)"

fun calculate_confidence :: "real list \<Rightarrow> confidence list" where
  "calculate_confidence [] = []"
| "calculate_confidence (s # ss) =
     (let scores = s # ss in
      if np_std scores = 0 then map (\<lambda>_. Number 0) scores
      else
        let lo = fold min ss s;
            hi = fold max ss s;
            normalized_scores = map (\<lambda>x. (x - lo) / (hi - lo)) scores
        in map (\<lambda>score. Label (confidence_level score)) normalized_scores)"

text \<open>The order LOW \<open>\<le>\<close> MEDIUM \<open>\<le>\<close> HIGH \<open>\<le>\<close> VERY_HIGH of the labels.\<close>

fun bucket_rank :: "bucket \<Rightarrow> nat" where
  "bucket_rank LOW = 0"
| "bucket_rank MEDIUM = 1"
| "bucket_rank HIGH = 2"
| "bucket_rank VERY_HIGH = 3"

section \<open>pandas reductions\<close>

text \<open>
  Series reductions skip NaN (\<open>skipna=True\<close>): \<open>sum\<close> of nothing is 0, \<open>mean\<close> of
  nothing is NaN, and \<open>std\<close> is the sample standard deviation (ddof = 1), NaN for fewer
  than two values. They are given in exact arithmetic; the program computes them in
  doubles and rounds each operation.
\<close>

definition dropna :: "'a option list \<Rightarrow> 'a list" where
  "dropna xs = List.map_filter id xs"

definition pd_sum :: "real option list \<Rightarrow> real" where
  "pd_sum xs = sum_list (dropna xs)"

definition pd_mean :: "real option list \<Rightarrow> real option" where
  "pd_mean xs =
     (let ys = dropna xs in
      if ys = [] then None else Some (sum_list ys / real (length ys)))"

definition pd_std :: "real option list \<Rightarrow> real option" where
  "pd_std xs =
     (let ys = dropna xs; n = length ys in
      if n < 2 then None
      else let m = sum_list ys / real n
           in Some (sqrt (sum_list (map (\<lambda>y. (y - m) ^ 2) ys) / real (n - 1))))"

section \<open>Risk scorer\<close>

record agg_row =
  ar_state :: string
  ar_enrolment_count_sum :: "real option"
  ar_is_anomaly :: "real option"
  ar_anomaly_score :: "real option"
  ar_mom_growth :: "real option"
  ar_year_month :: string
  ar_date :: "int option"
  ar_update_ratio :: "real option"

record agg_frame =
  af_columns :: "string list"
  af_rows :: "agg_row list"

record risk_entry =
  re_state :: string
  re_components :: "(string \<times> real) list"

record risk_frame =
  rf_columns :: "string list"
  rf_rows :: "risk_entry list"

record risk_profile =
  rp_state :: string
  rp_components :: "(string \<times> real) list"
  rp_risk_score :: real
  rp_risk_level :: string
  rp_risk_color :: string

definition normalization_ranges :: "(string \<times> real \<times> real) list" where
  "normalization_ranges =
     [(''volume'', (0, 10000000)),
      (''frequency'', (0, 1)),
      (''severity'', (0, 1)),
      (''volatility'', (0, 0.5)),
      (''consistency'', (0, 1)),
      (''update_pattern'', (0, 0.3))]"

definition np_clip :: "real \<Rightarrow> real \<Rightarrow> real \<Rightarrow> real" where
  "np_clip v lo hi = min (max v lo) hi"

definition normalize_score :: "real option \<Rightarrow> string \<Rightarrow> real" where
  "normalize_score val component_type =
     (case val of
        None \<Rightarrow> 0
      | Some v \<Rightarrow>
          (case (case map_of normalization_ranges component_type of
                   Some r \<Rightarrow> r | None \<Rightarrow> (0, 1)) of
             (min_val, max_val) \<Rightarrow>
               (let v' = np_clip v min_val max_val in
                if max_val - min_val = 0 then 0
                else (v' - min_val) / (max_val - min_val))))"

definition fill0 :: "real option \<Rightarrow> real option" where
  "fill0 v = (case v of None \<Rightarrow> Some 0 | Some x \<Rightarrow> Some x)"

definition date_extreme :: "(int \<Rightarrow> int \<Rightarrow> int) \<Rightarrow> int option list \<Rightarrow> int option" where
  "date_extreme f ds = (case dropna ds of [] \<Rightarrow> None | d # rest \<Rightarrow> Some (fold f rest d))"

text \<open>
  The body of the loop over the groups in \<open>_calculate_risk_components\<close>, one definition
  per numbered block of the source. A block adds its key to \<open>risk_entry\<close> only under its
  guard.
\<close>

definition volume_component :: "string list \<Rightarrow> agg_row list \<Rightarrow> (string \<times> real) list" where
  "volume_component cols state_data =
     (if ''enrolment_count_sum'' \<in> set cols then
        (let total_enrolments = pd_sum (map ar_enrolment_count_sum state_data)
         in [(''volume_risk'', normalize_score (Some total_enrolments) ''volume'')])
      else [])"

definition anomaly_frequency_component :: "string list \<Rightarrow> agg_row list \<Rightarrow> (string \<times> real) list" where
  "anomaly_frequency_component cols state_data =
     (if ''is_anomaly'' \<in> set cols then
        (let anomaly_freq = pd_mean (map ar_is_anomaly state_data)
         in [(''anomaly_frequency_risk'', normalize_score anomaly_freq ''frequency'')])
      else [])"

definition anomaly_severity_component :: "string list \<Rightarrow> agg_row list \<Rightarrow> (string \<times> real) list" where
  "anomaly_severity_component cols state_data =
     (if ''anomaly_score'' \<in> set cols then
        (let avg_anomaly_score =
               pd_mean (map ar_anomaly_score
                          (filter (\<lambda>r. ar_is_anomaly r = Some 1) state_data));
             avg_anomaly_score = fill0 avg_anomaly_score
         in [(''anomaly_severity_risk'', normalize_score avg_anomaly_score ''severity'')])
      else [])"

definition volatility_component :: "string list \<Rightarrow> agg_row list \<Rightarrow> (string \<times> real) list" where
  "volatility_component cols state_data =
     (if ''mom_growth'' \<in> set cols then
        (let growth_volatility = fill0 (pd_std (map ar_mom_growth state_data))
         in [(''volatility_risk'', normalize_score growth_volatility ''volatility'')])
      else [])"

text \<open>
  \<open>total_months\<close> is \<open>(max - min).days / 30\<close>; it is NaN when the group has no date, and
  \<open>NaN > 0\<close> is false.
\<close>

definition total_months :: "agg_row list \<Rightarrow> real option" where
  "total_months state_data =
     (case (date_extreme max (map ar_date state_data),
            date_extreme min (map ar_date state_data)) of
        (Some hi, Some lo) \<Rightarrow> Some (real_of_int (hi - lo) / 30)
      | _ \<Rightarrow> None)"

definition consistency_component :: "agg_row list \<Rightarrow> (string \<times> real) list" where
  "consistency_component state_data =
     (let expected_months = length (remdups (map ar_year_month state_data)) in
      case total_months state_data of
        Some t \<Rightarrow>
          if t > 0 then
            (let completeness_ratio = real expected_months / t
             in [(''consistency_risk'',
                  1 - normalize_score (Some completeness_ratio) ''consistency'')])
          else []
      | None \<Rightarrow> [])"

definition update_pattern_component :: "string list \<Rightarrow> agg_row list \<Rightarrow> (string \<times> real) list" where
  "update_pattern_component cols state_data =
     (if ''update_ratio'' \<in> set cols then
        (let update_ratio_std = fill0 (pd_std (map ar_update_ratio state_data))
         in [(''update_pattern_risk'', normalize_score update_ratio_std ''update_pattern'')])
      else [])"

text \<open>
  Reading \<open>state_data['is_anomaly']\<close>, \<open>state_data['year_month']\<close> or
  \<open>state_data['date']\<close> raises KeyError when the column is absent.
\<close>

definition state_risk_entry :: "string list \<Rightarrow> string \<Rightarrow> agg_row list \<Rightarrow> py_error + risk_entry" where
  "state_risk_entry cols state state_data =
     (if (''anomaly_score'' \<in> set cols \<and> ''is_anomaly'' \<notin> set cols)
         \<or> ''year_month'' \<notin> set cols \<or> ''date'' \<notin> set cols
      then Inl KeyError
      else Inr \<lparr>re_state = state,
                re_components =
                  volume_component cols state_data @
                  anomaly_frequency_component cols state_data @
                  anomaly_severity_component cols state_data @
                  volatility_component cols state_data @
                  consistency_component state_data @
                  update_pattern_component cols state_data\<rparr>)"

definition groupby_state :: "agg_row list \<Rightarrow> (string \<times> agg_row list) list" where
  "groupby_state rs =
     map (\<lambda>s. (s, filter (\<lambda>r. ar_state r = s) rs)) (sort (remdups (map ar_state rs)))"

fun risk_data_loop :: "string list \<Rightarrow> (string \<times> agg_row list) list \<Rightarrow> py_error + risk_entry list" where
  "risk_data_loop cols [] = Inr []"
| "risk_data_loop cols ((state, state_data) # groups) =
     (if state_data = [] then risk_data_loop cols groups
      else case state_risk_entry cols state state_data of
             Inl e \<Rightarrow> Inl e
           | Inr risk_entry \<Rightarrow>
               (case risk_data_loop cols groups of
                  Inl e \<Rightarrow> Inl e
                | Inr risk_data \<Rightarrow> Inr (risk_entry # risk_data)))"

text \<open>Column names in order of first appearance.\<close>

definition unique :: "'a list \<Rightarrow> 'a list" where
  "unique xs = rev (remdups (rev xs))"

definition fillna0 :: "string list \<Rightarrow> (string \<times> real) list \<Rightarrow> (string \<times> real) list" where
  "fillna0 cols comps =
     map (\<lambda>c. (c, case map_of comps c of Some v \<Rightarrow> v | None \<Rightarrow> 0)) cols"

text \<open>The list \<open>risk_data\<close> that the loop of \<open>_calculate_risk_components\<close> builds.\<close>

definition calculate_risk_data :: "agg_frame \<Rightarrow> py_error + risk_entry list" where
  "calculate_risk_data df = risk_data_loop (af_columns df) (groupby_state (af_rows df))"

text \<open>
  \<open>pd.DataFrame(risk_data)\<close> has one column for every key that occurs in some entry; an
  entry without the key gets NaN there, which \<open>fillna(0)\<close> turns into 0.
\<close>

definition frame_columns :: "risk_entry list \<Rightarrow> string list" where
  "frame_columns risk_data = unique (concat (map (\<lambda>e. map fst (re_components e)) risk_data))"

definition calculate_risk_components :: "agg_frame \<Rightarrow> py_error + risk_frame" where
  "calculate_risk_components df =
     (case calculate_risk_data df of
        Inl e \<Rightarrow> Inl e
      | Inr risk_data \<Rightarrow>
          if risk_data = [] then Inr \<lparr>rf_columns = [], rf_rows = []\<rparr>
          else
            (let cols = frame_columns risk_data
             in Inr \<lparr>rf_columns = ''state'' # cols,
                     rf_rows = map (\<lambda>e. e\<lparr>re_components := fillna0 cols (re_components e)\<rparr>)
                                   risk_data\<rparr>))"

definition default_weights :: "(string \<times> real) list" where
  "default_weights =
     [(''volume_risk'', 0.15),
      (''anomaly_frequency_risk'', 0.25),
      (''anomaly_severity_risk'', 0.25),
      (''volatility_risk'', 0.15),
      (''consistency_risk'', 0.10),
      (''update_pattern_risk'', 0.10)]"

definition dict_merge :: "('k \<times> 'v) list \<Rightarrow> ('k \<times> 'v) list \<Rightarrow> ('k \<times> 'v) list" where
  "dict_merge d1 d2 = fold (\<lambda>(k, v). AList.update k v) d2 d1"

fun weights_loop :: "string list \<Rightarrow> (string \<times> real) list \<Rightarrow> (string \<times> real) list
     \<Rightarrow> real \<times> real \<Rightarrow> real \<times> real" where
  "weights_loop cols row [] acc = acc"
| "weights_loop cols row ((component, weight) # ws) (risk_score, total_weight) =
     (if component \<in> set cols then
        weights_loop cols row ws
          (risk_score + (case map_of row component of Some v \<Rightarrow> v | None \<Rightarrow> 0) * weight,
           total_weight + weight)
      else weights_loop cols row ws (risk_score, total_weight))"

text \<open>
  \<open>_apply_weights\<close>, row by row. Multiplying the \<open>state\<close> column (strings) by a weight
  raises TypeError, so a configured weight for the key \<open>state\<close> fails.
\<close>

definition row_score :: "string list \<Rightarrow> (string \<times> real) list \<Rightarrow> (string \<times> real) list \<Rightarrow> real" where
  "row_score cols weights row =
     (case weights_loop cols row weights (0, 0) of
        (risk_score, total_weight) \<Rightarrow>
          if total_weight > 0 then risk_score / total_weight else risk_score)"

definition apply_weights :: "(string \<times> real) list \<Rightarrow> risk_frame \<Rightarrow> py_error + real list" where
  "apply_weights cfg_weights df =
     (let weights = dict_merge default_weights cfg_weights in
      if ''state'' \<in> fst ` set weights \<and> ''state'' \<in> set (rf_columns df) \<and> rf_rows df \<noteq> []
      then Inl TypeError
      else Inr (map (\<lambda>row. row_score (rf_columns df) weights (re_components row))
                  (rf_rows df)))"

definition weight_of :: "(string \<times> real) list \<Rightarrow> string \<Rightarrow> real" where
  "weight_of cfg_weights c =
     (case map_of (dict_merge default_weights cfg_weights) c of Some w \<Rightarrow> w | None \<Rightarrow> 0)"

definition weighted_score :: "(string \<times> real) list \<Rightarrow> (string \<times> real) list \<Rightarrow> real" where
  "weighted_score cfg_weights comps =
     (let total = (\<Sum>(c, v)\<leftarrow>comps. weight_of cfg_weights c);
          s = (\<Sum>(c, v)\<leftarrow>comps. v * weight_of cfg_weights c)
      in if total > 0 then s / total else s)"

definition categorize_risk_level :: "real \<Rightarrow> string" where
  "categorize_risk_level score =
     (if score \<ge> 0.8 then ''CRITICAL''
      else if score \<ge> 0.6 then ''HIGH''
      else if score \<ge> 0.4 then ''MEDIUM''
      else if score \<ge> 0.2 then ''LOW''
      else ''VERY_LOW'')"

definition get_risk_color :: "string \<Rightarrow> string" where
  "get_risk_color level =
     (case map_of
        [(''CRITICAL'', ''#DC3545''),
         (''HIGH'', ''#FD7E14''),
         (''MEDIUM'', ''#FFC107''),
         (''LOW'', ''#28A745''),
         (''VERY_LOW'', ''#6C757D'')] level of
        Some c \<Rightarrow> c | None \<Rightarrow> ''#6C757D'')"

definition risk_profile_of :: "risk_entry \<Rightarrow> real \<Rightarrow> risk_profile" where
  "risk_profile_of row score =
     \<lparr>rp_state = re_state row,
      rp_components = re_components row,
      rp_risk_score = score,
      rp_risk_level = categorize_risk_level score,
      rp_risk_color = get_risk_color (categorize_risk_level score)\<rparr>"

definition calculate_risk_scores :: "(string \<times> real) list \<Rightarrow> agg_frame \<Rightarrow> py_error + risk_profile list" where
  "calculate_risk_scores cfg_weights df =
     (if af_rows df = [] \<or> af_columns df = [] \<or> ''state'' \<notin> set (af_columns df) then Inr []
      else case calculate_risk_components df of
        Inl e \<Rightarrow> Inl e
      | Inr risk_components \<Rightarrow>
          if rf_rows risk_components = [] then Inr []
          else case apply_weights cfg_weights risk_components of
            Inl e \<Rightarrow> Inl e
          | Inr scores \<Rightarrow>
              Inr (sort_key (\<lambda>p. - rp_risk_score p)
                    (map2 risk_profile_of (rf_rows risk_components) scores)))"

text \<open>Every component of a row lies in \<open>[0, 1]\<close>.\<close>

definition unit_components :: "(string \<times> real) list \<Rightarrow> bool" where
  "unit_components comps = (\<forall>(c, v)\<in>set comps. 0 \<le> v \<and> v \<le> 1)"

text \<open>
  An input with two regions: \<open>A\<close> has two months, none flagged; \<open>B\<close> has a single
  flagged row, so its date span is 0 and it gets no \<open>consistency_risk\<close> key.
\<close>

definition example_row :: "string \<Rightarrow> string \<Rightarrow> int \<Rightarrow> real \<Rightarrow> real \<Rightarrow> agg_row" where
  "example_row s ym d flag score =
     \<lparr>ar_state = s, ar_enrolment_count_sum = None, ar_is_anomaly = Some flag,
      ar_anomaly_score = Some score, ar_mom_growth = None, ar_year_month = ym,
      ar_date = Some d, ar_update_ratio = None\<rparr>"

definition example_frame :: agg_frame where
  "example_frame =
     \<lparr>af_columns = [''state'', ''year_month'', ''date'', ''is_anomaly'', ''anomaly_score''],
      af_rows = [example_row ''B'' ''2023-01'' 0 1 0.7,
                 example_row ''A'' ''2023-01'' 0 0 0.4,
                 example_row ''A'' ''2023-03'' 59 0 0.4]\<rparr>"

section \<open>Feature aggregator\<close>

text \<open>
  \<open>AadhaarFeatureEngineer._create_aggregated_features\<close> (feature_engineer.py). The derived
  columns can hold NaN and infinities, so the cells of the aggregate table are floats with
  these values made explicit.
\<close>

datatype fval = NaN | PInf | NInf | Fin real

definition of_opt :: "real option \<Rightarrow> fval" where
  "of_opt v = (case v of None \<Rightarrow> NaN | Some x \<Rightarrow> Fin x)"

text \<open>Division of two finite floats: \<open>x / 0\<close> is an infinity, \<open>0 / 0\<close> is NaN.\<close>

definition fdiv :: "real \<Rightarrow> real \<Rightarrow> fval" where
  "fdiv a b =
     (if b \<noteq> 0 then Fin (a / b)
      else if a > 0 then PInf
      else if a < 0 then NInf
      else NaN)"

fun fsub :: "fval \<Rightarrow> real \<Rightarrow> fval" where
  "fsub (Fin x) y = Fin (x - y)"
| "fsub v y = v"

text \<open>
  The input: cleaned records with their \<open>state\<close>, their \<open>date\<close> as (year, month, day)
  and their numeric cells by column name (\<open>None\<close> is NaN). \<open>rec_numeric\<close> lists the
  columns of numeric dtype in column order.
\<close>

record record_row =
  rr_state :: string
  rr_date :: "int \<times> nat \<times> nat"
  rr_num :: "string \<Rightarrow> real option"

record record_frame =
  rec_columns :: "string list"
  rec_numeric :: "string list"
  rec_rows :: "record_row list"

text \<open>
  A row of the aggregate table: the group key and the other cells in column order. The
  period \<open>year_month\<close> stays a (year, month) pair; the source renders it as a string
  after grouping.
\<close>

record monthly_row =
  mr_state :: string
  mr_year_month :: "int \<times> nat"
  mr_cells :: "(string \<times> fval) list"

record monthly_frame =
  mf_columns :: "string list"
  mf_rows :: "monthly_row list"

definition year_month :: "record_row \<Rightarrow> int \<times> nat" where
  "year_month r = (case rr_date r of (y, m, d) \<Rightarrow> (y, m))"

text \<open>Python's \<open>sub in s\<close> on strings.\<close>

fun str_contains :: "string \<Rightarrow> string \<Rightarrow> bool" where
  "str_contains sub [] = (sub = [])"
| "str_contains sub (c # cs) = (take (length sub) (c # cs) = sub \<or> str_contains sub cs)"

definition is_space :: "char \<Rightarrow> bool" where
  "is_space c = (of_char c \<in> {9, 10, 11, 12, 13, 28, 29, 30, 31, 32 :: nat})"

definition str_strip :: "string \<Rightarrow> string" where
  "str_strip s = rev (dropWhile is_space (rev (dropWhile is_space s)))"

text \<open>An entry of \<open>agg_dict\<close>: one function name, or a list of them.\<close>

datatype aggspec = Single string | Several "string list"

definition agg_fun :: "string \<Rightarrow> real option list \<Rightarrow> fval" where
  "agg_fun f xs =
     (if f = ''sum'' then Fin (pd_sum xs)
      else if f = ''mean'' then of_opt (pd_mean xs)
      else of_opt (pd_std xs))"

definition is_several :: "aggspec \<Rightarrow> bool" where
  "is_several a = (case a of Several fs \<Rightarrow> True | Single f \<Rightarrow> False)"

definition agg_funs :: "aggspec \<Rightarrow> string list" where
  "agg_funs a = (case a of Several fs \<Rightarrow> fs | Single f \<Rightarrow> [f])"

text \<open>
  The columns of the aggregation: a MultiIndex when some entry is a list, flattened by
  \<open>'_'.join(col).strip()\<close>; the plain column names otherwise.
\<close>

definition agg_columns :: "(string \<times> aggspec) list \<Rightarrow> string list" where
  "agg_columns agg_dict =
     (if \<exists>(c, a)\<in>set agg_dict. is_several a
      then concat (map (\<lambda>(c, a). map (\<lambda>f. str_strip (c @ ''_'' @ f)) (agg_funs a)) agg_dict)
      else map fst agg_dict)"

definition agg_values :: "(string \<times> aggspec) list \<Rightarrow> record_row list \<Rightarrow> fval list" where
  "agg_values agg_dict grp =
     concat (map (\<lambda>(c, a). map (\<lambda>f. agg_fun f (map (\<lambda>r. rr_num r c) grp)) (agg_funs a)) agg_dict)"

text \<open>\<open>df.groupby(['state', 'year_month']).agg(agg_dict).reset_index()\<close>: keys ascending.\<close>

definition group_keys :: "record_row list \<Rightarrow> (string \<times> int \<times> nat) list" where
  "group_keys rs = sort (remdups (map (\<lambda>r. (rr_state r, year_month r)) rs))"

definition groupby_agg :: "(string \<times> aggspec) list \<Rightarrow> record_row list \<Rightarrow> monthly_row list" where
  "groupby_agg agg_dict rs =
     map (\<lambda>(s, ym).
            \<lparr>mr_state = s, mr_year_month = ym,
             mr_cells = zip (agg_columns agg_dict)
                          (agg_values agg_dict
                             (filter (\<lambda>r. rr_state r = s \<and> year_month r = ym) rs))\<rparr>)
         (group_keys rs)"

text \<open>
  \<open>groupby('state')[col].pct_change()\<close>: each value against the previous row of the same
  state, NaN on the first row of a state. \<open>prev\<close> holds the last value seen per state.
\<close>

fun pct_change_loop :: "(string \<rightharpoonup> real) \<Rightarrow> (string \<times> real) list \<Rightarrow> fval list" where
  "pct_change_loop prev [] = []"
| "pct_change_loop prev ((s, v) # xs) =
     (case prev s of None \<Rightarrow> NaN | Some p \<Rightarrow> fsub (fdiv v p) 1)
     # pct_change_loop (prev(s \<mapsto> v)) xs"

definition pct_change :: "(string \<times> real) list \<Rightarrow> fval list" where
  "pct_change xs = pct_change_loop Map.empty xs"

text \<open>
  \<open>groupby('state')[col].transform(lambda x: (x - x.mean()) / x.std() if x.std() > 0 else 0)\<close>:
  \<open>x\<close> is the series of the row's state; \<open>NaN > 0\<close> is false.
\<close>

definition z_score_of :: "real list \<Rightarrow> real \<Rightarrow> real" where
  "z_score_of x v =
     (case pd_std (map Some x) of
        Some sd \<Rightarrow> if sd > 0 then (v - sum_list x / real (length x)) / sd else 0
      | None \<Rightarrow> 0)"

definition z_scores :: "(string \<times> real) list \<Rightarrow> fval list" where
  "z_scores xs =
     map (\<lambda>(s, v). Fin (z_score_of (map snd (filter (\<lambda>y. fst y = s) xs)) v)) xs"

text \<open>The value of a sum column: a sum skips NaN, so it is finite.\<close>

definition cell_real :: "monthly_row \<Rightarrow> string \<Rightarrow> real" where
  "cell_real row c = (case map_of (mr_cells row) c of Some (Fin x) \<Rightarrow> x | _ \<Rightarrow> 0)"

definition set_cell :: "string \<Rightarrow> fval \<Rightarrow> monthly_row \<Rightarrow> monthly_row" where
  "set_cell c v row = row\<lparr>mr_cells := AList.update c v (mr_cells row)\<rparr>"

definition set_column :: "string \<Rightarrow> fval list \<Rightarrow> monthly_frame \<Rightarrow> monthly_frame" where
  "set_column c vs df =
     \<lparr>mf_columns = (if c \<in> set (mf_columns df) then mf_columns df else mf_columns df @ [c]),
      mf_rows = map2 (set_cell c) vs (mf_rows df)\<rparr>"

definition state_series :: "monthly_frame \<Rightarrow> string \<Rightarrow> (string \<times> real) list" where
  "state_series df c = map (\<lambda>row. (mr_state row, cell_real row c)) (mf_rows df)"

definition derived_metrics :: "monthly_frame \<Rightarrow> monthly_frame" where
  "derived_metrics aggregated =
     (let sum_cols = filter (str_contains ''_sum'') (mf_columns aggregated) in
      case sum_cols of
        [] \<Rightarrow> aggregated
      | primary_sum # rest \<Rightarrow>
          (let aggregated = set_column ''mom_growth''
                 (pct_change (state_series aggregated primary_sum)) aggregated;
               aggregated = set_column ''z_score''
                 (z_scores (state_series aggregated primary_sum)) aggregated
           in case rest of
                [] \<Rightarrow> aggregated
              | update_sum # others \<Rightarrow>
                  set_column ''update_ratio''
                    (map (\<lambda>row. Fin (cell_real row update_sum /
                                      (if cell_real row primary_sum = 0 then 1
                                       else cell_real row primary_sum)))
                       (mf_rows aggregated))
                    aggregated))"

definition empty_frame :: monthly_frame where
  "empty_frame = \<lparr>mf_columns = [], mf_rows = []\<rparr>"

definition enrolment_col :: "record_frame \<Rightarrow> string option" where
  "enrolment_col df =
     find (\<lambda>c. c \<in> set (rec_columns df)) [''enrolment_count'', ''Total_Enrolments'', ''enrolments'']"

definition update_col :: "record_frame \<Rightarrow> string option" where
  "update_col df =
     find (\<lambda>c. c \<in> set (rec_columns df)) [''update_count'', ''Total_Updates'', ''updates'']"

definition agg_dict_of :: "record_frame \<Rightarrow> (string \<times> aggspec) list" where
  "agg_dict_of df =
     (let agg_dict =
            (case enrolment_col df of
               Some c \<Rightarrow> [(c, Several [''sum'', ''mean'', ''std''])] | None \<Rightarrow> []) @
            (case update_col df of Some c \<Rightarrow> [(c, Single ''sum'')] | None \<Rightarrow> [])
      in if agg_dict = [] then map (\<lambda>c. (c, Single ''sum'')) (take 2 (rec_numeric df))
         else agg_dict)"

definition create_aggregated_features :: "record_frame \<Rightarrow> monthly_frame" where
  "create_aggregated_features df =
     (if ''state'' \<notin> set (rec_columns df) \<or> ''date'' \<notin> set (rec_columns df) then empty_frame
      else
        (let agg_dict = agg_dict_of df in
         if agg_dict = [] then empty_frame
         else derived_metrics
                \<lparr>mf_columns = ''state'' # ''year_month'' # agg_columns agg_dict,
                 mf_rows = groupby_agg agg_dict (rec_rows df)\<rparr>))"

text \<open>The aggregate table before the derived columns.\<close>

definition base_frame :: "record_frame \<Rightarrow> monthly_frame" where
  "base_frame df =
     \<lparr>mf_columns = ''state'' # ''year_month'' # agg_columns (agg_dict_of df),
      mf_rows = groupby_agg (agg_dict_of df) (rec_rows df)\<rparr>"

text \<open>The names of the sum columns after the first.\<close>

definition update_sum_names :: "record_frame \<Rightarrow> string list" where
  "update_sum_names df = (case update_col df of Some u \<Rightarrow> [u @ ''_sum''] | None \<Rightarrow> [])"

text \<open>
  For the statements: the sum of column \<open>c\<close> over the records of one region and month,
  and the months in which a region has records.
\<close>

definition volume_sum :: "record_frame \<Rightarrow> string \<Rightarrow> string \<Rightarrow> int \<times> nat \<Rightarrow> real" where
  "volume_sum df c s ym =
     pd_sum (map (\<lambda>r. rr_num r c)
               (filter (\<lambda>r. rr_state r = s \<and> year_month r = ym) (rec_rows df)))"

definition region_months :: "record_frame \<Rightarrow> string \<Rightarrow> (int \<times> nat) set" where
  "region_months df s = set (map year_month (filter (\<lambda>r. rr_state r = s) (rec_rows df)))"


text \<open>
  The scenario of the specification: regions \<open>A\<close> and \<open>B\<close>, one record in each of
  three consecutive months, volumes 100, 100, 100 and 100, 100, 300.
\<close>

definition scenario_row :: "string \<Rightarrow> nat \<Rightarrow> real \<Rightarrow> record_row" where
  "scenario_row s m v =
     \<lparr>rr_state = s, rr_date = (2023, m, 15),
      rr_num = (\<lambda>c. if c = ''enrolment_count'' then Some v
                    else if c = ''update_count'' then Some 10 else None)\<rparr>"


definition scenario_frame :: record_frame where
  "scenario_frame =
     \<lparr>rec_columns = [''date'', ''state'', ''enrolment_count'', ''update_count''],
      rec_numeric = [''enrolment_count'', ''update_count''],
      rec_rows = [scenario_row ''B'' 3 300, scenario_row ''A'' 1 100, scenario_row ''B'' 1 100,
                  scenario_row ''A'' 2 100, scenario_row ''B'' 2 100, scenario_row ''A'' 3 100]\<rparr>"

section \<open>Data cleaner\<close>

text \<open>
  \<open>AadhaarDataCleaner\<close> (data_cleaner.py). A cell is missing (None, NaN, NaT), a number,
  a string or a timestamp in seconds since 1970-01-01. A table is its columns, each with
  the kind of its dtype, and its rows as tuples of cells in column order.
\<close>

datatype cell = Null | Num real | Str string | Date int

datatype dtype = Numeric | Object | Datetime

record table =
  tb_columns :: "(string \<times> dtype) list"
  tb_rows :: "cell list list"

text \<open>
  What the cleaner takes from outside: the configured \<open>column_mappings\<close>, the clock
  \<open>pd.Timestamp.now()\<close>, and two library functions on cells, \<open>pd.to_datetime\<close> with
  \<open>errors='coerce'\<close> on a column and \<open>astype(str)\<close> on a cell.
\<close>

record cleaner_env =
  column_mappings :: "(string \<times> string list) list"
  to_datetime :: "cell list \<Rightarrow> cell list"
  astype_str :: "cell \<Rightarrow> string"
  now :: int

definition col_names :: "table \<Rightarrow> string list" where
  "col_names t = map fst (tb_columns t)"

definition has_col :: "table \<Rightarrow> string \<Rightarrow> bool" where
  "has_col t c = (c \<in> set (col_names t))"

definition col_index :: "table \<Rightarrow> string \<Rightarrow> nat" where
  "col_index t c = length (takeWhile (\<lambda>n. n \<noteq> c) (col_names t))"

definition cell_of :: "table \<Rightarrow> string \<Rightarrow> cell list \<Rightarrow> cell" where
  "cell_of t c r = (if col_index t c < length r then r ! col_index t c else Null)"

text \<open>\<open>df[c]\<close>, \<open>df[mask]\<close>, \<open>df[c] = df[c].map(f)\<close> and \<open>df[c] = values\<close>.\<close>

definition column :: "table \<Rightarrow> string \<Rightarrow> cell list" where
  "column t c = map (cell_of t c) (tb_rows t)"

definition filter_rows :: "(cell list \<Rightarrow> bool) \<Rightarrow> table \<Rightarrow> table" where
  "filter_rows P t = t\<lparr>tb_rows := filter P (tb_rows t)\<rparr>"

definition map_column :: "string \<Rightarrow> (cell \<Rightarrow> cell) \<Rightarrow> table \<Rightarrow> table" where
  "map_column c f t =
     t\<lparr>tb_rows := map (\<lambda>r. r[col_index t c := f (cell_of t c r)]) (tb_rows t)\<rparr>"

definition assign_column :: "string \<Rightarrow> cell list \<Rightarrow> table \<Rightarrow> table" where
  "assign_column c vs t =
     t\<lparr>tb_rows := map (\<lambda>(k, r). r[col_index t c := (if k < length vs then vs ! k else Null)])
                      (enumerate 0 (tb_rows t))\<rparr>"

definition set_dtype :: "string \<Rightarrow> dtype \<Rightarrow> table \<Rightarrow> table" where
  "set_dtype c dt t =
     t\<lparr>tb_columns := map (\<lambda>(n, d). if n = c then (n, dt) else (n, d)) (tb_columns t)\<rparr>"

definition isna :: "cell \<Rightarrow> bool" where
  "isna v = (v = Null)"

definition fillna :: "cell \<Rightarrow> cell \<Rightarrow> cell" where
  "fillna v x = (if isna x then v else x)"

subsection \<open>Step 1: column names\<close>

text \<open>
  The loops of \<open>_standardize_columns\<close> build the dict \<open>column_mapping\<close>: for every
  standard name the first of its possible names that is a column.
\<close>

fun mapping_loop :: "string list \<Rightarrow> (string \<times> string list) list \<Rightarrow> (string \<times> string) list
     \<Rightarrow> (string \<times> string) list" where
  "mapping_loop cols [] column_mapping = column_mapping"
| "mapping_loop cols ((standard_name, possible_names) # rest) column_mapping =
     mapping_loop cols rest
       (case find (\<lambda>possible_name. possible_name \<in> set cols) possible_names of
          Some possible_name \<Rightarrow> AList.update possible_name standard_name column_mapping
        | None \<Rightarrow> column_mapping)"

definition rename_columns :: "(string \<times> string) list \<Rightarrow> table \<Rightarrow> table" where
  "rename_columns m t =
     t\<lparr>tb_columns :=
         map (\<lambda>(c, dt). (case map_of m c of Some s \<Rightarrow> s | None \<Rightarrow> c, dt)) (tb_columns t)\<rparr>"

definition standardize_columns :: "cleaner_env \<Rightarrow> table \<Rightarrow> py_error + table" where
  "standardize_columns env df =
     (let column_mapping = mapping_loop (col_names df) (column_mappings env) [] in
      if column_mapping = [] then Inr df
      else (let df' = rename_columns column_mapping df in
            if distinct (col_names df') then Inr df' else Inl Unsupported))"

subsection \<open>Step 2: missing values\<close>

definition median :: "real list \<Rightarrow> real option" where
  "median xs =
     (let ys = sort xs; n = length ys in
      if n = 0 then None
      else if odd n then Some (ys ! (n div 2))
      else Some ((ys ! (n div 2 - 1) + ys ! (n div 2)) / 2))"

definition num_values :: "cell list \<Rightarrow> real list" where
  "num_values vs = concat (map (\<lambda>v. case v of Num x \<Rightarrow> [x] | _ \<Rightarrow> []) vs)"

definition fill_median :: "string \<Rightarrow> table \<Rightarrow> table" where
  "fill_median col df =
     (let missing_count = length (filter isna (column df col)) in
      if missing_count > 0 then
        (case median (num_values (column df col)) of
           Some median_val \<Rightarrow> map_column col (fillna (Num median_val)) df
         | None \<Rightarrow> df)
      else df)"

text \<open>
  \<open>Series.mode()[0]\<close>: the most frequent value that is not missing, the least of them
  when several are. Values of one kind are ordered as Python orders them; for a column of
  mixed kinds pandas gives up sorting, here the kinds are ranked.
\<close>

fun cell_less :: "cell \<Rightarrow> cell \<Rightarrow> bool" where
  "cell_less (Num x) (Num y) = (x < y)"
| "cell_less (Str x) (Str y) = (x < y)"
| "cell_less (Date x) (Date y) = (x < y)"
| "cell_less (Num x) v = True"
| "cell_less (Str x) (Date y) = True"
| "cell_less u v = False"

definition mode_val :: "cell list \<Rightarrow> cell option" where
  "mode_val vs =
     (let xs = filter (\<lambda>v. \<not> isna v) vs;
          count = (\<lambda>v. length (filter (\<lambda>x. x = v) xs));
          top = fold max (map count xs) 0
      in case filter (\<lambda>v. count v = top) (remdups xs) of
           [] \<Rightarrow> None
         | v # rest \<Rightarrow> Some (fold (\<lambda>a b. if cell_less a b then a else b) rest v))"

definition fill_mode :: "string \<Rightarrow> table \<Rightarrow> table" where
  "fill_mode col df =
     (if has_col df col then
        (let missing_count = length (filter isna (column df col)) in
         if missing_count > 0 then
           (case mode_val (column df col) of
              Some mode_v \<Rightarrow> map_column col (fillna mode_v) df
            | None \<Rightarrow> set_dtype col Object (map_column col (fillna (Str ''Unknown'')) df))
         else df)
      else df)"

text \<open>
  The share of missing cells of a row over \<open>cols_to_check\<close>; the mean over no column is
  NaN, and \<open>NaN < threshold\<close> is false.
\<close>

definition missing_share_below :: "table \<Rightarrow> string list \<Rightarrow> real \<Rightarrow> cell list \<Rightarrow> bool" where
  "missing_share_below df cols_to_check threshold r =
     (cols_to_check \<noteq> [] \<and>
      real (length (filter (\<lambda>c. isna (cell_of df c r)) cols_to_check))
        / real (length cols_to_check) < threshold)"

definition handle_missing_values :: "table \<Rightarrow> table" where
  "handle_missing_values df0 =
     (let df = (if has_col df0 ''date''
                then filter_rows (\<lambda>r. \<not> isna (cell_of df0 ''date'' r)) df0 else df0);
          numeric_cols = map fst (filter (\<lambda>(c, dt). dt = Numeric) (tb_columns df));
          df = fold fill_median numeric_cols df;
          categorical_cols = [''state'', ''district'', ''pincode''];
          df = fold fill_mode categorical_cols df;
          threshold = 0.5;
          cols_to_check = filter (\<lambda>c. c \<noteq> ''source_file'') (col_names df)
      in filter_rows (missing_share_below df cols_to_check threshold) df)"

subsection \<open>Step 3: dates\<close>

text \<open>\<open>pd.Timestamp('2009-01-01')\<close> in seconds since 1970-01-01.\<close>

definition program_start :: int where
  "program_start = 1230768000"

definition date_at_least :: "int \<Rightarrow> cell \<Rightarrow> bool" where
  "date_at_least lo v = (case v of Date d \<Rightarrow> lo \<le> d | _ \<Rightarrow> False)"

definition date_at_most :: "int \<Rightarrow> cell \<Rightarrow> bool" where
  "date_at_most hi v = (case v of Date d \<Rightarrow> d \<le> hi | _ \<Rightarrow> False)"

definition clean_dates :: "cleaner_env \<Rightarrow> table \<Rightarrow> table" where
  "clean_dates env df0 =
     (if \<not> has_col df0 ''date'' then df0
      else
        (let df = set_dtype ''date'' Datetime
                    (assign_column ''date'' (to_datetime env (column df0 ''date'')) df0);
             df = filter_rows (\<lambda>r. \<not> isna (cell_of df ''date'' r)) df;
             df = filter_rows (\<lambda>r. date_at_least program_start (cell_of df ''date'' r)) df;
             df = filter_rows (\<lambda>r. date_at_most (now env) (cell_of df ''date'' r)) df
         in df))"

subsection \<open>Step 4: geographic names\<close>

text \<open>
  The string methods are given for ASCII strings: the character classes are the ASCII
  ones, and \<open>str.title\<close> starts every run of letters with a capital and lowers the rest
  of the run. On a character beyond ASCII Python follows the Unicode tables (an accented
  letter is a letter for \<open>str.title\<close>), which are not part of the embedding; what is
  proved of the contents of a name is proved of ASCII names.
\<close>

definition is_ascii :: "string \<Rightarrow> bool" where
  "is_ascii s = list_all (\<lambda>c. of_char c < (128 :: nat)) s"

definition ascii_lowercase :: string where
  "ascii_lowercase = ''abcdefghijklmnopqrstuvwxyz''"

definition ascii_uppercase :: string where
  "ascii_uppercase = ''ABCDEFGHIJKLMNOPQRSTUVWXYZ''"

definition is_lower :: "char \<Rightarrow> bool" where
  "is_lower c = (c \<in> set ascii_lowercase)"

definition is_upper :: "char \<Rightarrow> bool" where
  "is_upper c = (c \<in> set ascii_uppercase)"

definition is_digit :: "char \<Rightarrow> bool" where
  "is_digit c = (c \<in> set ''0123456789'')"

definition to_upper :: "char \<Rightarrow> char" where
  "to_upper c = (case map_of (zip ascii_lowercase ascii_uppercase) c of Some u \<Rightarrow> u | None \<Rightarrow> c)"

definition to_lower :: "char \<Rightarrow> char" where
  "to_lower c = (case map_of (zip ascii_uppercase ascii_lowercase) c of Some l \<Rightarrow> l | None \<Rightarrow> c)"

fun title_loop :: "bool \<Rightarrow> string \<Rightarrow> string" where
  "title_loop previous_is_cased [] = []"
| "title_loop previous_is_cased (c # cs) =
     (if is_lower c then
        (if previous_is_cased then c else to_upper c) # title_loop True cs
      else if is_upper c then
        (if previous_is_cased then to_lower c else c) # title_loop True cs
      else c # title_loop False cs)"

definition str_title :: "string \<Rightarrow> string" where
  "str_title s = title_loop False s"

definition state_corrections :: "(string \<times> string) list" where
  "state_corrections =
     [(''DELHI'', ''NCT of Delhi''),
      (''NEW DELHI'', ''NCT of Delhi''),
      (''PONDICHERRY'', ''Puducherry''),
      (''ORISSA'', ''Odisha''),
      (''UTTARANCHAL'', ''Uttarakhand''),
      (''JAMMU & KASHMIR'', ''Jammu and Kashmir'')]"

text \<open>
  The \<open>.str\<close> methods work on the strings of an object column and give NaN elsewhere;
  on a column of another dtype the accessor raises AttributeError.
\<close>

definition str_map :: "(string \<Rightarrow> cell) \<Rightarrow> cell \<Rightarrow> cell" where
  "str_map f v = (case v of Str s \<Rightarrow> f s | _ \<Rightarrow> Null)"

definition str_accessor :: "string \<Rightarrow> (string \<Rightarrow> cell) \<Rightarrow> table \<Rightarrow> py_error + table" where
  "str_accessor col f df =
     (if map_of (tb_columns df) col = Some Object then Inr (map_column col (str_map f) df)
      else Inl AttributeError)"

definition replace_values :: "(string \<times> string) list \<Rightarrow> cell \<Rightarrow> cell" where
  "replace_values d v =
     (case v of
        Str s \<Rightarrow> (case map_of d s of Some s' \<Rightarrow> Str s' | None \<Rightarrow> Str s)
      | _ \<Rightarrow> v)"

text \<open>\<open>str.replace(r'[^a-zA-Z\s]', '', regex=True)\<close>\<close>

definition strip_non_alpha :: "string \<Rightarrow> string" where
  "strip_non_alpha s = filter (\<lambda>c. is_lower c \<or> is_upper c \<or> is_space c) s"

text \<open>\<open>str.extract(r'(\d{6})')[0]\<close>: the leftmost run of six digits, else NaN.\<close>

fun extract_six_digits :: "string \<Rightarrow> cell" where
  "extract_six_digits [] = Null"
| "extract_six_digits (c # cs) =
     (if 6 \<le> length (c # cs) \<and> list_all is_digit (take 6 (c # cs)) then Str (take 6 (c # cs))
      else extract_six_digits cs)"

definition clean_state :: "table \<Rightarrow> py_error + table" where
  "clean_state df =
     (if has_col df ''state'' then
        (case str_accessor ''state'' (\<lambda>s. Str (str_title s)) df of
           Inl e \<Rightarrow> Inl e
         | Inr df \<Rightarrow> Inr (map_column ''state'' (replace_values state_corrections) df))
      else Inr df)"

definition clean_district :: "table \<Rightarrow> py_error + table" where
  "clean_district df =
     (if has_col df ''district'' then
        (case str_accessor ''district'' (\<lambda>s. Str (str_title s)) df of
           Inl e \<Rightarrow> Inl e
         | Inr df \<Rightarrow> str_accessor ''district'' (\<lambda>s. Str (strip_non_alpha s)) df)
      else Inr df)"

definition clean_pincode :: "cleaner_env \<Rightarrow> table \<Rightarrow> table" where
  "clean_pincode env df =
     (if has_col df ''pincode'' then
        (let df = set_dtype ''pincode'' Object
                    (map_column ''pincode''
                       (\<lambda>v. Str (str_strip (case v of Str s \<Rightarrow> s | _ \<Rightarrow> astype_str env v))) df)
         in map_column ''pincode'' (str_map extract_six_digits) df)
      else df)"

definition clean_geographic_data :: "cleaner_env \<Rightarrow> table \<Rightarrow> py_error + table" where
  "clean_geographic_data env df =
     (case clean_state df of
        Inl e \<Rightarrow> Inl e
      | Inr df \<Rightarrow>
          (case clean_district df of
             Inl e \<Rightarrow> Inl e
           | Inr df \<Rightarrow> Inr (clean_pincode env df)))"

subsection \<open>Step 5: numeric ranges\<close>

text \<open>
  A comparison or \<open>clip\<close> on a column raises TypeError when the column holds a string or a
  timestamp; a missing number compares false.
\<close>

definition is_number_or_na :: "cell \<Rightarrow> bool" where
  "is_number_or_na v = (case v of Num x \<Rightarrow> True | Null \<Rightarrow> True | _ \<Rightarrow> False)"

definition numeric_column :: "table \<Rightarrow> string \<Rightarrow> bool" where
  "numeric_column df c = list_all is_number_or_na (column df c)"

definition num_ge :: "cell \<Rightarrow> real \<Rightarrow> bool" where
  "num_ge v b = (case v of Num x \<Rightarrow> b \<le> x | _ \<Rightarrow> False)"

definition num_le_scaled :: "cell \<Rightarrow> cell \<Rightarrow> real \<Rightarrow> bool" where
  "num_le_scaled v w k = (case (v, w) of (Num x, Num y) \<Rightarrow> x \<le> y * k | _ \<Rightarrow> False)"

definition clip_upper :: "real \<Rightarrow> cell \<Rightarrow> cell" where
  "clip_upper b v = (case v of Num x \<Rightarrow> Num (min x b) | _ \<Rightarrow> v)"

definition clip_lower :: "real \<Rightarrow> cell \<Rightarrow> cell" where
  "clip_lower b v = (case v of Num x \<Rightarrow> Num (max x b) | _ \<Rightarrow> v)"

definition validate_enrolment :: "table \<Rightarrow> py_error + table" where
  "validate_enrolment df =
     (if has_col df ''enrolment_count'' then
        (if numeric_column df ''enrolment_count'' then
           (let df = filter_rows (\<lambda>r. num_ge (cell_of df ''enrolment_count'' r) 0) df
            in Inr (map_column ''enrolment_count'' (clip_upper 1000000) df))
         else Inl TypeError)
      else Inr df)"

definition validate_update :: "table \<Rightarrow> py_error + table" where
  "validate_update df =
     (if has_col df ''update_count'' then
        (if numeric_column df ''update_count'' then
           (let df = filter_rows (\<lambda>r. num_ge (cell_of df ''update_count'' r) 0) df
            in if has_col df ''enrolment_count'' then
                 Inr (filter_rows
                        (\<lambda>r. num_le_scaled (cell_of df ''update_count'' r)
                                (cell_of df ''enrolment_count'' r) 5) df)
               else Inr df)
         else Inl TypeError)
      else Inr df)"

definition age_columns :: "string list" where
  "age_columns = [''age_0_18'', ''age_19_40'', ''age_41_60'', ''age_60_plus'']"

text \<open>\<open>df[existing_age_cols].sum(axis=1)\<close>: the row sum, missing cells skipped.\<close>

definition age_sum :: "table \<Rightarrow> string list \<Rightarrow> cell list \<Rightarrow> real" where
  "age_sum df cols r = sum_list (num_values (map (\<lambda>c. cell_of df c r) cols))"

definition validate_age :: "table \<Rightarrow> py_error + table" where
  "validate_age df =
     (let existing_age_cols = filter (has_col df) age_columns in
      if existing_age_cols \<noteq> [] then
        (if list_all (numeric_column df) existing_age_cols then
           (let df = fold (\<lambda>col. map_column col (clip_lower 0)) existing_age_cols df
            in if has_col df ''enrolment_count'' then
                 Inr (filter_rows
                        (\<lambda>r. case cell_of df ''enrolment_count'' r of
                                Num e \<Rightarrow> age_sum df existing_age_cols r \<le> e * 1.1
                              | _ \<Rightarrow> False) df)
               else Inr df)
         else Inl TypeError)
      else Inr df)"

definition validate_numeric_ranges :: "table \<Rightarrow> py_error + table" where
  "validate_numeric_ranges df =
     (case validate_enrolment df of
        Inl e \<Rightarrow> Inl e
      | Inr df \<Rightarrow>
          (case validate_update df of
             Inl e \<Rightarrow> Inl e
           | Inr df \<Rightarrow> validate_age df))"

subsection \<open>Step 6: duplicates\<close>

text \<open>\<open>drop_duplicates(subset, keep='first')\<close>: \<open>seen\<close> holds the keys of the rows kept.\<close>

fun drop_duplicates :: "('r \<Rightarrow> 'k) \<Rightarrow> 'k list \<Rightarrow> 'r list \<Rightarrow> 'r list" where
  "drop_duplicates key seen [] = []"
| "drop_duplicates key seen (r # rs) =
     (if key r \<in> set seen then drop_duplicates key seen rs
      else r # drop_duplicates key (key r # seen) rs)"

definition duplicate_key :: "table \<Rightarrow> cell list \<Rightarrow> cell list" where
  "duplicate_key df r =
     map (\<lambda>c. cell_of df c r) (filter (has_col df) [''date'', ''state'', ''district''])"

definition remove_duplicates :: "table \<Rightarrow> table" where
  "remove_duplicates df =
     (let duplicate_cols = [''date'', ''state'', ''district''];
          existing_cols = filter (has_col df) duplicate_cols
      in if existing_cols \<noteq> [] then
           df\<lparr>tb_rows := drop_duplicates (duplicate_key df) [] (tb_rows df)\<rparr>
         else df)"

subsection \<open>The pipeline\<close>

definition clean :: "cleaner_env \<Rightarrow> table \<Rightarrow> py_error + table" where
  "clean env df =
     (case standardize_columns env df of
        Inl e \<Rightarrow> Inl e
      | Inr df \<Rightarrow>
          (case clean_geographic_data env (clean_dates env (handle_missing_values df)) of
             Inl e \<Rightarrow> Inl e
           | Inr df \<Rightarrow>
               (case validate_numeric_ranges df of
                  Inl e \<Rightarrow> Inl e
                | Inr df \<Rightarrow> Inr (remove_duplicates df))))"

definition row_count :: "table \<Rightarrow> nat" where
  "row_count df = length (tb_rows df)"

subsection \<open>Tables that are already clean\<close>

text \<open>
  The conditions on an input table, column by column; each speaks of a column only when
  the table has it.
\<close>

definition dtype_is :: "table \<Rightarrow> string \<Rightarrow> dtype \<Rightarrow> bool" where
  "dtype_is df c dt = (\<forall>(n, d)\<in>set (tb_columns df). n = c \<longrightarrow> d = dt)"

definition str_holds :: "(string \<Rightarrow> bool) \<Rightarrow> cell \<Rightarrow> bool" where
  "str_holds P v = (case v of Str s \<Rightarrow> P s | _ \<Rightarrow> False)"

definition num_holds :: "(real \<Rightarrow> bool) \<Rightarrow> cell \<Rightarrow> bool" where
  "num_holds P v = (case v of Num x \<Rightarrow> P x | _ \<Rightarrow> False)"

text \<open>
  Canonical column names: no two columns share a name, no configured alias renames a
  column, and some column besides \<open>source_file\<close> exists.
\<close>

definition canonical_columns :: "cleaner_env \<Rightarrow> table \<Rightarrow> bool" where
  "canonical_columns env df =
     (distinct (col_names df) \<and>
      (\<forall>(p, s)\<in>set (mapping_loop (col_names df) (column_mappings env) []). p = s) \<and>
      filter (\<lambda>c. c \<noteq> ''source_file'') (col_names df) \<noteq> [])"

definition no_nulls :: "table \<Rightarrow> bool" where
  "no_nulls df = (\<forall>r\<in>set (tb_rows df). \<forall>c\<in>set (col_names df). \<not> isna (cell_of df c r))"

definition no_duplicate_keys :: "table \<Rightarrow> bool" where
  "no_duplicate_keys df = distinct (map (duplicate_key df) (tb_rows df))"

text \<open>
  Dates parsed and inside the window: the column holds timestamps between
  \<open>program_start\<close> and \<open>now\<close>, has the datetime dtype, and \<open>pd.to_datetime\<close> returns such a
  column as it is.
\<close>

definition dates_in_window :: "cleaner_env \<Rightarrow> table \<Rightarrow> bool" where
  "dates_in_window env df =
     (has_col df ''date'' \<longrightarrow>
        dtype_is df ''date'' Datetime \<and>
        to_datetime env (column df ''date'') = column df ''date'' \<and>
        (\<forall>r\<in>set (tb_rows df).
           date_at_least program_start (cell_of df ''date'' r) \<and>
           date_at_most (now env) (cell_of df ''date'' r)))"

definition title_case :: "table \<Rightarrow> string \<Rightarrow> bool" where
  "title_case df c =
     (has_col df c \<longrightarrow>
        dtype_is df c Object \<and>
        (\<forall>r\<in>set (tb_rows df). str_holds (\<lambda>s. str_title s = s) (cell_of df c r)))"

definition counts_in_range :: "table \<Rightarrow> bool" where
  "counts_in_range df =
     ((has_col df ''enrolment_count'' \<longrightarrow>
         (\<forall>r\<in>set (tb_rows df).
            num_holds (\<lambda>x. 0 \<le> x \<and> x \<le> 1000000) (cell_of df ''enrolment_count'' r))) \<and>
      (has_col df ''update_count'' \<longrightarrow>
         (\<forall>r\<in>set (tb_rows df).
            num_holds (\<lambda>y. 0 \<le> y) (cell_of df ''update_count'' r) \<and>
            (has_col df ''enrolment_count'' \<longrightarrow>
               num_le_scaled (cell_of df ''update_count'' r)
                 (cell_of df ''enrolment_count'' r) 5))) \<and>
      (\<forall>c\<in>set age_columns. has_col df c \<longrightarrow>
         (\<forall>r\<in>set (tb_rows df). num_holds (\<lambda>a. 0 \<le> a) (cell_of df c r))) \<and>
      (has_col df ''enrolment_count'' \<longrightarrow>
         (\<forall>r\<in>set (tb_rows df).
            num_holds (\<lambda>e. age_sum df (filter (has_col df) age_columns) r \<le> e * 1.1)
              (cell_of df ''enrolment_count'' r))))"

text \<open>
  The hypotheses of the idempotence property as the specification lists them: no nulls,
  no duplicate keys, dates parsed and in the window, names in title case, counts in
  range (on canonical columns).
\<close>

definition listed_clean :: "cleaner_env \<Rightarrow> table \<Rightarrow> bool" where
  "listed_clean env df =
     (canonical_columns env df \<and> no_nulls df \<and> no_duplicate_keys df \<and>
      dates_in_window env df \<and> title_case df ''state'' \<and> title_case df ''district'' \<and>
      counts_in_range df)"

text \<open>What the geographic step asks beyond title case.\<close>

definition district_alphabetic :: "table \<Rightarrow> bool" where
  "district_alphabetic df =
     (has_col df ''district'' \<longrightarrow>
        (\<forall>r\<in>set (tb_rows df).
           str_holds (\<lambda>s. strip_non_alpha s = s) (cell_of df ''district'' r)))"

definition pincode_six_digits :: "table \<Rightarrow> bool" where
  "pincode_six_digits df =
     (has_col df ''pincode'' \<longrightarrow>
        dtype_is df ''pincode'' Object \<and>
        (\<forall>r\<in>set (tb_rows df).
           str_holds (\<lambda>s. length s = 6 \<and> list_all is_digit s) (cell_of df ''pincode'' r)))"

text \<open>The state names, district names and pincodes are ASCII strings.\<close>

definition ascii_names :: "table \<Rightarrow> bool" where
  "ascii_names df =
     (\<forall>c\<in>set [''state'', ''district'', ''pincode'']. has_col df c \<longrightarrow>
        (\<forall>r\<in>set (tb_rows df). str_holds is_ascii (cell_of df c r)))"

definition already_clean :: "cleaner_env \<Rightarrow> table \<Rightarrow> bool" where
  "already_clean env df =
     (listed_clean env df \<and> district_alphabetic df \<and> pincode_six_digits df \<and>
      ascii_names df)"

subsection \<open>Example tables\<close>

text \<open>
  An environment for the examples: the column names of the sample data mapped to the
  standard ones, a clock, and stand-ins for the two library functions that keep
  timestamps (anything else becomes NaT) and render a cell that is not a string as
  \<open>nan\<close>.
\<close>

definition example_env :: cleaner_env where
  "example_env =
     \<lparr>column_mappings =
        [(''date'', [''Date'']), (''state'', [''State_Name'']),
         (''district'', [''District_Name'']), (''enrolment_count'', [''Total_Enrolments'']),
         (''update_count'', [''Total_Updates''])],
      to_datetime = map (\<lambda>v. case v of Date d \<Rightarrow> Date d | _ \<Rightarrow> Null),
      astype_str = (\<lambda>v. ''nan''),
      now = 1700000000\<rparr>"

text \<open>
  Raw records: a good one, one without date, one that repeats the key of the first, one
  from before the program, one with a negative count.
\<close>

definition raw_table :: table where
  "raw_table =
     \<lparr>tb_columns = [(''Date'', Datetime), (''State_Name'', Object), (''District_Name'', Object),
                    (''Total_Enrolments'', Numeric), (''Total_Updates'', Numeric)],
      tb_rows =
        [[Date 1600000000, Str ''delhi'', Str ''Central'', Num 100, Num 10],
         [Null, Str ''delhi'', Str ''Central'', Num 50, Num 5],
         [Date 1600000000, Str ''Delhi'', Str ''central'', Num 70, Num 7],
         [Date 1000000000, Str ''Goa'', Str ''North'', Num 30, Num 3],
         [Date 1600000000, Str ''Goa'', Str ''South'', Num (- 5), Num 0]]\<rparr>"

text \<open>A table with canonical names and one record in the form of the sample data.\<close>

definition sample_table :: table where
  "sample_table =
     \<lparr>tb_columns = [(''date'', Datetime), (''state'', Object), (''district'', Object),
                    (''enrolment_count'', Numeric), (''update_count'', Numeric)],
      tb_rows = [[Date 1600000000, Str ''Maharashtra'', Str ''Maharashtra_District'',
                  Num 100, Num 10]]\<rparr>"

definition tidy_table :: table where
  "tidy_table =
     \<lparr>tb_columns = [(''date'', Datetime), (''state'', Object), (''district'', Object),
                    (''pincode'', Object), (''enrolment_count'', Numeric),
                    (''update_count'', Numeric), (''age_0_18'', Numeric)],
      tb_rows = [[Date 1600000000, Str ''Maharashtra'', Str ''Pune'', Str ''411001'',
                  Num 100, Num 10, Num 25],
                 [Date 1600086400, Str ''Maharashtra'', Str ''Pune'', Str ''411001'',
                  Num 120, Num 0, Num 30]]\<rparr>"

text \<open>The raw records after the column names are standardized, and after later steps.\<close>

definition standard_columns :: "(string \<times> dtype) list" where
  "standard_columns =
     [(''date'', Datetime), (''state'', Object), (''district'', Object),
      (''enrolment_count'', Numeric), (''update_count'', Numeric)]"

definition raw_standardized :: table where
  "raw_standardized = \<lparr>tb_columns = standard_columns, tb_rows = tb_rows raw_table\<rparr>"

definition raw_normalized :: table where
  "raw_normalized =
     \<lparr>tb_columns = standard_columns,
      tb_rows =
        [[Date 1600000000, Str ''Delhi'', Str ''Central'', Num 100, Num 10],
         [Date 1600000000, Str ''Delhi'', Str ''Central'', Num 70, Num 7],
         [Date 1600000000, Str ''Goa'', Str ''South'', Num (- 5), Num 0]]\<rparr>"

definition raw_validated :: table where
  "raw_validated = \<lparr>tb_columns = standard_columns, tb_rows = take 2 (tb_rows raw_normalized)\<rparr>"

definition raw_cleaned :: table where
  "raw_cleaned = \<lparr>tb_columns = standard_columns, tb_rows = take 1 (tb_rows raw_normalized)\<rparr>"

text \<open>The record of \<open>sample_table\<close> as the cleaner returns it.\<close>

definition sample_cleaned :: table where
  "sample_cleaned =
     \<lparr>tb_columns = standard_columns,
      tb_rows = [[Date 1600000000, Str ''Maharashtra'', Str ''MaharashtraDistrict'',
                  Num 100, Num 10]]\<rparr>"

section \<open>Schema normalizer\<close>

text \<open>
  \<open>UniversalDataProcessor.auto_detect_schema\<close> (universal_processor.py), on the tables of
  the data cleaner. Two things come from outside: the order in which Python lists the
  elements of a set, \<open>list(set(xs))\<close>, and whether \<open>pd.to_datetime(sample, errors='raise')\<close>
  returns or raises.
\<close>

record schema_env =
  list_set :: "string list \<Rightarrow> string list"
  parses :: "cell list \<Rightarrow> bool"

text \<open>
  \<open>column_patterns\<close>, in the order of the dict. Every pattern is a literal (letters,
  digits, underscores, and the escaped plus sign of \<open>age_60\+\<close>), so a pattern is kept as
  the string it matches.
\<close>

definition column_patterns :: "(string \<times> string list) list" where
  "column_patterns =
     [(''date'',
         [''date'', ''Date'', ''DATE'', ''timestamp'', ''Timestamp'',
          ''enrolment_date'', ''enrollment_date'', ''time'', ''Time'']),
      (''state'',
         [''state'', ''State'', ''STATE'', ''state_name'', ''State_Name'',
          ''STATE_NAME'', ''region'', ''Region'', ''location'']),
      (''district'',
         [''district'', ''District'', ''DISTRICT'', ''district_name'',
          ''district_name'', ''area'', ''Area'', ''zone'', ''Zone'']),
      (''pincode'',
         [''pincode'', ''Pincode'', ''PINCODE'', ''pin'', ''Pin'', ''PIN'',
          ''postal_code'', ''postal'', ''zip'', ''Zip'']),
      (''enrolment_count'',
         [''enrolment'', ''Enrolment'', ''enrollment'', ''Enrollment'',
          ''enrolments'', ''enrollments'', ''count'', ''Count'', ''total'',
          ''volume'', ''Volume'', ''number'', ''Number'']),
      (''update_count'',
         [''update'', ''Update'', ''updates'', ''Updates'', ''modification'',
          ''Modification'', ''change'', ''Change'', ''correction'']),
      (''age_0_18'',
         [''age_0_18'', ''age0_18'', ''age_0_to_18'', ''0_18'', ''under_18'',
          ''minor'', ''Minor'', ''children'', ''Children'']),
      (''age_19_40'',
         [''age_19_40'', ''age19_40'', ''age_19_to_40'', ''19_40'',
          ''adult'', ''Adult'', ''young_adult'', ''young'']),
      (''age_41_60'',
         [''age_41_60'', ''age41_60'', ''age_41_to_60'', ''41_60'',
          ''middle_age'', ''middle'', ''mid_age'']),
      (''age_60_plus'',
         [''age_60_plus'', ''age60_plus'', ''age_60+'', ''60_plus'',
          ''senior'', ''Senior'', ''elderly'', ''Elderly'', ''old''])]"

text \<open>
  \<open>re.search(pattern, col, re.IGNORECASE)\<close> and \<open>re.match(f'^{pattern}$', col,
  re.IGNORECASE)\<close> for a literal pattern; \<open>$\<close> also matches before a final newline.
\<close>

definition str_lower :: "string \<Rightarrow> string" where
  "str_lower s = map to_lower s"

definition re_search :: "string \<Rightarrow> string \<Rightarrow> bool" where
  "re_search pattern col = str_contains (str_lower pattern) (str_lower col)"

definition re_match :: "string \<Rightarrow> string \<Rightarrow> bool" where
  "re_match pattern col =
     (str_lower col = str_lower pattern \<or> str_lower col = str_lower pattern @ [CHR 0x0A])"

text \<open>An entry of \<open>detected_patterns\<close>: found by name, or by the values of the column.\<close>

datatype detected =
  ByName (original: string) (confidence: string) (matches: "string list")
| ByValue (original: string) (confidence: string) (kind: string)

record detection =
  column_mapping :: "(string \<times> string) list"
  detected_patterns :: "(string \<times> detected) list"

text \<open>The loop over the patterns of one standard name; it stops at the first that matches.\<close>

fun pattern_loop ::
  "schema_env \<Rightarrow> string list \<Rightarrow> string \<Rightarrow> string list \<Rightarrow> detection \<Rightarrow> detection" where
  "pattern_loop env cols standard_name [] st = st"
| "pattern_loop env cols standard_name (pattern # patterns) st =
     (let exact_matches = filter (re_match pattern) cols;
          partial_matches = filter (re_search pattern) cols;
          all_matches = list_set env (exact_matches @ partial_matches)
      in if all_matches \<noteq> [] then
           (let original_column = hd all_matches in
            st\<lparr>column_mapping :=
                 AList.update original_column standard_name (column_mapping st),
               detected_patterns :=
                 AList.update standard_name
                   (ByName original_column (if exact_matches \<noteq> [] then ''HIGH'' else ''MEDIUM'')
                      all_matches)
                   (detected_patterns st)\<rparr>)
         else pattern_loop env cols standard_name patterns st)"

fun name_loop ::
  "schema_env \<Rightarrow> string list \<Rightarrow> (string \<times> string list) list \<Rightarrow> detection \<Rightarrow> detection" where
  "name_loop env cols [] st = st"
| "name_loop env cols ((standard_name, patterns) # rest) st =
     name_loop env cols rest (pattern_loop env cols standard_name patterns st)"

text \<open>\<open>df[col].dropna().head(10)\<close>\<close>

definition sample :: "table \<Rightarrow> string \<Rightarrow> cell list" where
  "sample df col = take 10 (filter (\<lambda>v. \<not> isna v) (column df col))"

text \<open>The loop that looks for a date column by its values.\<close>

fun date_loop :: "schema_env \<Rightarrow> table \<Rightarrow> string list \<Rightarrow> detection \<Rightarrow> detection" where
  "date_loop env df [] st = st"
| "date_loop env df (col # cols) st =
     date_loop env df cols
       (if map_of (column_mapping st) col = None then
          (if length (sample df col) > 0 then
             (if parses env (sample df col) then
                (if ''date'' \<notin> set (map snd (column_mapping st)) then
                   st\<lparr>column_mapping := AList.update col ''date'' (column_mapping st),
                      detected_patterns :=
                        AList.update ''date'' (ByValue col ''HIGH'' ''auto_detected_date'')
                          (detected_patterns st)\<rparr>
                 else st)
              else st)
           else st)
        else st)"

text \<open>The loop that looks for a count among the numeric columns.\<close>

fun numeric_loop :: "string list \<Rightarrow> detection \<Rightarrow> detection" where
  "numeric_loop [] st = st"
| "numeric_loop (col # cols) st =
     numeric_loop cols
       (if map_of (column_mapping st) col = None then
          (let col_lower = str_lower col in
           if list_ex (\<lambda>keyword. str_contains keyword col_lower)
                [''total'', ''count'', ''sum'', ''number''] then
             (if ''enrolment_count'' \<notin> set (map snd (column_mapping st)) then
                st\<lparr>column_mapping := AList.update col ''enrolment_count'' (column_mapping st),
                   detected_patterns :=
                     AList.update ''enrolment_count''
                       (ByValue col ''MEDIUM'' ''auto_detected_numeric'')
                       (detected_patterns st)\<rparr>
              else st)
           else st)
        else st)"

record schema =
  mapping :: "(string \<times> string) list"
  detected :: "(string \<times> detected) list"
  original_columns :: "string list"
  detected_columns :: "string list"

definition name_stage :: "schema_env \<Rightarrow> table \<Rightarrow> detection" where
  "name_stage env df =
     name_loop env (col_names df) column_patterns \<lparr>column_mapping = [], detected_patterns = []\<rparr>"

definition auto_detect_schema :: "schema_env \<Rightarrow> table \<Rightarrow> schema" where
  "auto_detect_schema env df =
     (let st = name_stage env df;
          st = date_loop env df (col_names df) st;
          numeric_cols = map fst (filter (\<lambda>(c, dt). dt = Numeric) (tb_columns df));
          st = numeric_loop numeric_cols st
      in \<lparr>mapping = column_mapping st,
          detected = detected_patterns st,
          original_columns = col_names df,
          detected_columns = map snd (column_mapping st)\<rparr>)"

subsection \<open>Conditions on the columns\<close>

definition patterns_of :: "string \<Rightarrow> string list" where
  "patterns_of standard_name =
     (case map_of column_patterns standard_name of Some ps \<Rightarrow> ps | None \<Rightarrow> [])"

text \<open>No column name matches a date pattern.\<close>

definition no_date_name :: "table \<Rightarrow> bool" where
  "no_date_name df =
     list_all (\<lambda>c. list_all (\<lambda>p. \<not> re_search p c) (patterns_of ''date'')) (col_names df)"

text \<open>A column holds ISO date strings: \<open>YYYY-MM-DD\<close>, and at least one.\<close>

definition iso_date :: "string \<Rightarrow> bool" where
  "iso_date s =
     (length s = 10 \<and> list_all is_digit (take 4 s) \<and> s ! 4 = CHR ''-'' \<and>
      list_all is_digit (take 2 (drop 5 s)) \<and> s ! 7 = CHR ''-'' \<and>
      list_all is_digit (drop 8 s))"

definition iso_dates :: "table \<Rightarrow> string \<Rightarrow> bool" where
  "iso_dates df c =
     (has_col df c \<and> tb_rows df \<noteq> [] \<and> list_all (str_holds iso_date) (column df c))"

text \<open>\<open>Total_Enrolments\<close> is a column, and the only one whose name contains \<open>enrolment\<close>.\<close>

definition only_enrolment_column :: "table \<Rightarrow> bool" where
  "only_enrolment_column df =
     (has_col df ''Total_Enrolments'' \<and>
      list_all (\<lambda>c. re_search ''enrolment'' c \<longrightarrow> c = ''Total_Enrolments'') (col_names df))"

text \<open>The name of a column matches no pattern at all.\<close>

definition unnamed :: "string \<Rightarrow> bool" where
  "unnamed c = list_all (\<lambda>(standard_name, ps). list_all (\<lambda>p. \<not> re_search p c) ps) column_patterns"

text \<open>
  Column \<open>c\<close> is the first column left without a standard name whose sample parses, as
  the loop over the values tests it: the names have given \<open>date\<close> to no column and no
  standard name to \<open>c\<close>, the sample of \<open>c\<close> is not empty and parses, and every column
  before it has got a standard name by its name, or has an empty sample, or one that does
  not parse.
\<close>

definition first_parsing_column :: "schema_env \<Rightarrow> table \<Rightarrow> string \<Rightarrow> bool" where
  "first_parsing_column env df c =
     (has_col df c \<and>
      ''date'' \<notin> set (map snd (column_mapping (name_stage env df))) \<and>
      map_of (column_mapping (name_stage env df)) c = None \<and>
      sample df c \<noteq> [] \<and> parses env (sample df c) \<and>
      list_all (\<lambda>c'. map_of (column_mapping (name_stage env df)) c' \<noteq> None \<or>
                     sample df c' = [] \<or> \<not> parses env (sample df c'))
        (takeWhile (\<lambda>c'. c' \<noteq> c) (col_names df)))"

subsection \<open>Example tables\<close>

text \<open>
  An environment for the examples: a set is listed in the order of first occurrence, and
  a sample parses when it holds ISO date strings or timestamps only.
\<close>

definition example_schema_env :: schema_env where
  "example_schema_env =
     \<lparr>list_set = remdups,
      parses = list_all (\<lambda>v. case v of Str s \<Rightarrow> iso_date s | Date d \<Rightarrow> True | _ \<Rightarrow> False)\<rparr>"

definition created_table :: table where
  "created_table =
     \<lparr>tb_columns = [(''State_Name'', Object), (''Total_Enrolments'', Numeric),
                    (''created_on'', Object)],
      tb_rows = [[Str ''Delhi'', Num 100, Str ''2023-01-15''],
                 [Str ''Goa'', Num 50, Str ''2023-02-15'']]\<rparr>"

definition change_table :: table where
  "change_table =
     \<lparr>tb_columns = [(''State_Name'', Object), (''Total_Enrolments'', Numeric),
                    (''last_change'', Object)],
      tb_rows = [[Str ''Delhi'', Num 100, Str ''2023-01-15''],
                 [Str ''Goa'', Num 50, Str ''2023-02-15'']]\<rparr>"

text \<open>
  Two names match the pattern \<open>region\<close>; the first is taken, and the second, a column of
  ISO date strings, is left without a standard name.
\<close>

definition region_table :: table where
  "region_table =
     \<lparr>tb_columns = [(''region'', Object), (''region_dt'', Object)],
      tb_rows = [[Str ''Delhi'', Str ''2023-01-15''],
                 [Str ''Goa'', Str ''2023-02-15'']]\<rparr>"

section \<open>Anomaly detector: confidence levels in double precision\<close>

text \<open>
  The scores are IEEE 754 doubles, and \<open>_calculate_confidence\<close> compares a computed
  standard deviation with 0. A double is kept as the real it stands for; an operation
  returns the double nearest to the exact result, a tie going to the even significand.
  The exponent is not bounded: overflow and subnormal numbers are left out.
\<close>

definition round_even :: "real \<Rightarrow> int" where
  "round_even y =
     (let f = \<lfloor>y\<rfloor>; r = y - of_int f in
      if r < 1 / 2 then f
      else if 1 / 2 < r then f + 1
      else if even f then f else f + 1)"

text \<open>The gap between the doubles around \<open>x\<close>: a significand has 53 bits.\<close>

definition ulp :: "real \<Rightarrow> real" where
  "ulp x = 2 powr (of_int \<lfloor>log 2 \<bar>x\<bar>\<rfloor> - 52)"

definition round_double :: "real \<Rightarrow> real" where
  "round_double x = (if x = 0 then 0 else of_int (round_even (x / ulp x)) * ulp x)"

text \<open>
  \<open>np.add.reduce\<close> on a short array adds the elements one after the other (longer arrays
  are added in blocks, which is not described here).
\<close>

definition np_sum_double :: "real list \<Rightarrow> real" where
  "np_sum_double xs = foldl (\<lambda>acc x. round_double (acc + x)) 0 xs"

text \<open>
  \<open>np.std\<close> as numpy computes it: the mean, the deviations from it, their squares, the
  mean of the squares, the square root, each operation rounded.
\<close>

definition np_std_double :: "real list \<Rightarrow> real" where
  "np_std_double arr =
     (let n = real (length arr);
          arrmean = round_double (np_sum_double arr / n);
          x = map (\<lambda>a. round_double (a - arrmean)) arr;
          x = map (\<lambda>d. round_double (d * d)) x;
          ret = round_double (np_sum_double x / n)
      in round_double (sqrt ret))"

text \<open>Division of doubles, and \<open>score > threshold\<close>, which is false for NaN.\<close>

definition fdiv_double :: "real \<Rightarrow> real \<Rightarrow> fval" where
  "fdiv_double a b =
     (if b \<noteq> 0 then Fin (round_double (a / b))
      else if a > 0 then PInf
      else if a < 0 then NInf
      else NaN)"

definition fgt :: "fval \<Rightarrow> real \<Rightarrow> bool" where
  "fgt v t = (case v of Fin x \<Rightarrow> x > round_double t | PInf \<Rightarrow> True | _ \<Rightarrow> False)"

definition confidence_level_double :: "fval \<Rightarrow> bucket" where
  "confidence_level_double score =
     (if fgt score 0.8 then VERY_HIGH
      else if fgt score 0.6 then HIGH
      else if fgt score 0.4 then MEDIUM
      else LOW)"

fun calculate_confidence_double :: "real list \<Rightarrow> confidence list" where
  "calculate_confidence_double [] = []"
| "calculate_confidence_double (s # ss) =
     (let scores = s # ss in
      if np_std_double scores = 0 then map (\<lambda>_. Number 0) scores
      else
        let lo = fold min ss s;
            hi = fold max ss s;
            normalized_scores =
              map (\<lambda>x. fdiv_double (round_double (x - lo)) (round_double (hi - lo))) scores
        in map (\<lambda>score. Label (confidence_level_double score)) normalized_scores)"

text \<open>The double of the Python literal \<open>0.1\<close>.\<close>

definition tenth :: real where
  "tenth = round_double (1 / 10)"

chapter \<open>Properties\<close>

section \<open>Confidence levels\<close>

lemma fold_min_Min: "fold min xs (x::real) = Min (set (x # xs))"
  by (rule Min.set_eq_fold [symmetric])

lemma fold_max_Max: "fold max xs (x::real) = Max (set (x # xs))"
  by (rule Max.set_eq_fold [symmetric])

lemma sum_list_const:
  "(\<forall>x\<in>set xs. x = (c::real)) \<Longrightarrow> sum_list xs = real (length xs) * c"
  by (induction xs) (auto simp: algebra_simps)

lemma np_mean_const: "xs \<noteq> [] \<Longrightarrow> (\<forall>x\<in>set xs. x = c) \<Longrightarrow> np_mean xs = c"
  by (simp add: np_mean_def sum_list_const)

lemma np_std_zero_iff:
  assumes "xs \<noteq> []"
  shows "np_std xs = 0 \<longleftrightarrow> (\<forall>x\<in>set xs. \<forall>y\<in>set xs. x = y)"
proof
  assume z: "np_std xs = 0"
  let ?m = "np_mean xs"
  let ?sq = "map (\<lambda>x. \<bar>x - ?m\<bar> ^ 2) xs"
  from z have "np_mean ?sq = 0" by (simp add: np_std_def)
  with assms have s0: "sum_list ?sq = 0" by (simp add: np_mean_def)
  have "\<forall>v\<in>set ?sq. 0 \<le> v" by auto
  with s0 have "\<forall>v\<in>set ?sq. v = 0"
    using sum_list_nonneg_eq_0_iff[of ?sq] by blast
  then have "\<forall>x\<in>set xs. x = ?m" by auto
  then show "\<forall>x\<in>set xs. \<forall>y\<in>set xs. x = y" by metis
next
  assume eq: "\<forall>x\<in>set xs. \<forall>y\<in>set xs. x = y"
  from assms have "hd xs \<in> set xs" by simp
  with eq have all: "\<forall>x\<in>set xs. x = hd xs" by blast
  then have m: "np_mean xs = hd xs" using assms np_mean_const by blast
  have "\<forall>v\<in>set (map (\<lambda>x. \<bar>x - np_mean xs\<bar> ^ 2) xs). v = 0"
    using all m by auto
  then have "np_mean (map (\<lambda>x. \<bar>x - np_mean xs\<bar> ^ 2) xs) = 0"
    using np_mean_const[of "map (\<lambda>x. \<bar>x - np_mean xs\<bar> ^ 2) xs" 0] assms by simp
  then show "np_std xs = 0" by (simp add: np_std_def)
qed

lemma confidence_level_mono:
  "a \<le> b \<Longrightarrow> bucket_rank (confidence_level a) \<le> bucket_rank (confidence_level b)"
  by (auto simp: confidence_level_def)

lemma calculate_confidence_labels:
  assumes "np_std scores \<noteq> 0"
  shows "calculate_confidence scores =
     map (\<lambda>x. Label (confidence_level
            ((x - Min (set scores)) / (Max (set scores) - Min (set scores))))) scores"
proof (cases scores)
  case Nil
  then show ?thesis by simp
next
  case (Cons s ss)
  show ?thesis
    using assms unfolding Cons
    by (simp only: calculate_confidence.simps Let_def fold_min_Min fold_max_Max
        if_False map_map o_def)
qed

text \<open>
  C6. Within one batch, a row with a higher anomaly score never gets a lower confidence
  bucket than a row with a lower score, in the order LOW \<open>\<le>\<close> MEDIUM \<open>\<le>\<close> HIGH \<open>\<le>\<close>
  VERY_HIGH; the bucket of each of the two rows is the threshold level (\<open>> 0.8\<close>,
  \<open>> 0.6\<close>, \<open>> 0.4\<close>, else LOW) of its score min-max normalised over the batch.
\<close>

theorem confidence_bucket_monotone:
  assumes "i < length scores" and "j < length scores" and "scores ! j < scores ! i"
  shows "\<exists>bi bj.
     calculate_confidence scores ! i = Label bi \<and>
     calculate_confidence scores ! j = Label bj \<and>
     bi = confidence_level
            ((scores ! i - Min (set scores)) / (Max (set scores) - Min (set scores))) \<and>
     bj = confidence_level
            ((scores ! j - Min (set scores)) / (Max (set scores) - Min (set scores))) \<and>
     bucket_rank bj \<le> bucket_rank bi"
proof -
  from assms have ne: "scores \<noteq> []" by auto
  have "scores ! i \<in> set scores" "scores ! j \<in> set scores" using assms by auto
  with assms(3) have "\<not> (\<forall>x\<in>set scores. \<forall>y\<in>set scores. x = y)"
    by (metis less_irrefl)
  with ne have nz: "np_std scores \<noteq> 0" by (simp add: np_std_zero_iff)
  let ?lo = "Min (set scores)" and ?hi = "Max (set scores)"
  have "?lo \<le> scores ! j" "scores ! i \<le> ?hi" using assms by auto
  with assms(3) have pos: "0 < ?hi - ?lo" by linarith
  have "(scores ! j - ?lo) / (?hi - ?lo) \<le> (scores ! i - ?lo) / (?hi - ?lo)"
    using pos assms(3) by (simp add: divide_le_cancel)
  then have "bucket_rank (confidence_level ((scores ! j - ?lo) / (?hi - ?lo)))
      \<le> bucket_rank (confidence_level ((scores ! i - ?lo) / (?hi - ?lo)))"
    by (rule confidence_level_mono)
  then show ?thesis
    using calculate_confidence_labels[OF nz] assms(1,2) by simp
qed

theorem confidence_bucket_monotone_witness:
  "calculate_confidence [1, 5, 2, 4] ! 3 = Label HIGH \<and>
   calculate_confidence [1, 5, 2, 4] ! 2 = Label LOW \<and>
   bucket_rank LOW \<le> bucket_rank HIGH"
proof -
  have "(3::nat) < length [1, 5, 2, 4::real]" "(2::nat) < length [1, 5, 2, 4::real]"
    "[1, 5, 2, 4::real] ! 2 < [1, 5, 2, 4] ! 3"
    by simp_all
  from confidence_bucket_monotone[OF this] show ?thesis
    by (simp add: confidence_level_def)
qed

section \<open>Risk scorer\<close>

lemma dropna_simps [simp]:
  "dropna [] = []" "dropna (None # xs) = dropna xs" "dropna (Some x # xs) = x # dropna xs"
  by (simp_all add: dropna_def List.map_filter_simps)

lemma np_clip_range: "lo \<le> hi \<Longrightarrow> lo \<le> np_clip v lo hi \<and> np_clip v lo hi \<le> hi"
  by (auto simp: np_clip_def)

lemma normalization_range_shape:
  "(case map_of normalization_ranges t of Some r \<Rightarrow> r | None \<Rightarrow> (0, 1)) = (lo, hi)
   \<Longrightarrow> lo = 0 \<and> 0 < hi"
  by (auto simp: normalization_ranges_def split: if_splits)

lemma normalize_score_range: "0 \<le> normalize_score v t \<and> normalize_score v t \<le> 1"
proof (cases v)
  case None
  then show ?thesis by (simp add: normalize_score_def)
next
  case (Some x)
  obtain lo hi where
    r: "(case map_of normalization_ranges t of Some r \<Rightarrow> r | None \<Rightarrow> (0, 1)) = (lo, hi)"
    by (cases "(case map_of normalization_ranges t of Some r \<Rightarrow> r | None \<Rightarrow> (0, 1))") auto
  from normalization_range_shape[OF r] have lo: "lo = 0" and hi: "0 < hi" by auto
  have "0 \<le> np_clip x 0 hi \<and> np_clip x 0 hi \<le> hi"
    using hi np_clip_range[of 0 hi x] by simp
  then show ?thesis using Some r lo hi by (simp add: normalize_score_def Let_def)
qed

lemma normalize_score_unit [simp]:
  "0 \<le> normalize_score v t" "normalize_score v t \<le> 1"
  using normalize_score_range by auto

lemma unit_components_append [simp]:
  "unit_components (xs @ ys) \<longleftrightarrow> unit_components xs \<and> unit_components ys"
  by (auto simp: unit_components_def)

lemma unit_components_single [simp]:
  "unit_components [(c, v)] \<longleftrightarrow> 0 \<le> v \<and> v \<le> 1"
  by (simp add: unit_components_def)

lemma unit_components_Nil [simp]: "unit_components []"
  by (simp add: unit_components_def)

lemma component_units [simp]:
  "unit_components (volume_component cols sd)"
  "unit_components (anomaly_frequency_component cols sd)"
  "unit_components (anomaly_severity_component cols sd)"
  "unit_components (volatility_component cols sd)"
  "unit_components (consistency_component sd)"
  "unit_components (update_pattern_component cols sd)"
  by (simp_all add: volume_component_def anomaly_frequency_component_def
      anomaly_severity_component_def volatility_component_def consistency_component_def
      update_pattern_component_def Let_def split: option.splits)

lemma component_keys:
  "map fst (volume_component cols sd) =
     (if ''enrolment_count_sum'' \<in> set cols then [''volume_risk''] else [])"
  "map fst (anomaly_frequency_component cols sd) =
     (if ''is_anomaly'' \<in> set cols then [''anomaly_frequency_risk''] else [])"
  "map fst (anomaly_severity_component cols sd) =
     (if ''anomaly_score'' \<in> set cols then [''anomaly_severity_risk''] else [])"
  "map fst (volatility_component cols sd) =
     (if ''mom_growth'' \<in> set cols then [''volatility_risk''] else [])"
  "map fst (consistency_component sd) =
     (if (\<exists>t. total_months sd = Some t \<and> t > 0) then [''consistency_risk''] else [])"
  "map fst (update_pattern_component cols sd) =
     (if ''update_ratio'' \<in> set cols then [''update_pattern_risk''] else [])"
  by (simp_all add: volume_component_def anomaly_frequency_component_def
      anomaly_severity_component_def volatility_component_def consistency_component_def
      update_pattern_component_def Let_def split: option.splits)

lemma state_risk_entry_unit:
  "state_risk_entry cols s sd = Inr e \<Longrightarrow> unit_components (re_components e)"
  by (auto simp: state_risk_entry_def split: if_splits)

lemma state_risk_entry_state:
  "state_risk_entry cols s sd = Inr e \<Longrightarrow> re_state e = s"
  by (auto simp: state_risk_entry_def split: if_splits)

lemma state_risk_entry_components:
  assumes "state_risk_entry cols s sd = Inr e"
  shows "re_components e =
      volume_component cols sd @ anomaly_frequency_component cols sd @
      anomaly_severity_component cols sd @ volatility_component cols sd @
      consistency_component sd @ update_pattern_component cols sd"
  using assms by (auto simp: state_risk_entry_def split: if_splits)

lemma state_risk_entry_distinct:
  assumes "state_risk_entry cols s sd = Inr e"
  shows "distinct (map fst (re_components e))"
  unfolding state_risk_entry_components[OF assms] by (simp add: component_keys)

text \<open>The loop returns one entry per group, built from that group.\<close>

lemma risk_data_loop_entries:
  assumes "risk_data_loop cols groups = Inr risk_data" and "e \<in> set risk_data"
  shows "\<exists>(s, sd)\<in>set groups. sd \<noteq> [] \<and> state_risk_entry cols s sd = Inr e"
  using assms
proof (induction cols groups arbitrary: risk_data rule: risk_data_loop.induct)
  case (1 cols)
  then show ?case by simp
next
  case (2 cols state state_data groups)
  show ?case
  proof (cases "state_data = []")
    case True
    with 2 show ?thesis by auto
  next
    case False
    with "2.prems" obtain x rest where
      x: "state_risk_entry cols state state_data = Inr x"
      and rest: "risk_data_loop cols groups = Inr rest"
      and rd: "risk_data = x # rest"
      by (auto split: sum.splits)
    show ?thesis
    proof (cases "e = x")
      case True
      with x False show ?thesis by auto
    next
      case ne: False
      with rd "2.prems"(2) have "e \<in> set rest" by simp
      from "2.IH"(2)[OF False x rest this] show ?thesis by auto
    qed
  qed
qed

lemma risk_data_loop_covers:
  assumes "risk_data_loop cols groups = Inr risk_data"
    and "(s, sd) \<in> set groups" and "sd \<noteq> []"
  shows "\<exists>e\<in>set risk_data. state_risk_entry cols s sd = Inr e"
  using assms
proof (induction cols groups arbitrary: risk_data rule: risk_data_loop.induct)
  case (1 cols)
  then show ?case by simp
next
  case (2 cols state state_data groups)
  show ?case
  proof (cases "state_data = []")
    case True
    with 2 show ?thesis by auto
  next
    case False
    with "2.prems" obtain x rest where
      x: "state_risk_entry cols state state_data = Inr x"
      and rest: "risk_data_loop cols groups = Inr rest"
      and rd: "risk_data = x # rest"
      by (auto split: sum.splits)
    show ?thesis
    proof (cases "(s, sd) = (state, state_data)")
      case True
      with x rd show ?thesis by auto
    next
      case ne: False
      with "2.prems"(2) have "(s, sd) \<in> set groups" by auto
      from "2.IH"(2)[OF False x rest this "2.prems"(3)] rd show ?thesis by auto
    qed
  qed
qed

lemma groupby_state_member:
  "(s, sd) \<in> set (groupby_state rs) \<longleftrightarrow>
     s \<in> ar_state ` set rs \<and> sd = filter (\<lambda>r. ar_state r = s) rs"
  by (auto simp: groupby_state_def)

lemma groupby_state_nonempty:
  "(s, sd) \<in> set (groupby_state rs) \<Longrightarrow> sd \<noteq> []"
  by (auto simp: groupby_state_member filter_empty_conv)

text \<open>The accumulators of the loop over the weights.\<close>

lemma weights_loop_sum:
  "weights_loop cols row ws (a, b) =
     (a + (\<Sum>(c, w)\<leftarrow>filter (\<lambda>(c, w). c \<in> set cols) ws.
             (case map_of row c of Some v \<Rightarrow> v | None \<Rightarrow> 0) * w),
      b + (\<Sum>(c, w)\<leftarrow>filter (\<lambda>(c, w). c \<in> set cols) ws. w))"
  by (induction ws arbitrary: a b) (auto simp: algebra_simps)

lemma sum_list_filter_keys:
  assumes "distinct (map fst ws)"
  shows "(\<Sum>(c, w)\<leftarrow>filter (\<lambda>(c, w). c \<in> C) ws. g c w) =
         (\<Sum>c\<in>fst ` set ws \<inter> C. g c (the (map_of ws c)))"
  using assms
proof (induction ws)
  case Nil
  then show ?case by simp
next
  case (Cons kw ws)
  obtain k w where kw: "kw = (k, w)" by (cases kw)
  from Cons.prems kw have k: "k \<notin> fst ` set ws" and d: "distinct (map fst ws)" by auto
  have same: "(\<Sum>c\<in>fst ` set ws \<inter> C. g c (the (map_of ((k, w) # ws) c))) =
              (\<Sum>c\<in>fst ` set ws \<inter> C. g c (the (map_of ws c)))"
    using k by (intro sum.cong) auto
  show ?case
  proof (cases "k \<in> C")
    case True
    then have "fst ` set ((k, w) # ws) \<inter> C = insert k (fst ` set ws \<inter> C)" by auto
    moreover have "k \<notin> fst ` set ws \<inter> C" using k by simp
    ultimately show ?thesis
      using True Cons.IH[OF d] same unfolding kw by (simp add: sum.insert)
  next
    case False
    then have "fst ` set ((k, w) # ws) \<inter> C = fst ` set ws \<inter> C" by auto
    then show ?thesis using False Cons.IH[OF d] same unfolding kw by simp
  qed
qed


lemma sum_keys_inter:
  assumes "finite C"
  shows "(\<Sum>c\<in>fst ` set ws \<inter> C. g c (the (map_of ws c))) =
         (\<Sum>c\<in>C. case map_of ws c of Some w \<Rightarrow> g c w | None \<Rightarrow> 0)"
proof (rule sum.mono_neutral_cong_left)
  show "finite C" by fact
  show "fst ` set ws \<inter> C \<subseteq> C" by blast
  show "\<forall>c\<in>C - fst ` set ws \<inter> C. (case map_of ws c of Some w \<Rightarrow> g c w | None \<Rightarrow> 0) = 0"
  proof
    fix c assume "c \<in> C - fst ` set ws \<inter> C"
    then have "c \<notin> fst ` set ws" by blast
    then have "map_of ws c = None" by (simp add: map_of_eq_None_iff)
    then show "(case map_of ws c of Some w \<Rightarrow> g c w | None \<Rightarrow> 0) = 0" by simp
  qed
  show "\<And>c. c \<in> fst ` set ws \<inter> C \<Longrightarrow>
      g c (the (map_of ws c)) = (case map_of ws c of Some w \<Rightarrow> g c w | None \<Rightarrow> 0)"
  proof -
    fix c assume "c \<in> fst ` set ws \<inter> C"
    then have "map_of ws c \<noteq> None" by (simp add: map_of_eq_None_iff)
    then show "g c (the (map_of ws c)) = (case map_of ws c of Some w \<Rightarrow> g c w | None \<Rightarrow> 0)"
      by (auto split: option.splits)
  qed
qed

lemma map_of_tabulate:
  "map_of (map (\<lambda>c. (c, f c)) cols) c = (if c \<in> set cols then Some (f c) else None)"
  by (induction cols) auto

lemma dict_merge_distinct:
  "distinct (map fst d1) \<Longrightarrow> distinct (map fst (dict_merge d1 d2))"
  unfolding dict_merge_def
  by (induction d2 arbitrary: d1) (auto simp: distinct_update)

lemma default_weights_distinct: "distinct (map fst default_weights)"
  by (simp add: default_weights_def)

lemma update_nonneg:
  "(\<forall>(c, w)\<in>set d. (0::real) \<le> w) \<Longrightarrow> 0 \<le> v \<Longrightarrow> (\<forall>(c, w)\<in>set (AList.update k v d). 0 \<le> w)"
  by (induction d) auto

lemma dict_merge_nonneg:
  "(\<forall>(c, w)\<in>set d1. (0::real) \<le> w) \<Longrightarrow> (\<forall>(c, w)\<in>set d2. 0 \<le> w)
   \<Longrightarrow> (\<forall>(c, w)\<in>set (dict_merge d1 d2). 0 \<le> w)"
  unfolding dict_merge_def
proof (induction d2 arbitrary: d1)
  case Nil
  then show ?case by simp
next
  case (Cons kv d2)
  obtain k v where kv: "kv = (k, v)" by (cases kv)
  from Cons.prems kv have "0 \<le> v" by auto
  with Cons.prems(1) have "\<forall>(c, w)\<in>set (AList.update k v d1). 0 \<le> w"
    by (rule update_nonneg)
  moreover from Cons.prems(2) have "\<forall>(c, w)\<in>set d2. 0 \<le> w" by auto
  ultimately show ?case using Cons.IH unfolding kv by simp
qed

lemma default_weights_nonneg: "\<forall>(c, w)\<in>set default_weights. 0 \<le> w"
  by (simp add: default_weights_def)

text \<open>
  On a row of the filled frame, the loop computes the weighted sum over the frame's
  columns and the sum of their weights.
\<close>

lemma row_score_weighted:
  assumes d: "distinct cols"
    and st: "''state'' \<notin> fst ` set (dict_merge default_weights cfg)"
  shows "row_score (''state'' # cols) (dict_merge default_weights cfg) (fillna0 cols comps)
       = weighted_score cfg (fillna0 cols comps)"
proof -
  let ?ws = "dict_merge default_weights cfg"
  let ?val = "\<lambda>c. case map_of comps c of Some v \<Rightarrow> v | None \<Rightarrow> (0::real)"
  let ?row = "fillna0 cols comps"
  have dw: "distinct (map fst ?ws)"
    using default_weights_distinct by (rule dict_merge_distinct)
  have inter: "fst ` set ?ws \<inter> set (''state'' # cols) = fst ` set ?ws \<inter> set cols"
    using st by auto
  have look: "\<And>c. c \<in> set cols \<Longrightarrow> (case map_of ?row c of Some v \<Rightarrow> v | None \<Rightarrow> 0) = ?val c"
    by (simp add: fillna0_def map_of_tabulate)
  have wt: "\<And>c. (case map_of ?ws c of Some w \<Rightarrow> w | None \<Rightarrow> 0) = weight_of cfg c"
    by (simp add: weight_of_def)
  have S: "(\<Sum>(c, w)\<leftarrow>filter (\<lambda>(c, w). c \<in> set (''state'' # cols)) ?ws.
              (case map_of ?row c of Some v \<Rightarrow> v | None \<Rightarrow> 0) * w)
         = (\<Sum>(c, v)\<leftarrow>?row. v * weight_of cfg c)"
  proof -
    have "(\<Sum>(c, w)\<leftarrow>filter (\<lambda>(c, w). c \<in> set (''state'' # cols)) ?ws.
              (case map_of ?row c of Some v \<Rightarrow> v | None \<Rightarrow> 0) * w)
        = (\<Sum>c\<in>fst ` set ?ws \<inter> set cols.
              (case map_of ?row c of Some v \<Rightarrow> v | None \<Rightarrow> 0) * the (map_of ?ws c))"
      using sum_list_filter_keys[OF dw, where C = "set (''state'' # cols)"
          and g = "\<lambda>c w. (case map_of ?row c of Some v \<Rightarrow> v | None \<Rightarrow> 0) * w"]
      unfolding inter by simp
    also have "\<dots> = (\<Sum>c\<in>set cols. case map_of ?ws c of
                Some w \<Rightarrow> (case map_of ?row c of Some v \<Rightarrow> v | None \<Rightarrow> 0) * w | None \<Rightarrow> 0)"
      by (rule sum_keys_inter) simp
    also have "\<dots> = (\<Sum>c\<in>set cols. ?val c * weight_of cfg c)"
      by (rule sum.cong) (auto simp: look weight_of_def split: option.splits)
    also have "\<dots> = (\<Sum>c\<leftarrow>cols. ?val c * weight_of cfg c)"
      using d by (simp add: sum_list_distinct_conv_sum_set)
    also have "\<dots> = (\<Sum>(c, v)\<leftarrow>?row. v * weight_of cfg c)"
      by (simp add: fillna0_def o_def)
    finally show ?thesis .
  qed
  have T: "(\<Sum>(c, w)\<leftarrow>filter (\<lambda>(c, w). c \<in> set (''state'' # cols)) ?ws. w)
         = (\<Sum>(c, v)\<leftarrow>?row. weight_of cfg c)"
  proof -
    have "(\<Sum>(c, w)\<leftarrow>filter (\<lambda>(c, w). c \<in> set (''state'' # cols)) ?ws. w)
        = (\<Sum>c\<in>fst ` set ?ws \<inter> set cols. the (map_of ?ws c))"
      using sum_list_filter_keys[OF dw, where C = "set (''state'' # cols)" and g = "\<lambda>c w. w"]
      unfolding inter by simp
    also have "\<dots> = (\<Sum>c\<in>set cols. case map_of ?ws c of Some w \<Rightarrow> w | None \<Rightarrow> 0)"
      by (rule sum_keys_inter) simp
    also have "\<dots> = (\<Sum>c\<in>set cols. weight_of cfg c)"
      by (simp add: weight_of_def)
    also have "\<dots> = (\<Sum>c\<leftarrow>cols. weight_of cfg c)"
      using d by (simp add: sum_list_distinct_conv_sum_set)
    also have "\<dots> = (\<Sum>(c, v)\<leftarrow>?row. weight_of cfg c)"
      by (simp add: fillna0_def o_def)
    finally show ?thesis .
  qed
  show ?thesis
    unfolding row_score_def weighted_score_def weights_loop_sum S T by (simp add: Let_def)
qed

text \<open>A region that has every column of the frame: filling changes the order only.\<close>

lemma weighted_score_fillna0:
  assumes dc: "distinct (map fst comps)" and d: "distinct cols"
    and eq: "set (map fst comps) = set cols"
  shows "weighted_score cfg (fillna0 cols comps) = weighted_score cfg comps"
proof -
  let ?val = "\<lambda>c. case map_of comps c of Some v \<Rightarrow> v | None \<Rightarrow> (0::real)"
  have gen: "(\<Sum>(c, v)\<leftarrow>fillna0 cols comps. g c v) = (\<Sum>(c, v)\<leftarrow>comps. g c v)"
    for g :: "string \<Rightarrow> real \<Rightarrow> real"
  proof -
    have "(\<Sum>(c, v)\<leftarrow>comps. g c v) = (\<Sum>(c, v)\<leftarrow>filter (\<lambda>(c, v). c \<in> UNIV) comps. g c v)"
      by simp
    also have "\<dots> = (\<Sum>c\<in>fst ` set comps \<inter> UNIV. g c (the (map_of comps c)))"
      using dc by (rule sum_list_filter_keys)
    also have "\<dots> = (\<Sum>c\<in>set cols. g c (the (map_of comps c)))"
      using eq by simp
    also have "\<dots> = (\<Sum>c\<in>set cols. g c (?val c))"
    proof (rule sum.cong)
      fix c assume "c \<in> set cols"
      with eq have "c \<in> fst ` set comps" by auto
      then have "map_of comps c \<noteq> None" by (simp add: map_of_eq_None_iff)
      then show "g c (the (map_of comps c)) = g c (?val c)" by (auto split: option.splits)
    qed simp
    also have "\<dots> = (\<Sum>c\<leftarrow>cols. g c (?val c))"
      using d by (simp add: sum_list_distinct_conv_sum_set)
    also have "\<dots> = (\<Sum>(c, v)\<leftarrow>fillna0 cols comps. g c v)"
      by (simp add: fillna0_def o_def)
    finally show ?thesis by simp
  qed
  show ?thesis
    unfolding weighted_score_def
    using gen[of "\<lambda>c v. weight_of cfg c"] gen[of "\<lambda>c v. v * weight_of cfg c"] by simp
qed

lemma unique_set [simp]: "set (unique xs) = set xs"
  by (simp add: unique_def)

lemma unique_distinct [simp]: "distinct (unique xs)"
  by (simp add: unique_def)


lemma map_of_dict_merge:
  "map_of (dict_merge d1 d2) = map_of d1 ++ map_of (rev d2)"
  unfolding dict_merge_def
proof (induction d2 arbitrary: d1)
  case Nil
  then show ?case by simp
next
  case (Cons kv d2)
  obtain k v where kv: "kv = (k, v)" by (cases kv)
  have "map_of (fold (\<lambda>(k, v). AList.update k v) d2 (AList.update k v d1))
      = map_of (AList.update k v d1) ++ map_of (rev d2)"
    by (rule Cons.IH)
  also have "\<dots> = map_of d1 ++ map_of (rev ((k, v) # d2))"
    by (auto simp: update_conv' fun_eq_iff map_add_def split: option.splits)
  finally show ?case unfolding kv by simp
qed

lemma weight_of_override:
  "weight_of cfg c =
     (case map_of (rev cfg) c of
        Some w \<Rightarrow> w
      | None \<Rightarrow> (case map_of default_weights c of Some w \<Rightarrow> w | None \<Rightarrow> 0))"
  by (simp add: weight_of_def map_of_dict_merge map_add_def split: option.splits)

text \<open>Every output row comes from one entry of \<open>risk_data\<close>, filled and scored.\<close>

lemma calculate_risk_scores_guard:
  assumes "calculate_risk_scores cfg df = Inr out" and "p \<in> set out"
  shows "af_rows df \<noteq> [] \<and> af_columns df \<noteq> [] \<and> ''state'' \<in> set (af_columns df)"
  using assms by (auto simp: calculate_risk_scores_def split: if_splits)

lemma calculate_risk_scores_rows:
  assumes "calculate_risk_scores cfg df = Inr out"
    and g: "af_rows df \<noteq> [] \<and> af_columns df \<noteq> [] \<and> ''state'' \<in> set (af_columns df)"
  shows "\<exists>risk_data. calculate_risk_data df = Inr risk_data \<and>
        (risk_data \<noteq> [] \<longrightarrow> ''state'' \<notin> fst ` set (dict_merge default_weights cfg)) \<and>
        set out = (\<lambda>e. risk_profile_of
                     (e\<lparr>re_components := fillna0 (frame_columns risk_data) (re_components e)\<rparr>)
                     (row_score (''state'' # frame_columns risk_data)
                        (dict_merge default_weights cfg)
                        (fillna0 (frame_columns risk_data) (re_components e)))) ` set risk_data"
proof (cases "calculate_risk_data df")
  case (Inl err)
  with assms show ?thesis
    by (simp add: calculate_risk_scores_def calculate_risk_components_def)
next
  case (Inr risk_data)
  show ?thesis
  proof (cases "risk_data = []")
    case True
    with assms Inr show ?thesis
      by (simp add: calculate_risk_scores_def calculate_risk_components_def)
  next
    case ne: False
    let ?cols = "frame_columns risk_data"
    let ?rows = "map (\<lambda>e. e\<lparr>re_components := fillna0 ?cols (re_components e)\<rparr>) risk_data"
    let ?rc = "\<lparr>rf_columns = ''state'' # ?cols, rf_rows = ?rows\<rparr>"
    have rc: "calculate_risk_components df = Inr ?rc"
      using Inr ne by (simp add: calculate_risk_components_def Let_def)
    from assms rc ne obtain scores where
      sc: "apply_weights cfg ?rc = Inr scores"
      and out: "out = sort_key (\<lambda>p. - rp_risk_score p) (map2 risk_profile_of ?rows scores)"
      by (auto simp: calculate_risk_scores_def split: sum.splits)
    from sc ne have st: "''state'' \<notin> fst ` set (dict_merge default_weights cfg)"
      by (auto simp: apply_weights_def Let_def split: if_splits)
    from sc st have scores: "scores =
        map (\<lambda>row. row_score (''state'' # ?cols) (dict_merge default_weights cfg)
               (re_components row)) ?rows"
      by (auto simp: apply_weights_def Let_def split: if_splits)
    have "set out = set (map2 risk_profile_of ?rows scores)"
      unfolding out by simp
    also have "map2 risk_profile_of ?rows scores =
        map (\<lambda>e. risk_profile_of (e\<lparr>re_components := fillna0 ?cols (re_components e)\<rparr>)
               (row_score (''state'' # ?cols) (dict_merge default_weights cfg)
                  (fillna0 ?cols (re_components e)))) risk_data"
      unfolding scores by (simp add: zip_map_map zip_same_conv_map o_def)
    finally show ?thesis using Inr st by auto
  qed
qed

lemma calculate_risk_data_entry:
  assumes "calculate_risk_data df = Inr risk_data" and "e \<in> set risk_data"
  shows "state_risk_entry (af_columns df) (re_state e)
           (filter (\<lambda>r. ar_state r = re_state e) (af_rows df)) = Inr e"
proof -
  from risk_data_loop_entries[OF assms[unfolded calculate_risk_data_def]]
  obtain s sd where g: "(s, sd) \<in> set (groupby_state (af_rows df))"
    and se: "state_risk_entry (af_columns df) s sd = Inr e"
    by auto
  from se have "re_state e = s" by (rule state_risk_entry_state)
  with g se show ?thesis by (simp add: groupby_state_member)
qed

lemma calculate_risk_data_region:
  assumes "calculate_risk_data df = Inr risk_data" and "r \<in> set (af_rows df)"
  shows "\<exists>e\<in>set risk_data. re_state e = ar_state r"
proof -
  let ?sd = "filter (\<lambda>x. ar_state x = ar_state r) (af_rows df)"
  from assms(2) have g: "(ar_state r, ?sd) \<in> set (groupby_state (af_rows df))"
    by (simp add: groupby_state_member)
  then have "?sd \<noteq> []" by (rule groupby_state_nonempty)
  from risk_data_loop_covers[OF assms(1)[unfolded calculate_risk_data_def] g this]
  obtain e where "e \<in> set risk_data" "state_risk_entry (af_columns df) (ar_state r) ?sd = Inr e"
    by auto
  then show ?thesis using state_risk_entry_state by blast
qed

lemma example_frame_scores:
  "calculate_risk_scores [] example_frame =
     Inr [\<lparr>rp_state = ''B'',
           rp_components = [(''anomaly_frequency_risk'', 1), (''anomaly_severity_risk'', 7 / 10),
                            (''consistency_risk'', 0)],
           rp_risk_score = 17 / 24, rp_risk_level = ''HIGH'', rp_risk_color = ''#FD7E14''\<rparr>,
          \<lparr>rp_state = ''A'',
           rp_components = [(''anomaly_frequency_risk'', 0), (''anomaly_severity_risk'', 0),
                            (''consistency_risk'', 0)],
           rp_risk_score = 0, rp_risk_level = ''VERY_LOW'', rp_risk_color = ''#6C757D''\<rparr>]"
  by (simp add: example_frame_def example_row_def calculate_risk_scores_def
      calculate_risk_components_def calculate_risk_data_def frame_columns_def unique_def
      groupby_state_def state_risk_entry_def volume_component_def
      anomaly_frequency_component_def anomaly_severity_component_def volatility_component_def
      consistency_component_def total_months_def update_pattern_component_def
      pd_sum_def pd_mean_def pd_std_def normalize_score_def
      normalization_ranges_def np_clip_def fill0_def date_extreme_def fillna0_def
      apply_weights_def row_score_def dict_merge_def risk_profile_of_def
      default_weights_def categorize_risk_level_def get_risk_color_def Let_def)


lemma sum_list_weighted_bounds:
  assumes "\<forall>(c, w)\<in>set ws. (0::real) \<le> w" and "\<And>c. 0 \<le> f c \<and> f c \<le> 1"
  shows "0 \<le> (\<Sum>(c, w)\<leftarrow>ws. f c * w) \<and> (\<Sum>(c, w)\<leftarrow>ws. f c * w) \<le> (\<Sum>(c, w)\<leftarrow>ws. w)"
  using assms(1)
proof (induction ws)
  case Nil
  then show ?case by simp
next
  case (Cons kw ws)
  obtain k w where kw: "kw = (k, w)" by (cases kw)
  from Cons.prems kw have w: "0 \<le> w" by auto
  from assms(2)[of k] w have "0 \<le> f k * w" "f k * w \<le> w"
    by (simp_all add: mult_left_le_one_le)
  moreover from Cons have "0 \<le> (\<Sum>(c, w)\<leftarrow>ws. f c * w) \<and>
      (\<Sum>(c, w)\<leftarrow>ws. f c * w) \<le> (\<Sum>(c, w)\<leftarrow>ws. w)" by simp
  ultimately show ?case unfolding kw by simp
qed

lemma row_score_unit:
  assumes w: "\<forall>(c, w)\<in>set ws. 0 \<le> w" and u: "unit_components row"
  shows "0 \<le> row_score cols ws row \<and> row_score cols ws row \<le> 1"
proof -
  let ?F = "filter (\<lambda>(c, w). c \<in> set cols) ws"
  let ?f = "\<lambda>c. case map_of row c of Some v \<Rightarrow> v | None \<Rightarrow> (0::real)"
  have f: "0 \<le> ?f c \<and> ?f c \<le> 1" for c
  proof (cases "map_of row c")
    case None
    then show ?thesis by simp
  next
    case (Some v)
    then have "(c, v) \<in> set row" by (rule map_of_SomeD)
    with u Some show ?thesis by (auto simp: unit_components_def)
  qed
  from w have "\<forall>(c, w)\<in>set ?F. 0 \<le> w" by auto
  from sum_list_weighted_bounds[OF this, of ?f] f
  have b: "0 \<le> (\<Sum>(c, w)\<leftarrow>?F. ?f c * w)" "(\<Sum>(c, w)\<leftarrow>?F. ?f c * w) \<le> (\<Sum>(c, w)\<leftarrow>?F. w)"
    by auto
  show ?thesis
    unfolding row_score_def weights_loop_sum using b
    by (auto simp: divide_le_eq)
qed

lemma fillna0_unit: "unit_components comps \<Longrightarrow> unit_components (fillna0 cols comps)"
  by (auto simp: unit_components_def fillna0_def split: option.splits dest: map_of_SomeD)

lemma categorize_risk_level_cases:
  "(categorize_risk_level s = ''CRITICAL'' \<longleftrightarrow> 0.8 \<le> s) \<and>
   (categorize_risk_level s = ''HIGH'' \<longleftrightarrow> 0.6 \<le> s \<and> s < 0.8) \<and>
   (categorize_risk_level s = ''MEDIUM'' \<longleftrightarrow> 0.4 \<le> s \<and> s < 0.6) \<and>
   (categorize_risk_level s = ''LOW'' \<longleftrightarrow> 0.2 \<le> s \<and> s < 0.4) \<and>
   (categorize_risk_level s = ''VERY_LOW'' \<longleftrightarrow> s < 0.2)"
  by (simp add: categorize_risk_level_def)

text \<open>
  C1 (as amended). For every region of the input, the risk score is the weighted sum of
  the region's row of the component frame divided by the sum of the weights of the
  frame's columns (when that sum is positive), where the weight of a component is its
  configured override, else its default (0.15, 0.25, 0.25, 0.15, 0.10, 0.10). A column
  exists as soon as one region has the component; a region that lacks it has 0 there and
  the weight stays in the denominator. A region that has every column of the frame gets
  the weighted mean of its own components.
\<close>

theorem risk_score_weighted_over_frame_columns:
  assumes out: "calculate_risk_scores cfg df = Inr out"
    and st: "''state'' \<in> set (af_columns df)"
    and r: "r \<in> set (af_rows df)"
  shows "\<exists>risk_data e p.
      calculate_risk_data df = Inr risk_data \<and> e \<in> set risk_data \<and> p \<in> set out \<and>
      state_risk_entry (af_columns df) (ar_state r)
        (filter (\<lambda>x. ar_state x = ar_state r) (af_rows df)) = Inr e \<and>
      rp_state p = ar_state r \<and>
      set (frame_columns risk_data) = (\<Union>e'\<in>set risk_data. fst ` set (re_components e')) \<and>
      rp_components p = fillna0 (frame_columns risk_data) (re_components e) \<and>
      rp_risk_score p = weighted_score cfg (rp_components p) \<and>
      (fst ` set (re_components e) = set (frame_columns risk_data) \<longrightarrow>
         rp_risk_score p = weighted_score cfg (re_components e)) \<and>
      (\<forall>c. weight_of cfg c =
         (case map_of (rev cfg) c of
            Some w \<Rightarrow> w
          | None \<Rightarrow> (case map_of default_weights c of Some w \<Rightarrow> w | None \<Rightarrow> 0))) \<and>
      default_weights =
        [(''volume_risk'', 0.15), (''anomaly_frequency_risk'', 0.25),
         (''anomaly_severity_risk'', 0.25), (''volatility_risk'', 0.15),
         (''consistency_risk'', 0.10), (''update_pattern_risk'', 0.10)]"
proof -
  from r st have g: "af_rows df \<noteq> [] \<and> af_columns df \<noteq> [] \<and> ''state'' \<in> set (af_columns df)"
    by auto
  from calculate_risk_scores_rows[OF out g] obtain risk_data where
    rd: "calculate_risk_data df = Inr risk_data"
    and nst': "risk_data \<noteq> [] \<longrightarrow> ''state'' \<notin> fst ` set (dict_merge default_weights cfg)"
    and so: "set out = (\<lambda>e. risk_profile_of
                     (e\<lparr>re_components := fillna0 (frame_columns risk_data) (re_components e)\<rparr>)
                     (row_score (''state'' # frame_columns risk_data)
                        (dict_merge default_weights cfg)
                        (fillna0 (frame_columns risk_data) (re_components e)))) ` set risk_data"
    by blast
  from calculate_risk_data_region[OF rd r] obtain e where
    e: "e \<in> set risk_data" and es: "re_state e = ar_state r" by auto
  from calculate_risk_data_entry[OF rd e] es have
    se: "state_risk_entry (af_columns df) (ar_state r)
           (filter (\<lambda>x. ar_state x = ar_state r) (af_rows df)) = Inr e" by simp
  let ?cols = "frame_columns risk_data"
  let ?ws = "dict_merge default_weights cfg"
  let ?row = "fillna0 ?cols (re_components e)"
  let ?p = "risk_profile_of (e\<lparr>re_components := ?row\<rparr>) (row_score (''state'' # ?cols) ?ws ?row)"
  from nst' e have nst: "''state'' \<notin> fst ` set ?ws" by auto
  from so e have p: "?p \<in> set out" by blast
  have d: "distinct ?cols" by (simp add: frame_columns_def)
  have score: "rp_risk_score ?p = weighted_score cfg ?row"
    using row_score_weighted[OF d nst] by (simp add: risk_profile_of_def)
  have own: "fst ` set (re_components e) = set ?cols \<longrightarrow>
      rp_risk_score ?p = weighted_score cfg (re_components e)"
    using score weighted_score_fillna0[OF state_risk_entry_distinct[OF se] d, of cfg] by simp
  have cols: "set ?cols = (\<Union>e'\<in>set risk_data. fst ` set (re_components e'))"
    by (auto simp: frame_columns_def)
  have "rp_state ?p = ar_state r" "rp_components ?p = ?row"
    using es by (simp_all add: risk_profile_of_def)
  with rd e p se score own cols show ?thesis
    using weight_of_override[of cfg] default_weights_def
    by (intro exI[of _ risk_data] exI[of _ e] exI[of _ ?p]) simp
qed


lemma example_frame_entry_B:
  "state_risk_entry (af_columns example_frame) ''B''
     (filter (\<lambda>x. ar_state x = ''B'') (af_rows example_frame)) =
   Inr \<lparr>re_state = ''B'',
        re_components = [(''anomaly_frequency_risk'', 1), (''anomaly_severity_risk'', 7 / 10)]\<rparr>"
  by (simp add: example_frame_def example_row_def state_risk_entry_def volume_component_def
      anomaly_frequency_component_def anomaly_severity_component_def volatility_component_def
      consistency_component_def total_months_def update_pattern_component_def
      pd_mean_def normalize_score_def normalization_ranges_def np_clip_def fill0_def
      date_extreme_def Let_def)

theorem risk_score_per_region_counterexample:
  "state_risk_entry (af_columns example_frame) ''B''
     (filter (\<lambda>x. ar_state x = ''B'') (af_rows example_frame)) =
   Inr \<lparr>re_state = ''B'',
        re_components = [(''anomaly_frequency_risk'', 1), (''anomaly_severity_risk'', 7 / 10)]\<rparr> \<and>
   calculate_risk_scores [] example_frame =
     Inr [\<lparr>rp_state = ''B'',
           rp_components = [(''anomaly_frequency_risk'', 1), (''anomaly_severity_risk'', 7 / 10),
                            (''consistency_risk'', 0)],
           rp_risk_score = 17 / 24, rp_risk_level = ''HIGH'', rp_risk_color = ''#FD7E14''\<rparr>,
          \<lparr>rp_state = ''A'',
           rp_components = [(''anomaly_frequency_risk'', 0), (''anomaly_severity_risk'', 0),
                            (''consistency_risk'', 0)],
           rp_risk_score = 0, rp_risk_level = ''VERY_LOW'', rp_risk_color = ''#6C757D''\<rparr>] \<and>
   weighted_score [] [(''anomaly_frequency_risk'', 1), (''anomaly_severity_risk'', 7 / 10)] = 17 / 20 \<and>
   (17 / 24 :: real) \<noteq> 17 / 20"
  by (simp add: example_frame_entry_B example_frame_scores weighted_score_def weight_of_def
      dict_merge_def default_weights_def)

theorem risk_score_weighted_over_frame_columns_witness:
  "calculate_risk_scores [] example_frame =
     Inr [\<lparr>rp_state = ''B'',
           rp_components = [(''anomaly_frequency_risk'', 1), (''anomaly_severity_risk'', 7 / 10),
                            (''consistency_risk'', 0)],
           rp_risk_score = 17 / 24, rp_risk_level = ''HIGH'', rp_risk_color = ''#FD7E14''\<rparr>,
          \<lparr>rp_state = ''A'',
           rp_components = [(''anomaly_frequency_risk'', 0), (''anomaly_severity_risk'', 0),
                            (''consistency_risk'', 0)],
           rp_risk_score = 0, rp_risk_level = ''VERY_LOW'', rp_risk_color = ''#6C757D''\<rparr>] \<and>
   ''state'' \<in> set (af_columns example_frame) \<and>
   example_row ''B'' ''2023-01'' 0 1 0.7 \<in> set (af_rows example_frame) \<and>
   weighted_score []
     [(''anomaly_frequency_risk'', 1), (''anomaly_severity_risk'', 7 / 10), (''consistency_risk'', 0)]
     = 17 / 24"
proof -
  have st: "''state'' \<in> set (af_columns example_frame)"
    by (simp add: example_frame_def)
  have r: "example_row ''B'' ''2023-01'' 0 1 0.7 \<in> set (af_rows example_frame)"
    by (simp add: example_frame_def)
  from risk_score_weighted_over_frame_columns[OF example_frame_scores st r]
  obtain p where "p \<in> set [\<lparr>rp_state = ''B'',
           rp_components = [(''anomaly_frequency_risk'', 1), (''anomaly_severity_risk'', 7 / 10),
                            (''consistency_risk'', 0)],
           rp_risk_score = 17 / 24, rp_risk_level = ''HIGH'', rp_risk_color = ''#FD7E14''\<rparr>,
          \<lparr>rp_state = ''A'',
           rp_components = [(''anomaly_frequency_risk'', 0), (''anomaly_severity_risk'', 0),
                            (''consistency_risk'', 0)],
           rp_risk_score = 0, rp_risk_level = ''VERY_LOW'', rp_risk_color = ''#6C757D''\<rparr>]"
    and "rp_state p = ar_state (example_row ''B'' ''2023-01'' 0 1 0.7)"
    and "rp_risk_score p = weighted_score [] (rp_components p)"
    by blast
  then have "weighted_score []
     [(''anomaly_frequency_risk'', 1), (''anomaly_severity_risk'', 7 / 10), (''consistency_risk'', 0)]
     = 17 / 24"
    by (auto simp: example_row_def)
  with example_frame_scores st r show ?thesis by simp
qed

text \<open>
  C2 (as amended). When no configured weight is negative, every row of the output has
  its risk score in \<open>[0, 1]\<close>; its level is the category of its score, and the
  categories split the scores at 0.8, 0.6, 0.4 and 0.2 into five disjoint ranges that
  cover every score.
\<close>

theorem risk_score_unit_interval:
  assumes out: "calculate_risk_scores cfg df = Inr out"
    and p: "p \<in> set out"
    and w: "\<forall>(c, w)\<in>set cfg. 0 \<le> w"
  shows "0 \<le> rp_risk_score p \<and> rp_risk_score p \<le> 1 \<and>
     rp_risk_level p = categorize_risk_level (rp_risk_score p) \<and>
     (\<forall>s. (categorize_risk_level s = ''CRITICAL'' \<longleftrightarrow> 0.8 \<le> s) \<and>
          (categorize_risk_level s = ''HIGH'' \<longleftrightarrow> 0.6 \<le> s \<and> s < 0.8) \<and>
          (categorize_risk_level s = ''MEDIUM'' \<longleftrightarrow> 0.4 \<le> s \<and> s < 0.6) \<and>
          (categorize_risk_level s = ''LOW'' \<longleftrightarrow> 0.2 \<le> s \<and> s < 0.4) \<and>
          (categorize_risk_level s = ''VERY_LOW'' \<longleftrightarrow> s < 0.2))"
proof -
  from calculate_risk_scores_rows[OF out calculate_risk_scores_guard[OF out p]] p
  obtain risk_data e where rd: "calculate_risk_data df = Inr risk_data"
    and e: "e \<in> set risk_data"
    and pe: "p = risk_profile_of
               (e\<lparr>re_components := fillna0 (frame_columns risk_data) (re_components e)\<rparr>)
               (row_score (''state'' # frame_columns risk_data)
                  (dict_merge default_weights cfg)
                  (fillna0 (frame_columns risk_data) (re_components e)))"
    by auto
  have "unit_components (re_components e)"
    using calculate_risk_data_entry[OF rd e] by (rule state_risk_entry_unit)
  then have u: "unit_components (fillna0 (frame_columns risk_data) (re_components e))"
    by (rule fillna0_unit)
  have "\<forall>(c, w)\<in>set (dict_merge default_weights cfg). 0 \<le> w"
    using default_weights_nonneg w by (rule dict_merge_nonneg)
  from row_score_unit[OF this u] have "0 \<le> rp_risk_score p \<and> rp_risk_score p \<le> 1"
    unfolding pe by (simp add: risk_profile_of_def)
  moreover have "rp_risk_level p = categorize_risk_level (rp_risk_score p)"
    unfolding pe by (simp add: risk_profile_of_def)
  ultimately show ?thesis using categorize_risk_level_cases by blast
qed

theorem risk_score_unit_interval_witness:
  "calculate_risk_scores [(''volume_risk'', 0.5)] example_frame =
     Inr [\<lparr>rp_state = ''B'',
           rp_components = [(''anomaly_frequency_risk'', 1), (''anomaly_severity_risk'', 7 / 10),
                            (''consistency_risk'', 0)],
           rp_risk_score = 17 / 24, rp_risk_level = ''HIGH'', rp_risk_color = ''#FD7E14''\<rparr>,
          \<lparr>rp_state = ''A'',
           rp_components = [(''anomaly_frequency_risk'', 0), (''anomaly_severity_risk'', 0),
                            (''consistency_risk'', 0)],
           rp_risk_score = 0, rp_risk_level = ''VERY_LOW'', rp_risk_color = ''#6C757D''\<rparr>] \<and>
   (0::real) \<le> 17 / 24 \<and> (17 / 24 :: real) \<le> 1 \<and>
   categorize_risk_level (17 / 24) = ''HIGH''"
proof -
  let ?pB = "\<lparr>rp_state = ''B'',
           rp_components = [(''anomaly_frequency_risk'', 1), (''anomaly_severity_risk'', 7 / 10),
                            (''consistency_risk'', 0)],
           rp_risk_score = 17 / 24, rp_risk_level = ''HIGH'', rp_risk_color = ''#FD7E14''\<rparr>"
  let ?pA = "\<lparr>rp_state = ''A'',
           rp_components = [(''anomaly_frequency_risk'', 0), (''anomaly_severity_risk'', 0),
                            (''consistency_risk'', 0)],
           rp_risk_score = 0, rp_risk_level = ''VERY_LOW'', rp_risk_color = ''#6C757D''\<rparr>"
  have out: "calculate_risk_scores [(''volume_risk'', 0.5)] example_frame = Inr [?pB, ?pA]"
    by (simp add: example_frame_def example_row_def calculate_risk_scores_def
      calculate_risk_components_def calculate_risk_data_def frame_columns_def unique_def
      groupby_state_def state_risk_entry_def volume_component_def
      anomaly_frequency_component_def anomaly_severity_component_def volatility_component_def
      consistency_component_def total_months_def update_pattern_component_def
      pd_sum_def pd_mean_def pd_std_def normalize_score_def
      normalization_ranges_def np_clip_def fill0_def date_extreme_def fillna0_def
      apply_weights_def row_score_def dict_merge_def risk_profile_of_def
      default_weights_def categorize_risk_level_def get_risk_color_def Let_def)
  have p: "?pB \<in> set [?pB, ?pA]" by simp
  have w: "\<forall>(c, w)\<in>set [(''volume_risk'', 0.5::real)]. 0 \<le> w" by simp
  from risk_score_unit_interval[OF out p w] out show ?thesis by simp
qed

theorem risk_score_negative_weight_counterexample:
  "calculate_risk_scores [(''anomaly_frequency_risk'', - 1)] example_frame =
     Inr [\<lparr>rp_state = ''A'',
           rp_components = [(''anomaly_frequency_risk'', 0), (''anomaly_severity_risk'', 0),
                            (''consistency_risk'', 0)],
           rp_risk_score = 0, rp_risk_level = ''VERY_LOW'', rp_risk_color = ''#6C757D''\<rparr>,
          \<lparr>rp_state = ''B'',
           rp_components = [(''anomaly_frequency_risk'', 1), (''anomaly_severity_risk'', 7 / 10),
                            (''consistency_risk'', 0)],
           rp_risk_score = - (33 / 40), rp_risk_level = ''VERY_LOW'',
           rp_risk_color = ''#6C757D''\<rparr>] \<and>
   \<not> (0::real) \<le> - (33 / 40)"
  by (simp add: example_frame_def example_row_def calculate_risk_scores_def
      calculate_risk_components_def calculate_risk_data_def frame_columns_def unique_def
      groupby_state_def state_risk_entry_def volume_component_def
      anomaly_frequency_component_def anomaly_severity_component_def volatility_component_def
      consistency_component_def total_months_def update_pattern_component_def
      pd_sum_def pd_mean_def pd_std_def normalize_score_def
      normalization_ranges_def np_clip_def fill0_def date_extreme_def fillna0_def
      apply_weights_def row_score_def dict_merge_def risk_profile_of_def
      default_weights_def categorize_risk_level_def get_risk_color_def Let_def)



section \<open>Feature aggregator\<close>

lemma enrolment_col_cases:
  "enrolment_col df = Some c \<Longrightarrow> c \<in> {''enrolment_count'', ''Total_Enrolments'', ''enrolments''}"
  by (auto simp: enrolment_col_def split: if_splits)

lemma update_col_cases:
  "update_col df = Some u \<Longrightarrow> u \<in> {''update_count'', ''Total_Updates'', ''updates''}"
  by (auto simp: update_col_def split: if_splits)

lemma enrolment_col_candidate:
  "enrolment_col df = Some c \<Longrightarrow> c \<in> {''enrolment_count'', ''Total_Enrolments'', ''enrolments'',
         ''update_count'', ''Total_Updates'', ''updates''}"
  by (auto simp: enrolment_col_def split: if_splits)

lemma update_col_candidate:
  "update_col df = Some u \<Longrightarrow> u \<in> {''enrolment_count'', ''Total_Enrolments'', ''enrolments'',
         ''update_count'', ''Total_Updates'', ''updates''}"
  by (auto simp: update_col_def split: if_splits)

lemma agg_dict_enrol:
  assumes "enrolment_col df = Some c"
  shows "agg_dict_of df =
     (c, Several [''sum'', ''mean'', ''std'']) #
     (case update_col df of Some u \<Rightarrow> [(u, Single ''sum'')] | None \<Rightarrow> [])"
  using assms by (simp add: agg_dict_of_def)

lemma str_strip_id:
  assumes "s \<noteq> []" and "\<not> is_space (hd s)" and "\<not> is_space (last s)"
  shows "str_strip s = s"
proof -
  have "dropWhile is_space s = s" using assms by (simp add: dropWhile_eq_self_iff)
  moreover have "dropWhile is_space (rev s) = rev s"
    using assms by (simp add: dropWhile_eq_self_iff hd_rev)
  ultimately show ?thesis by (simp add: str_strip_def)
qed

lemma candidate_hd:
  assumes "c \<in> {''enrolment_count'', ''Total_Enrolments'', ''enrolments'',
         ''update_count'', ''Total_Updates'', ''updates''}"
  shows "c \<noteq> [] \<and> \<not> is_space (hd c)"
  using assms by (elim insertE emptyE) (simp_all add: is_space_def)

lemma strip_candidates:
  assumes "c \<in> {''enrolment_count'', ''Total_Enrolments'', ''enrolments'',
         ''update_count'', ''Total_Updates'', ''updates''}"
  shows "str_strip (c @ ''_sum'') = c @ ''_sum''"
    and "str_strip (c @ ''_mean'') = c @ ''_mean''"
    and "str_strip (c @ ''_std'') = c @ ''_std''"
  using candidate_hd[OF assms] by (simp_all add: str_strip_id is_space_def)

lemma agg_columns_enrol:
  assumes "enrolment_col df = Some c"
  shows "agg_columns (agg_dict_of df) =
     [c @ ''_sum'', c @ ''_mean'', c @ ''_std''] @ update_sum_names df"
proof -
  from assms have c: "c \<in> {''enrolment_count'', ''Total_Enrolments'', ''enrolments'',
         ''update_count'', ''Total_Updates'', ''updates''}"
    by (rule enrolment_col_candidate)
  have cols: "agg_columns (agg_dict_of df) =
      [str_strip (c @ ''_sum''), str_strip (c @ ''_mean''), str_strip (c @ ''_std'')] @
      (case update_col df of Some u \<Rightarrow> [str_strip (u @ ''_sum'')] | None \<Rightarrow> [])"
    by (simp add: agg_dict_enrol[OF assms] agg_columns_def is_several_def agg_funs_def
        split: option.splits)
  show ?thesis
  proof (cases "update_col df")
    case None
    then show ?thesis
      unfolding cols using strip_candidates[OF c] by (simp add: update_sum_names_def)
  next
    case (Some u)
    then have u: "u \<in> {''enrolment_count'', ''Total_Enrolments'', ''enrolments'',
         ''update_count'', ''Total_Updates'', ''updates''}"
      by (rule update_col_candidate)
    show ?thesis
      unfolding cols using strip_candidates[OF c] strip_candidates(1)[OF u] Some
      by (simp add: update_sum_names_def)
  qed
qed

lemma agg_values_enrol:
  assumes "enrolment_col df = Some c"
  shows "agg_values (agg_dict_of df) grp =
     [Fin (pd_sum (map (\<lambda>r. rr_num r c) grp)),
      of_opt (pd_mean (map (\<lambda>r. rr_num r c) grp)),
      of_opt (pd_std (map (\<lambda>r. rr_num r c) grp))] @
     (case update_col df of
        Some u \<Rightarrow> [Fin (pd_sum (map (\<lambda>r. rr_num r u) grp))] | None \<Rightarrow> [])"
  by (simp add: agg_dict_enrol[OF assms] agg_values_def agg_funs_def agg_fun_def
      split: option.splits)

lemma str_contains_suffix: "str_contains sub (xs @ sub)"
  by (induction xs) (auto, cases sub, auto)

lemma enrol_not_sum:
  assumes "c \<in> {''enrolment_count'', ''Total_Enrolments'', ''enrolments''}"
  shows "\<not> str_contains ''_sum'' (c @ ''_mean'')" and "\<not> str_contains ''_sum'' (c @ ''_std'')"
  using assms by (elim insertE emptyE; simp)+

lemma sum_cols_enrol:
  assumes "enrolment_col df = Some c"
  shows "filter (str_contains ''_sum'') (''state'' # ''year_month'' # agg_columns (agg_dict_of df))
       = (c @ ''_sum'') # update_sum_names df"
proof -
  have "filter (str_contains ''_sum'') [c @ ''_sum'', c @ ''_mean'', c @ ''_std''] = [c @ ''_sum'']"
    using enrol_not_sum[OF enrolment_col_cases[OF assms]] str_contains_suffix[of "''_sum''" c]
    by simp
  moreover have "filter (str_contains ''_sum'') (update_sum_names df) = update_sum_names df"
    using str_contains_suffix[of "''_sum''"]
    by (simp add: update_sum_names_def split: option.splits)
  moreover have "\<not> str_contains ''_sum'' ''state''" "\<not> str_contains ''_sum'' ''year_month''"
    by simp_all
  ultimately show ?thesis
    unfolding agg_columns_enrol[OF assms] filter_append filter.simps by simp
qed

lemma set_cell_simps [simp]:
  "mr_state (set_cell c v row) = mr_state row"
  "mr_year_month (set_cell c v row) = mr_year_month row"
  "map_of (mr_cells (set_cell c v row)) k = (if k = c then Some v else map_of (mr_cells row) k)"
  by (simp_all add: set_cell_def update_conv')

lemma cell_real_set_cell:
  "k \<noteq> c \<Longrightarrow> cell_real (set_cell c v row) k = cell_real row k"
  by (simp add: cell_real_def)

lemma set_column_length:
  "length vs = length (mf_rows df) \<Longrightarrow> length (mf_rows (set_column c vs df)) = length (mf_rows df)"
  by (simp add: set_column_def)

lemma set_column_nth:
  "length vs = length (mf_rows df) \<Longrightarrow> i < length (mf_rows df)
   \<Longrightarrow> mf_rows (set_column c vs df) ! i = set_cell c (vs ! i) (mf_rows df ! i)"
  by (simp add: set_column_def)

lemma state_series_set_column:
  assumes "length vs = length (mf_rows df)" and "k \<noteq> c"
  shows "state_series (set_column c vs df) k = state_series df k"
proof (rule nth_equalityI)
  show "length (state_series (set_column c vs df) k) = length (state_series df k)"
    using assms by (simp add: state_series_def set_column_length)
next
  fix i assume "i < length (state_series (set_column c vs df) k)"
  then have i: "i < length (mf_rows df)"
    using assms by (simp add: state_series_def set_column_length)
  then show "state_series (set_column c vs df) k ! i = state_series df k ! i"
    using assms
    by (simp add: state_series_def set_column_length set_column_nth cell_real_set_cell)
qed

lemma pct_change_loop_length [simp]: "length (pct_change_loop prev xs) = length xs"
  by (induction xs arbitrary: prev) auto

lemma pct_change_length [simp]: "length (pct_change xs) = length xs"
  by (simp add: pct_change_def)

lemma z_scores_length [simp]: "length (z_scores xs) = length xs"
  by (simp add: z_scores_def)

lemma state_series_length [simp]: "length (state_series df c) = length (mf_rows df)"
  by (simp add: state_series_def)

lemma base_frame_length [simp]:
  "length (mf_rows (base_frame df)) = length (group_keys (rec_rows df))"
  by (simp add: base_frame_def groupby_agg_def)

lemma base_frame_nth:
  assumes e: "enrolment_col df = Some c" and i: "i < length (group_keys (rec_rows df))"
  shows "mr_state (mf_rows (base_frame df) ! i) = fst (group_keys (rec_rows df) ! i)"
    and "mr_year_month (mf_rows (base_frame df) ! i) = snd (group_keys (rec_rows df) ! i)"
    and "map_of (mr_cells (mf_rows (base_frame df) ! i)) (c @ ''_sum'') =
           Some (Fin (volume_sum df c (fst (group_keys (rec_rows df) ! i))
                        (snd (group_keys (rec_rows df) ! i))))"
  using i
  by (simp_all add: base_frame_def groupby_agg_def agg_columns_enrol[OF e] agg_values_enrol[OF e]
      volume_sum_def split: prod.splits)

lemma base_frame_series:
  assumes e: "enrolment_col df = Some c"
  shows "state_series (base_frame df) (c @ ''_sum'') =
         map (\<lambda>(s, ym). (s, volume_sum df c s ym)) (group_keys (rec_rows df))"
proof (rule nth_equalityI)
  show "length (state_series (base_frame df) (c @ ''_sum'')) =
        length (map (\<lambda>(s, ym). (s, volume_sum df c s ym)) (group_keys (rec_rows df)))"
    by simp
next
  fix i assume "i < length (state_series (base_frame df) (c @ ''_sum''))"
  then have i: "i < length (group_keys (rec_rows df))" by simp
  show "state_series (base_frame df) (c @ ''_sum'') ! i =
        map (\<lambda>(s, ym). (s, volume_sum df c s ym)) (group_keys (rec_rows df)) ! i"
    using i base_frame_nth[OF e i]
    by (simp add: state_series_def cell_real_def split: prod.splits)
qed

lemma sum_name_fresh:
  assumes "c \<in> {''enrolment_count'', ''Total_Enrolments'', ''enrolments'',
         ''update_count'', ''Total_Updates'', ''updates''}"
  shows "c @ ''_sum'' \<noteq> ''mom_growth''" and "c @ ''_sum'' \<noteq> ''z_score''"
    and "c @ ''_sum'' \<noteq> ''update_ratio''"
  using assms by (elim insertE emptyE; simp)+

lemma update_sum_fresh:
  assumes "c \<in> {''enrolment_count'', ''Total_Enrolments'', ''enrolments''}"
    and "u \<in> {''update_count'', ''Total_Updates'', ''updates''}"
  shows "u @ ''_sum'' \<noteq> c @ ''_sum''" and "u @ ''_sum'' \<noteq> c @ ''_mean''"
    and "u @ ''_sum'' \<noteq> c @ ''_std''"
  using assms by (elim insertE emptyE; simp)+

lemma base_frame_nth_update:
  assumes e: "enrolment_col df = Some c" and u: "update_col df = Some u"
    and i: "i < length (group_keys (rec_rows df))"
  shows "map_of (mr_cells (mf_rows (base_frame df) ! i)) (u @ ''_sum'') =
           Some (Fin (volume_sum df u (fst (group_keys (rec_rows df) ! i))
                        (snd (group_keys (rec_rows df) ! i))))"
  using i update_sum_fresh[OF enrolment_col_cases[OF e] update_col_cases[OF u]] u
  by (simp add: base_frame_def groupby_agg_def agg_columns_enrol[OF e] agg_values_enrol[OF e]
      volume_sum_def update_sum_names_def split: prod.splits)

text \<open>Row \<open>i\<close> of the result, cell by cell.\<close>

lemma create_aggregated_features_nth:
  assumes cols: "''state'' \<in> set (rec_columns df)" "''date'' \<in> set (rec_columns df)"
    and e: "enrolment_col df = Some c"
    and i: "i < length (group_keys (rec_rows df))"
  defines "keys \<equiv> group_keys (rec_rows df)"
  defines "series \<equiv> map (\<lambda>(s, ym). (s, volume_sum df c s ym)) keys"
  defines "row \<equiv> mf_rows (create_aggregated_features df) ! i"
  shows "length (mf_rows (create_aggregated_features df)) = length keys"
    and "mr_state row = fst (keys ! i)"
    and "mr_year_month row = snd (keys ! i)"
    and "map_of (mr_cells row) (c @ ''_sum'') =
           Some (Fin (volume_sum df c (fst (keys ! i)) (snd (keys ! i))))"
    and "map_of (mr_cells row) ''mom_growth'' = Some (pct_change series ! i)"
    and "map_of (mr_cells row) ''z_score'' = Some (z_scores series ! i)"
    and "update_col df = Some u \<Longrightarrow>
         map_of (mr_cells row) ''update_ratio'' =
           Some (Fin (volume_sum df u (fst (keys ! i)) (snd (keys ! i)) /
                      (if volume_sum df c (fst (keys ! i)) (snd (keys ! i)) = 0 then 1
                       else volume_sum df c (fst (keys ! i)) (snd (keys ! i))))) \<and>
         map_of (mr_cells row) (u @ ''_sum'') =
           Some (Fin (volume_sum df u (fst (keys ! i)) (snd (keys ! i))))"
proof -
  let ?b = "base_frame df"
  let ?cs = "c @ ''_sum''"
  have cand: "c \<in> {''enrolment_count'', ''Total_Enrolments'', ''enrolments'',
         ''update_count'', ''Total_Updates'', ''updates''}"
    using e by (rule enrolment_col_candidate)
  note fresh = sum_name_fresh[OF cand]
  define mf1 where "mf1 = set_column ''mom_growth'' (pct_change (state_series ?b ?cs)) ?b"
  define mf2 where "mf2 = set_column ''z_score'' (z_scores (state_series mf1 ?cs)) mf1"
  have n: "length (mf_rows ?b) = length keys" by (simp add: keys_def)
  have l1: "length (mf_rows mf1) = length keys"
    unfolding mf1_def using n by (simp add: set_column_length)
  have l2: "length (mf_rows mf2) = length keys"
    unfolding mf2_def using l1 by (simp add: set_column_length)
  have s0: "state_series ?b ?cs = series"
    unfolding series_def keys_def by (rule base_frame_series[OF e])
  have ls: "length series = length keys" by (simp add: series_def)
  have s1: "state_series mf1 ?cs = series"
    unfolding mf1_def s0 using s0 fresh(1) n ls by (simp add: state_series_set_column)
  have ik: "i < length keys" using i by (simp add: keys_def)
  have r1: "mf_rows mf1 ! i = set_cell ''mom_growth'' (pct_change series ! i) (mf_rows ?b ! i)"
    unfolding mf1_def s0 using ik n by (simp add: set_column_nth series_def)
  have r2: "mf_rows mf2 ! i = set_cell ''z_score'' (z_scores series ! i) (mf_rows mf1 ! i)"
    unfolding mf2_def s1 using ik l1 by (simp add: set_column_nth series_def)
  have agg_ne: "agg_dict_of df \<noteq> []" by (simp add: agg_dict_enrol[OF e])
  have caf: "create_aggregated_features df = derived_metrics ?b"
    using cols agg_ne by (simp add: create_aggregated_features_def base_frame_def Let_def)
  have sc: "filter (str_contains ''_sum'') (mf_columns ?b) = ?cs # update_sum_names df"
    using sum_cols_enrol[OF e] by (simp add: base_frame_def)
  note b = base_frame_nth[OF e i, folded keys_def]
  show "update_col df = Some u \<Longrightarrow>
         map_of (mr_cells row) ''update_ratio'' =
           Some (Fin (volume_sum df u (fst (keys ! i)) (snd (keys ! i)) /
                      (if volume_sum df c (fst (keys ! i)) (snd (keys ! i)) = 0 then 1
                       else volume_sum df c (fst (keys ! i)) (snd (keys ! i))))) \<and>
         map_of (mr_cells row) (u @ ''_sum'') =
           Some (Fin (volume_sum df u (fst (keys ! i)) (snd (keys ! i))))"
  proof -
    assume u: "update_col df = Some u"
    have ucand: "u \<in> {''enrolment_count'', ''Total_Enrolments'', ''enrolments'',
         ''update_count'', ''Total_Updates'', ''updates''}"
      using u by (rule update_col_candidate)
    note ufresh = sum_name_fresh[OF ucand]
    let ?ratio = "map (\<lambda>row. Fin (cell_real row (u @ ''_sum'') /
                           (if cell_real row ?cs = 0 then 1 else cell_real row ?cs)))
                     (mf_rows mf2)"
    have res: "create_aggregated_features df = set_column ''update_ratio'' ?ratio mf2"
      unfolding caf derived_metrics_def sc
      using u by (simp add: update_sum_names_def Let_def mf1_def mf2_def)
    have rowu: "row = set_cell ''update_ratio'' (?ratio ! i) (mf_rows mf2 ! i)"
      unfolding row_def res using ik l2 by (simp add: set_column_nth)
    have usum: "map_of (mr_cells row) (u @ ''_sum'') =
        Some (Fin (volume_sum df u (fst (keys ! i)) (snd (keys ! i))))"
      unfolding rowu r2 r1 using ufresh base_frame_nth_update[OF e u i, folded keys_def]
      by simp
    note rowu
    moreover have "cell_real (mf_rows mf2 ! i) ?cs = volume_sum df c (fst (keys ! i)) (snd (keys ! i))"
      unfolding r2 r1 using fresh b(3) by (simp add: cell_real_set_cell) (simp add: cell_real_def)
    moreover have "cell_real (mf_rows mf2 ! i) (u @ ''_sum'') =
        volume_sum df u (fst (keys ! i)) (snd (keys ! i))"
      unfolding r2 r1 using ufresh base_frame_nth_update[OF e u i, folded keys_def]
      by (simp add: cell_real_set_cell) (simp add: cell_real_def)
    ultimately show ?thesis using ik l2 usum by simp
  qed
  have rows: "mf_rows (create_aggregated_features df) ! i =
      (case update_col df of
         None \<Rightarrow> mf_rows mf2 ! i
       | Some u \<Rightarrow> set_cell ''update_ratio''
           (Fin (cell_real (mf_rows mf2 ! i) (u @ ''_sum'') /
                 (if cell_real (mf_rows mf2 ! i) ?cs = 0 then 1
                  else cell_real (mf_rows mf2 ! i) ?cs)))
           (mf_rows mf2 ! i))"
    unfolding caf derived_metrics_def sc
    using ik l2
    by (simp add: update_sum_names_def Let_def mf1_def[symmetric] mf2_def[symmetric]
        set_column_nth split: option.splits)
  show "length (mf_rows (create_aggregated_features df)) = length keys"
    unfolding caf derived_metrics_def sc
    using l2
    by (simp add: update_sum_names_def Let_def mf1_def[symmetric] mf2_def[symmetric]
        set_column_length split: option.splits)
  show "mr_state row = fst (keys ! i)"
    unfolding row_def rows r2 r1 using b by (simp split: option.splits)
  show "mr_year_month row = snd (keys ! i)"
    unfolding row_def rows r2 r1 using b by (simp split: option.splits)
  show "map_of (mr_cells row) (c @ ''_sum'') =
           Some (Fin (volume_sum df c (fst (keys ! i)) (snd (keys ! i))))"
    unfolding row_def rows r2 r1 using b fresh by (simp split: option.splits)
  show "map_of (mr_cells row) ''mom_growth'' = Some (pct_change series ! i)"
    unfolding row_def rows r2 r1 by (simp split: option.splits)
  show "map_of (mr_cells row) ''z_score'' = Some (z_scores series ! i)"
    unfolding row_def rows r2 r1 by (simp split: option.splits)
qed

text \<open>The previous value of a state is the last earlier row of that state.\<close>

lemma fold_upd_lookup:
  "fold (\<lambda>(s, v) m. m(s \<mapsto> v)) ys prev s =
     (if filter (\<lambda>y. fst y = s) ys = [] then prev s
      else Some (snd (last (filter (\<lambda>y. fst y = s) ys))))"
proof (induction ys rule: rev_induct)
  case Nil
  then show ?case by simp
next
  case (snoc y ys)
  obtain t v where y: "y = (t, v)" by (cases y)
  show ?case
  proof (cases "t = s")
    case True
    then show ?thesis unfolding y by simp
  next
    case False
    then show ?thesis unfolding y using snoc by simp
  qed
qed

lemma pct_change_loop_nth:
  "i < length xs \<Longrightarrow>
   pct_change_loop prev xs ! i =
     (case fold (\<lambda>(s, v) m. m(s \<mapsto> v)) (take i xs) prev (fst (xs ! i)) of
        None \<Rightarrow> NaN
      | Some p \<Rightarrow> fsub (fdiv (snd (xs ! i)) p) 1)"
proof (induction xs arbitrary: prev i)
  case Nil
  then show ?case by simp
next
  case (Cons x xs)
  obtain s v where x: "x = (s, v)" by (cases x)
  show ?case
  proof (cases i)
    case 0
    then show ?thesis by (simp add: x split: option.splits)
  next
    case (Suc j)
    with Cons.prems have "j < length xs" by simp
    from Cons.IH[OF this, of "prev(s \<mapsto> v)"] show ?thesis
      by (simp add: x Suc del: fun_upd_apply cong: option.case_cong)
  qed
qed

lemma pct_change_nth:
  assumes "i < length xs"
  shows "pct_change xs ! i =
     (if filter (\<lambda>y. fst y = fst (xs ! i)) (take i xs) = [] then NaN
      else fsub (fdiv (snd (xs ! i))
                   (snd (last (filter (\<lambda>y. fst y = fst (xs ! i)) (take i xs))))) 1)"
  unfolding pct_change_def pct_change_loop_nth[OF assms] fold_upd_lookup
  by simp

lemma group_keys_sorted: "sorted_wrt (<) (group_keys rs)"
  by (simp add: group_keys_def strict_sorted_iff)

lemma group_keys_set: "set (group_keys rs) = (\<lambda>r. (rr_state r, year_month r)) ` set rs"
  by (simp add: group_keys_def)

lemma sorted_wrt_take_less:
  assumes "sorted_wrt (<) (xs :: 'a::linorder list)" and "i < length xs"
  shows "set (take i xs) = {x \<in> set xs. x < xs ! i}"
proof (intro set_eqI iffI)
  fix x assume "x \<in> set (take i xs)"
  then obtain j where j: "j < i" "x = xs ! j"
    using assms(2) by (auto simp: in_set_conv_nth)
  with assms have "xs ! j < xs ! i" by (simp add: sorted_wrt_nth_less)
  with j assms(2) show "x \<in> {x \<in> set xs. x < xs ! i}" by auto
next
  fix x assume "x \<in> {x \<in> set xs. x < xs ! i}"
  then obtain j where j: "j < length xs" "x = xs ! j" "xs ! j < xs ! i"
    by (auto simp: in_set_conv_nth)
  have "j < i"
  proof (rule ccontr)
    assume "\<not> j < i"
    then have "i = j \<or> i < j" by auto
    then show False
    proof
      assume "i = j" with j(3) show False by simp
    next
      assume "i < j"
      with assms(1) j(1) have "xs ! i < xs ! j" by (simp add: sorted_wrt_nth_less)
      with j(3) show False by simp
    qed
  qed
  with j assms(2) show "x \<in> set (take i xs)" by (auto simp: in_set_conv_nth)
qed

lemma sorted_le_last:
  "sorted (xs :: 'a::linorder list) \<Longrightarrow> x \<in> set xs \<Longrightarrow> x \<le> last xs"
  by (induction xs) auto

lemma create_aggregated_features_keys:
  assumes cols: "''state'' \<in> set (rec_columns df)" "''date'' \<in> set (rec_columns df)"
    and e: "enrolment_col df = Some c"
  shows "map (\<lambda>row. (mr_state row, mr_year_month row)) (mf_rows (create_aggregated_features df))
       = group_keys (rec_rows df)"
proof (rule nth_equalityI)
  let ?b = "base_frame df"
  let ?cs = "c @ ''_sum''"
  let ?keys = "group_keys (rec_rows df)"
  define mf1 where "mf1 = set_column ''mom_growth'' (pct_change (state_series ?b ?cs)) ?b"
  define mf2 where "mf2 = set_column ''z_score'' (z_scores (state_series mf1 ?cs)) mf1"
  have l1: "length (mf_rows mf1) = length ?keys"
    unfolding mf1_def by (simp add: set_column_length)
  have l2: "length (mf_rows mf2) = length ?keys"
    unfolding mf2_def using l1 by (simp add: set_column_length)
  have agg_ne: "agg_dict_of df \<noteq> []" by (simp add: agg_dict_enrol[OF e])
  have caf: "create_aggregated_features df = derived_metrics ?b"
    using cols agg_ne by (simp add: create_aggregated_features_def base_frame_def Let_def)
  have sc: "filter (str_contains ''_sum'') (mf_columns ?b) = ?cs # update_sum_names df"
    using sum_cols_enrol[OF e] by (simp add: base_frame_def)
  have len: "length (mf_rows (create_aggregated_features df)) = length ?keys"
    unfolding caf derived_metrics_def sc
    using l2
    by (simp add: update_sum_names_def Let_def mf1_def[symmetric] mf2_def[symmetric]
        set_column_length split: option.splits)
  then show "length (map (\<lambda>row. (mr_state row, mr_year_month row))
      (mf_rows (create_aggregated_features df))) = length ?keys"
    by simp
  fix i assume "i < length (map (\<lambda>row. (mr_state row, mr_year_month row))
      (mf_rows (create_aggregated_features df)))"
  with len have i: "i < length ?keys" by simp
  from create_aggregated_features_nth(2,3)[OF cols e i] i len
  show "map (\<lambda>row. (mr_state row, mr_year_month row))
      (mf_rows (create_aggregated_features df)) ! i = ?keys ! i"
    by simp
qed

lemma pct_finite:
  "prev \<noteq> 0 \<Longrightarrow> fsub (fdiv cur prev) 1 = Fin ((cur - prev) / prev)"
  by (simp add: fdiv_def diff_divide_distrib)

lemma region_months_keys:
  "(s, m) \<in> set (group_keys (rec_rows df)) \<longleftrightarrow> m \<in> region_months df s"
  by (auto simp: group_keys_set region_months_def)

lemma scenario_facts:
  "''state'' \<in> set (rec_columns scenario_frame)"
  "''date'' \<in> set (rec_columns scenario_frame)"
  "enrolment_col scenario_frame = Some ''enrolment_count''"
  "update_col scenario_frame = Some ''update_count''"
  "region_months scenario_frame ''B'' = {(2023, 1), (2023, 2), (2023, 3)}"
  "region_months scenario_frame ''A'' = {(2023, 1), (2023, 2), (2023, 3)}"
  "volume_sum scenario_frame ''enrolment_count'' ''B'' (2023, 3) = 300"
  "volume_sum scenario_frame ''enrolment_count'' ''B'' (2023, 2) = 100"
  "volume_sum scenario_frame ''enrolment_count'' ''A'' (2023, 1) = 100"
  by (auto simp: scenario_frame_def scenario_row_def enrolment_col_def update_col_def
      region_months_def volume_sum_def year_month_def pd_sum_def dropna_def
      List.map_filter_def)

text \<open>
  The growth cell of the row of region \<open>s\<close> and month \<open>m\<close>: NaN when the region has no
  earlier month, else the change against the latest earlier month of the region.
\<close>

lemma mom_growth_rows:
  assumes cols: "''state'' \<in> set (rec_columns df)" "''date'' \<in> set (rec_columns df)"
    and e: "enrolment_col df = Some c"
    and r: "r \<in> set (rec_rows df)"
  shows "\<exists>row\<in>set (mf_rows (create_aggregated_features df)).
      mr_state row = rr_state r \<and> mr_year_month row = year_month r \<and>
      map_of (mr_cells row) (c @ ''_sum'') =
        Some (Fin (volume_sum df c (rr_state r) (year_month r))) \<and>
      ((\<forall>m'\<in>region_months df (rr_state r). \<not> m' < year_month r) \<longrightarrow>
         map_of (mr_cells row) ''mom_growth'' = Some NaN) \<and>
      (\<forall>m'\<in>region_months df (rr_state r).
         m' < year_month r \<and>
         (\<forall>m''\<in>region_months df (rr_state r). \<not> (m' < m'' \<and> m'' < year_month r)) \<longrightarrow>
         map_of (mr_cells row) ''mom_growth'' =
           Some (fsub (fdiv (volume_sum df c (rr_state r) (year_month r))
                        (volume_sum df c (rr_state r) m')) 1))"
proof -
  let ?s = "rr_state r" and ?m = "year_month r"
  let ?keys = "group_keys (rec_rows df)"
  let ?g = "\<lambda>(s, ym). (s, volume_sum df c s ym)"
  let ?series = "map ?g ?keys"
  from r have "(?s, ?m) \<in> set ?keys" by (auto simp: group_keys_set)
  then obtain i where i: "i < length ?keys" and ki: "?keys ! i = (?s, ?m)"
    by (auto simp: in_set_conv_nth)
  let ?row = "mf_rows (create_aggregated_features df) ! i"
  note row = create_aggregated_features_nth[OF cols e i]
  have mem: "?row \<in> set (mf_rows (create_aggregated_features df))"
    using i row(1) by simp
  let ?P = "filter (\<lambda>k. fst k = ?s) (take i ?keys)"
  have prevs: "filter (\<lambda>y. fst y = fst (?series ! i)) (take i ?series) = map ?g ?P"
    using i ki by (simp add: take_map filter_map o_def split_def)
  have take_set: "set (take i ?keys) = {k \<in> set ?keys. k < (?s, ?m)}"
    using sorted_wrt_take_less[OF group_keys_sorted i] ki by simp
  have inP: "(?s, m1) \<in> set ?P \<longleftrightarrow> m1 \<in> region_months df ?s \<and> m1 < ?m" for m1
    by (simp add: take_set region_months_keys)
  have fstP: "fst k = ?s" if "k \<in> set ?P" for k
    using that by simp
  have sortedP: "sorted ?P"
  proof -
    have "sorted ?keys"
      using group_keys_sorted[of "rec_rows df"] by (simp add: strict_sorted_iff)
    then have "sorted (take i ?keys)" by (rule sorted_wrt_take)
    then show ?thesis by (rule sorted_wrt_filter)
  qed
  have growth: "map_of (mr_cells ?row) ''mom_growth'' =
      Some (if ?P = [] then NaN
            else fsub (fdiv (volume_sum df c ?s ?m) (snd (?g (last ?P)))) 1)"
    unfolding row(5) using i ki pct_change_nth[of i ?series] prevs
    by (simp add: last_map)
  have first: "(\<forall>m'\<in>region_months df ?s. \<not> m' < ?m) \<longrightarrow>
      map_of (mr_cells ?row) ''mom_growth'' = Some NaN"
  proof
    assume none: "\<forall>m'\<in>region_months df ?s. \<not> m' < ?m"
    have "?P = []"
    proof (rule ccontr)
      assume "?P \<noteq> []"
      then obtain k where k: "k \<in> set ?P" by (meson last_in_set)
      then have "k = (?s, snd k)" using fstP[OF k] by (metis prod.collapse)
      with k have "(?s, snd k) \<in> set ?P" by simp
      with inP none show False by blast
    qed
    with growth show "map_of (mr_cells ?row) ''mom_growth'' = Some NaN" by simp
  qed
  have later: "map_of (mr_cells ?row) ''mom_growth'' =
      Some (fsub (fdiv (volume_sum df c ?s ?m) (volume_sum df c ?s m')) 1)"
    if m': "m' \<in> region_months df ?s" "m' < ?m"
      and imm: "\<forall>m''\<in>region_months df ?s. \<not> (m' < m'' \<and> m'' < ?m)" for m'
  proof -
    from m' inP have mP: "(?s, m') \<in> set ?P" by blast
    then have ne: "?P \<noteq> []" by (metis empty_iff list.set(1))
    then have lP: "last ?P \<in> set ?P" by (rule last_in_set)
    define m1 where "m1 = snd (last ?P)"
    have l: "last ?P = (?s, m1)"
      unfolding m1_def using fstP[OF lP] by (metis prod.collapse)
    with lP have "(?s, m1) \<in> set ?P" by simp
    with inP have m1: "m1 \<in> region_months df ?s" "m1 < ?m" by blast+
    from sorted_le_last[OF sortedP mP] have "(?s, m') \<le> (?s, m1)" unfolding l .
    then have "m' \<le> m1" by simp
    with imm m1 have "m1 = m'" by force
    with growth ne l show ?thesis by simp
  qed
  from mem row(2,3,4) ki first later show ?thesis
    by (intro bexI[of _ ?row]) auto
qed


text \<open>
  C4. In the aggregate table the rows of a region are in ascending month order. The
  first month of a region has NaN as \<open>mom_growth\<close> (never 0); every other month has
  the fractional change of its \<open>volume_sum\<close> against the region's immediately preceding
  month (the latest earlier month in which the region has records), which is
  \<open>(cur - prev) / prev\<close> when the earlier sum is not 0 and an infinity or NaN when it
  is. In the scenario with volumes 100, 100, 100 for \<open>A\<close> and 100, 100, 300 for \<open>B\<close>,
  the third month of \<open>B\<close> has growth 2.
\<close>

theorem month_over_month_growth:
  assumes cols: "''state'' \<in> set (rec_columns df)" "''date'' \<in> set (rec_columns df)"
    and e: "enrolment_col df = Some c"
    and r: "r \<in> set (rec_rows df)"
  shows "sorted_wrt (<)
       (map (\<lambda>row. (mr_state row, mr_year_month row)) (mf_rows (create_aggregated_features df))) \<and>
    (\<exists>row\<in>set (mf_rows (create_aggregated_features df)).
      mr_state row = rr_state r \<and> mr_year_month row = year_month r \<and>
      map_of (mr_cells row) (c @ ''_sum'') =
        Some (Fin (volume_sum df c (rr_state r) (year_month r))) \<and>
      ((\<forall>m'\<in>region_months df (rr_state r). \<not> m' < year_month r) \<longrightarrow>
         map_of (mr_cells row) ''mom_growth'' = Some NaN) \<and>
      (\<forall>m'\<in>region_months df (rr_state r).
         m' < year_month r \<and>
         (\<forall>m''\<in>region_months df (rr_state r). \<not> (m' < m'' \<and> m'' < year_month r)) \<longrightarrow>
         map_of (mr_cells row) ''mom_growth'' =
           Some (if volume_sum df c (rr_state r) m' \<noteq> 0
                 then Fin ((volume_sum df c (rr_state r) (year_month r)
                            - volume_sum df c (rr_state r) m')
                           / volume_sum df c (rr_state r) m')
                 else if volume_sum df c (rr_state r) (year_month r) > 0 then PInf
                 else if volume_sum df c (rr_state r) (year_month r) < 0 then NInf
                 else NaN))) \<and>
    (\<exists>row\<in>set (mf_rows (create_aggregated_features scenario_frame)).
      mr_state row = ''B'' \<and> mr_year_month row = (2023, 3) \<and>
      map_of (mr_cells row) ''mom_growth'' = Some (Fin 2))"
proof (intro conjI)
  let ?out = "mf_rows (create_aggregated_features df)"
  have "map (\<lambda>row. (mr_state row, mr_year_month row)) ?out = group_keys (rec_rows df)"
    using cols e by (rule create_aggregated_features_keys)
  then show "sorted_wrt (<) (map (\<lambda>row. (mr_state row, mr_year_month row)) ?out)"
    by (simp add: group_keys_sorted)
next
  from mom_growth_rows[OF cols e r] obtain row where
    row: "row \<in> set (mf_rows (create_aggregated_features df))"
      "mr_state row = rr_state r" "mr_year_month row = year_month r"
      "map_of (mr_cells row) (c @ ''_sum'') =
         Some (Fin (volume_sum df c (rr_state r) (year_month r)))"
      "(\<forall>m'\<in>region_months df (rr_state r). \<not> m' < year_month r) \<longrightarrow>
         map_of (mr_cells row) ''mom_growth'' = Some NaN"
    and later: "\<forall>m'\<in>region_months df (rr_state r).
         m' < year_month r \<and>
         (\<forall>m''\<in>region_months df (rr_state r). \<not> (m' < m'' \<and> m'' < year_month r)) \<longrightarrow>
         map_of (mr_cells row) ''mom_growth'' =
           Some (fsub (fdiv (volume_sum df c (rr_state r) (year_month r))
                        (volume_sum df c (rr_state r) m')) 1)"
    by blast
  have pct: "fsub (fdiv cur prev) 1 =
      (if prev \<noteq> 0 then Fin ((cur - prev) / prev)
       else if cur > 0 then PInf else if cur < 0 then NInf else NaN)" for cur prev
    by (simp add: pct_finite) (simp add: fdiv_def)
  show "\<exists>row\<in>set (mf_rows (create_aggregated_features df)).
      mr_state row = rr_state r \<and> mr_year_month row = year_month r \<and>
      map_of (mr_cells row) (c @ ''_sum'') =
        Some (Fin (volume_sum df c (rr_state r) (year_month r))) \<and>
      ((\<forall>m'\<in>region_months df (rr_state r). \<not> m' < year_month r) \<longrightarrow>
         map_of (mr_cells row) ''mom_growth'' = Some NaN) \<and>
      (\<forall>m'\<in>region_months df (rr_state r).
         m' < year_month r \<and>
         (\<forall>m''\<in>region_months df (rr_state r). \<not> (m' < m'' \<and> m'' < year_month r)) \<longrightarrow>
         map_of (mr_cells row) ''mom_growth'' =
           Some (if volume_sum df c (rr_state r) m' \<noteq> 0
                 then Fin ((volume_sum df c (rr_state r) (year_month r)
                            - volume_sum df c (rr_state r) m')
                           / volume_sum df c (rr_state r) m')
                 else if volume_sum df c (rr_state r) (year_month r) > 0 then PInf
                 else if volume_sum df c (rr_state r) (year_month r) < 0 then NInf
                 else NaN))"
    using row later unfolding pct by (intro bexI[of _ row]) simp_all
next
  let ?r = "scenario_row ''B'' 3 300"
  have r: "?r \<in> set (rec_rows scenario_frame)" by (simp add: scenario_frame_def)
  have s: "rr_state ?r = ''B''" "year_month ?r = (2023, 3)"
    by (simp_all add: scenario_row_def year_month_def)
  from mom_growth_rows[OF scenario_facts(1,2,3) r] obtain row where
    row: "row \<in> set (mf_rows (create_aggregated_features scenario_frame))"
      "mr_state row = ''B''" "mr_year_month row = (2023, 3)"
    and later: "\<forall>m'\<in>region_months scenario_frame ''B''.
         m' < (2023, 3) \<and>
         (\<forall>m''\<in>region_months scenario_frame ''B''. \<not> (m' < m'' \<and> m'' < (2023, 3))) \<longrightarrow>
         map_of (mr_cells row) ''mom_growth'' =
           Some (fsub (fdiv (volume_sum scenario_frame ''enrolment_count'' ''B'' (2023, 3))
                        (volume_sum scenario_frame ''enrolment_count'' ''B'' m')) 1)"
    unfolding s by blast
  have "(2023, 2) \<in> region_months scenario_frame ''B''" by (simp add: scenario_facts)
  moreover have "((2023, 2) :: int \<times> nat) < (2023, 3)" by simp
  moreover have "\<forall>m''\<in>region_months scenario_frame ''B''.
      \<not> ((2023, 2) < m'' \<and> m'' < (2023, 3))"
    by (simp add: scenario_facts)
  ultimately have "map_of (mr_cells row) ''mom_growth'' =
      Some (fsub (fdiv (volume_sum scenario_frame ''enrolment_count'' ''B'' (2023, 3))
                   (volume_sum scenario_frame ''enrolment_count'' ''B'' (2023, 2))) 1)"
    using later by blast
  then have "map_of (mr_cells row) ''mom_growth'' = Some (Fin 2)"
    by (simp add: scenario_facts fdiv_def)
  with row show "\<exists>row\<in>set (mf_rows (create_aggregated_features scenario_frame)).
      mr_state row = ''B'' \<and> mr_year_month row = (2023, 3) \<and>
      map_of (mr_cells row) ''mom_growth'' = Some (Fin 2)"
    by blast
qed

theorem month_over_month_growth_witness:
  "''state'' \<in> set (rec_columns scenario_frame) \<and>
   ''date'' \<in> set (rec_columns scenario_frame) \<and>
   enrolment_col scenario_frame = Some ''enrolment_count'' \<and>
   scenario_row ''A'' 1 100 \<in> set (rec_rows scenario_frame) \<and>
   (\<exists>row\<in>set (mf_rows (create_aggregated_features scenario_frame)).
      mr_state row = ''A'' \<and> mr_year_month row = (2023, 1) \<and>
      map_of (mr_cells row) ''enrolment_count_sum'' = Some (Fin 100) \<and>
      map_of (mr_cells row) ''mom_growth'' = Some NaN)"
proof -
  let ?r = "scenario_row ''A'' 1 100"
  have r: "?r \<in> set (rec_rows scenario_frame)" by (simp add: scenario_frame_def)
  have s: "rr_state ?r = ''A''" "year_month ?r = (2023, 1)"
    by (simp_all add: scenario_row_def year_month_def)
  have first: "\<forall>m'\<in>region_months scenario_frame ''A''. \<not> m' < (2023, 1)"
    by (simp add: scenario_facts)
  from month_over_month_growth[OF scenario_facts(1,2,3) r] obtain row where
    "row \<in> set (mf_rows (create_aggregated_features scenario_frame))"
    "mr_state row = ''A''" "mr_year_month row = (2023, 1)"
    "map_of (mr_cells row) (''enrolment_count'' @ ''_sum'') =
       Some (Fin (volume_sum scenario_frame ''enrolment_count'' ''A'' (2023, 1)))"
    "(\<forall>m'\<in>region_months scenario_frame ''A''. \<not> m' < (2023, 1)) \<longrightarrow>
       map_of (mr_cells row) ''mom_growth'' = Some NaN"
    unfolding s by blast
  with first have "\<exists>row\<in>set (mf_rows (create_aggregated_features scenario_frame)).
      mr_state row = ''A'' \<and> mr_year_month row = (2023, 1) \<and>
      map_of (mr_cells row) ''enrolment_count_sum'' = Some (Fin 100) \<and>
      map_of (mr_cells row) ''mom_growth'' = Some NaN"
    by (auto simp: scenario_facts simp del: One_nat_def)
  with scenario_facts(1,2,3) r show ?thesis by blast
qed


lemma dropna_map_Some [simp]: "dropna (map Some xs) = xs"
  by (induction xs) (simp_all add: dropna_def List.map_filter_simps)










section \<open>Data cleaner: properties\<close>

lemmas char_eval = str_title_def is_lower_def is_upper_def to_upper_def to_lower_def
  ascii_lowercase_def ascii_uppercase_def is_digit_def is_space_def str_strip_def
  strip_non_alpha_def

lemma row_count_filter_rows: "row_count (filter_rows P df) \<le> row_count df"
  by (simp add: row_count_def filter_rows_def)

lemma row_count_map_column [simp]: "row_count (map_column c f df) = row_count df"
  by (simp add: row_count_def map_column_def)

lemma row_count_assign_column [simp]: "row_count (assign_column c vs df) = row_count df"
  by (simp add: row_count_def assign_column_def)

lemma row_count_set_dtype [simp]: "row_count (set_dtype c dt df) = row_count df"
  by (simp add: row_count_def set_dtype_def)

lemma row_count_rename_columns [simp]: "row_count (rename_columns m df) = row_count df"
  by (simp add: row_count_def rename_columns_def)

lemma row_count_fill_median [simp]: "row_count (fill_median c df) = row_count df"
  by (simp add: fill_median_def Let_def split: option.splits)

lemma row_count_fill_mode [simp]: "row_count (fill_mode c df) = row_count df"
  by (simp add: fill_mode_def Let_def split: option.splits)

lemma row_count_fold_fill_median [simp]: "row_count (fold fill_median cs df) = row_count df"
  by (induction cs arbitrary: df) simp_all

lemma row_count_fold_fill_mode [simp]: "row_count (fold fill_mode cs df) = row_count df"
  by (induction cs arbitrary: df) simp_all

lemma row_count_fold_clip [simp]:
  "row_count (fold (\<lambda>col. map_column col f) cs df) = row_count df"
  by (induction cs arbitrary: df) simp_all

lemma standardize_columns_rows:
  "standardize_columns env df = Inr df' \<Longrightarrow> row_count df' = row_count df"
  by (auto simp: standardize_columns_def Let_def split: if_splits)

lemma handle_missing_values_rows: "row_count (handle_missing_values df) \<le> row_count df"
proof -
  let ?d1 = "if has_col df ''date''
             then filter_rows (\<lambda>r. \<not> isna (cell_of df ''date'' r)) df else df"
  have "row_count ?d1 \<le> row_count df" by (simp add: row_count_filter_rows)
  then show ?thesis
    unfolding handle_missing_values_def Let_def
    by (rule order_trans[OF order_trans[OF row_count_filter_rows], rotated]) simp
qed

lemma clean_dates_rows: "row_count (clean_dates env df) \<le> row_count df"
proof (cases "has_col df ''date''")
  case False
  then show ?thesis by (simp add: clean_dates_def)
next
  case True
  let ?d0 = "set_dtype ''date'' Datetime
               (assign_column ''date'' (to_datetime env (column df ''date'')) df)"
  let ?d1 = "filter_rows (\<lambda>r. \<not> isna (cell_of ?d0 ''date'' r)) ?d0"
  let ?d2 = "filter_rows (\<lambda>r. date_at_least program_start (cell_of ?d1 ''date'' r)) ?d1"
  let ?d3 = "filter_rows (\<lambda>r. date_at_most (now env) (cell_of ?d2 ''date'' r)) ?d2"
  have "row_count ?d3 \<le> row_count ?d2" by (rule row_count_filter_rows)
  also have "\<dots> \<le> row_count ?d1" by (rule row_count_filter_rows)
  also have "\<dots> \<le> row_count ?d0" by (rule row_count_filter_rows)
  also have "\<dots> = row_count df" by simp
  finally show ?thesis using True by (simp add: clean_dates_def Let_def)
qed

lemma str_accessor_rows:
  "str_accessor c f df = Inr df' \<Longrightarrow> row_count df' = row_count df"
  by (auto simp: str_accessor_def split: if_splits)

lemma clean_state_rows: "clean_state df = Inr df' \<Longrightarrow> row_count df' = row_count df"
  by (auto simp: clean_state_def split: if_splits sum.splits dest: str_accessor_rows)

lemma clean_district_rows:
  assumes "clean_district df = Inr df'"
  shows "row_count df' = row_count df"
proof (cases "has_col df ''district''")
  case False
  with assms show ?thesis by (simp add: clean_district_def)
next
  case True
  with assms obtain d1 where
    "str_accessor ''district'' (\<lambda>s. Str (str_title s)) df = Inr d1"
    "str_accessor ''district'' (\<lambda>s. Str (strip_non_alpha s)) d1 = Inr df'"
    by (auto simp: clean_district_def split: sum.splits)
  then show ?thesis using str_accessor_rows by metis
qed

lemma clean_pincode_rows [simp]: "row_count (clean_pincode env df) = row_count df"
  by (simp add: clean_pincode_def Let_def)

lemma clean_geographic_data_rows:
  assumes "clean_geographic_data env df = Inr df'"
  shows "row_count df' = row_count df"
proof -
  from assms obtain d1 d2 where
    "clean_state df = Inr d1" "clean_district d1 = Inr d2" "df' = clean_pincode env d2"
    by (auto simp: clean_geographic_data_def split: sum.splits)
  then show ?thesis using clean_state_rows clean_district_rows by simp
qed

lemma validate_enrolment_rows:
  "validate_enrolment df = Inr df' \<Longrightarrow> row_count df' \<le> row_count df"
  by (auto simp: validate_enrolment_def Let_def row_count_filter_rows split: if_splits)

lemma validate_update_rows:
  assumes "validate_update df = Inr df'"
  shows "row_count df' \<le> row_count df"
proof -
  let ?d1 = "filter_rows (\<lambda>r. num_ge (cell_of df ''update_count'' r) 0) df"
  have 1: "row_count ?d1 \<le> row_count df" by (rule row_count_filter_rows)
  have 2: "row_count (filter_rows P ?d1) \<le> row_count df" for P
    using row_count_filter_rows[of P ?d1] 1 by simp
  from assms show ?thesis
    by (auto simp: validate_update_def Let_def 1 2 split: if_splits)
qed

lemma validate_age_rows:
  assumes "validate_age df = Inr df'"
  shows "row_count df' \<le> row_count df"
proof -
  let ?cs = "filter (has_col df) age_columns"
  let ?d1 = "fold (\<lambda>col. map_column col (clip_lower 0)) ?cs df"
  have 2: "row_count (filter_rows P ?d1) \<le> row_count df" for P
    using row_count_filter_rows[of P ?d1] by simp
  from assms show ?thesis
    by (auto simp: validate_age_def Let_def 2 split: if_splits)
qed

lemma validate_numeric_ranges_rows:
  assumes "validate_numeric_ranges df = Inr df'"
  shows "row_count df' \<le> row_count df"
proof -
  from assms obtain d1 d2 where
    "validate_enrolment df = Inr d1" "validate_update d1 = Inr d2" "validate_age d2 = Inr df'"
    by (auto simp: validate_numeric_ranges_def split: sum.splits)
  then show ?thesis
    using validate_enrolment_rows validate_update_rows validate_age_rows
    by (meson order_trans)
qed

lemma drop_duplicates_length: "length (drop_duplicates key seen rs) \<le> length rs"
  by (induction rs arbitrary: seen) (auto intro: le_SucI)

lemma remove_duplicates_rows: "row_count (remove_duplicates df) \<le> row_count df"
  by (simp add: remove_duplicates_def row_count_def drop_duplicates_length Let_def)

lemma clean_rows:
  assumes "clean env df = Inr df'"
  shows "row_count df' \<le> row_count df"
proof -
  from assms obtain d1 d4 d5 where
    1: "standardize_columns env df = Inr d1"
    and 4: "clean_geographic_data env (clean_dates env (handle_missing_values d1)) = Inr d4"
    and 5: "validate_numeric_ranges d4 = Inr d5"
    and 6: "df' = remove_duplicates d5"
    by (auto simp: clean_def split: sum.splits)
  have "row_count df' \<le> row_count d5" unfolding 6 by (rule remove_duplicates_rows)
  also have "\<dots> \<le> row_count d4" using 5 by (rule validate_numeric_ranges_rows)
  also have "\<dots> = row_count (clean_dates env (handle_missing_values d1))"
    using 4 by (rule clean_geographic_data_rows)
  also have "\<dots> \<le> row_count (handle_missing_values d1)" by (rule clean_dates_rows)
  also have "\<dots> \<le> row_count d1" by (rule handle_missing_values_rows)
  also have "\<dots> = row_count df" using 1 by (rule standardize_columns_rows)
  finally show ?thesis .
qed

subsection \<open>Row counts on the example\<close>

lemma raw_stages:
  "standardize_columns example_env raw_table = Inr raw_standardized"
  "row_count (handle_missing_values raw_standardized) = 4"
  "row_count (clean_dates example_env (handle_missing_values raw_standardized)) = 3"
  "clean_geographic_data example_env (clean_dates example_env (handle_missing_values raw_standardized))
     = Inr raw_normalized"
  "validate_numeric_ranges raw_normalized = Inr raw_validated"
  "remove_duplicates raw_validated = raw_cleaned"
  "clean example_env raw_table = Inr raw_cleaned"
  "row_count raw_table = 5" "row_count raw_standardized = 5" "row_count raw_normalized = 3"
  "row_count raw_validated = 2" "row_count raw_cleaned = 1"
  by code_simp+

text \<open>
  C3. The row count never increases at any of the six steps of the cleaner: a step that
  returns a table returns one with at most as many rows as the table it was given
  (standardizing the columns, handling missing values, cleaning dates, cleaning
  geographic data, validating numeric ranges, removing duplicates), and so does
  \<open>clean\<close> as a whole.
\<close>

theorem clean_row_count_never_increases:
  "(standardize_columns env df1 = Inr df1' \<longrightarrow> row_count df1' \<le> row_count df1) \<and>
   row_count (handle_missing_values df2) \<le> row_count df2 \<and>
   row_count (clean_dates env df3) \<le> row_count df3 \<and>
   (clean_geographic_data env df4 = Inr df4' \<longrightarrow> row_count df4' \<le> row_count df4) \<and>
   (validate_numeric_ranges df5 = Inr df5' \<longrightarrow> row_count df5' \<le> row_count df5) \<and>
   row_count (remove_duplicates df6) \<le> row_count df6 \<and>
   (clean env df = Inr df' \<longrightarrow> row_count df' \<le> row_count df)"
  using standardize_columns_rows[of env df1 df1'] handle_missing_values_rows[of df2]
    clean_dates_rows[of env df3] clean_geographic_data_rows[of env df4 df4']
    validate_numeric_ranges_rows[of df5 df5'] remove_duplicates_rows[of df6]
    clean_rows[of env df df']
  by simp

theorem clean_row_count_never_increases_witness:
  "standardize_columns example_env raw_table = Inr raw_standardized \<and>
   row_count raw_standardized \<le> row_count raw_table \<and>
   row_count (handle_missing_values raw_standardized) \<le> row_count raw_standardized \<and>
   row_count (clean_dates example_env (handle_missing_values raw_standardized))
     \<le> row_count (handle_missing_values raw_standardized) \<and>
   clean_geographic_data example_env
       (clean_dates example_env (handle_missing_values raw_standardized)) = Inr raw_normalized \<and>
   row_count raw_normalized
     \<le> row_count (clean_dates example_env (handle_missing_values raw_standardized)) \<and>
   validate_numeric_ranges raw_normalized = Inr raw_validated \<and>
   row_count raw_validated \<le> row_count raw_normalized \<and>
   row_count (remove_duplicates raw_validated) \<le> row_count raw_validated \<and>
   clean example_env raw_table = Inr raw_cleaned \<and>
   row_count raw_cleaned \<le> row_count raw_table \<and>
   row_count raw_table = 5 \<and> row_count raw_cleaned = 1"
  using clean_row_count_never_increases
    [of example_env raw_table raw_standardized raw_standardized
        "handle_missing_values raw_standardized"
        "clean_dates example_env (handle_missing_values raw_standardized)" raw_normalized
        raw_normalized raw_validated raw_validated raw_table raw_cleaned]
  by (simp add: raw_stages)

subsection \<open>Steps that change nothing\<close>

lemma filter_rows_id:
  assumes "\<forall>r\<in>set (tb_rows df). P r"
  shows "filter_rows P df = df"
  using assms by (simp add: filter_rows_def filter_id_conv)

lemma list_update_cell_of: "r[col_index df c := cell_of df c r] = r"
  by (simp add: cell_of_def list_update_beyond)

lemma map_column_id:
  assumes "\<forall>r\<in>set (tb_rows df). f (cell_of df c r) = cell_of df c r"
  shows "map_column c f df = df"
proof -
  have "map (\<lambda>r. r[col_index df c := f (cell_of df c r)]) (tb_rows df) = tb_rows df"
    by (rule map_idI) (use assms in \<open>simp add: list_update_cell_of\<close>)
  then show ?thesis by (simp add: map_column_def)
qed

lemma assign_column_id: "assign_column c (column df c) df = df"
proof -
  have "map (\<lambda>(k, r). r[col_index df c :=
               (if k < length (column df c) then column df c ! k else Null)])
          (enumerate 0 (tb_rows df)) = tb_rows df"
    by (rule nth_equalityI) (simp_all add: nth_enumerate_eq column_def list_update_cell_of)
  then show ?thesis by (simp add: assign_column_def)
qed

lemma set_dtype_id:
  assumes "dtype_is df c dt"
  shows "set_dtype c dt df = df"
proof -
  have "map (\<lambda>(n, d). if n = c then (n, dt) else (n, d)) (tb_columns df) = tb_columns df"
    by (rule map_idI) (use assms in \<open>auto simp: dtype_is_def\<close>)
  then show ?thesis by (simp add: set_dtype_def)
qed

lemma fold_id:
  assumes "\<And>c. c \<in> set cs \<Longrightarrow> f c x = x"
  shows "fold f cs x = x"
  using assms by (induction cs) simp_all

lemma rename_columns_id:
  assumes "\<forall>(p, s)\<in>set m. p = s"
  shows "rename_columns m df = df"
proof -
  have "(case map_of m c of Some s \<Rightarrow> s | None \<Rightarrow> c) = c" for c
    using assms by (auto split: option.splits dest: map_of_SomeD)
  then have "map (\<lambda>(c, dt). (case map_of m c of Some s \<Rightarrow> s | None \<Rightarrow> c, dt)) (tb_columns df)
             = tb_columns df"
    by (intro map_idI) auto
  then show ?thesis by (simp add: rename_columns_def)
qed

lemma standardize_columns_id:
  assumes "canonical_columns env df"
  shows "standardize_columns env df = Inr df"
  using assms by (simp add: standardize_columns_def canonical_columns_def Let_def rename_columns_id)

lemma fill_median_id:
  assumes "\<forall>r\<in>set (tb_rows df). \<not> isna (cell_of df c r)"
  shows "fill_median c df = df"
proof -
  have "filter isna (column df c) = []"
    using assms by (auto simp: column_def filter_empty_conv)
  then show ?thesis by (simp add: fill_median_def)
qed

lemma fill_mode_id:
  assumes "has_col df c \<longrightarrow> (\<forall>r\<in>set (tb_rows df). \<not> isna (cell_of df c r))"
  shows "fill_mode c df = df"
proof (cases "has_col df c")
  case True
  then have "filter isna (column df c) = []"
    using assms by (auto simp: column_def filter_empty_conv)
  then show ?thesis by (simp add: fill_mode_def)
qed (simp add: fill_mode_def)

lemma str_holdsD: "str_holds P v \<Longrightarrow> \<exists>s. v = Str s \<and> P s"
  by (cases v) (simp_all add: str_holds_def)

lemma num_holdsD: "num_holds P v \<Longrightarrow> \<exists>x. v = Num x \<and> P x"
  by (cases v) (simp_all add: num_holds_def)

lemma date_at_leastD: "date_at_least lo v \<Longrightarrow> \<exists>d. v = Date d"
  by (cases v) (simp_all add: date_at_least_def)

lemma handle_missing_values_id:
  assumes nn: "no_nulls df" and cols: "filter (\<lambda>c. c \<noteq> ''source_file'') (col_names df) \<noteq> []"
  shows "handle_missing_values df = df"
proof -
  have cell: "has_col df c \<longrightarrow> (\<forall>r\<in>set (tb_rows df). \<not> isna (cell_of df c r))" for c
    using nn by (auto simp: no_nulls_def has_col_def)
  have 1: "(if has_col df ''date''
            then filter_rows (\<lambda>r. \<not> isna (cell_of df ''date'' r)) df else df) = df"
    using cell[of "''date''"] by (simp add: filter_rows_id)
  have 2: "fold fill_median (map fst (filter (\<lambda>(c, dt). dt = Numeric) (tb_columns df))) df = df"
  proof (rule fold_id, rule fill_median_id)
    fix c assume "c \<in> set (map fst (filter (\<lambda>(c, dt). dt = Numeric) (tb_columns df)))"
    then have "has_col df c" by (auto simp: has_col_def col_names_def)
    then show "\<forall>r\<in>set (tb_rows df). \<not> isna (cell_of df c r)" using cell by simp
  qed
  have 3: "fold fill_mode [''state'', ''district'', ''pincode''] df = df"
    by (rule fold_id, rule fill_mode_id, rule cell)
  have 4: "filter_rows (missing_share_below df (filter (\<lambda>c. c \<noteq> ''source_file'') (col_names df))
             0.5) df = df"
  proof (rule filter_rows_id, rule ballI)
    fix r assume r: "r \<in> set (tb_rows df)"
    have "filter (\<lambda>c. isna (cell_of df c r)) (filter (\<lambda>c. c \<noteq> ''source_file'') (col_names df))
          = []"
      using cell r by (auto simp: filter_empty_conv has_col_def)
    then show "missing_share_below df (filter (\<lambda>c. c \<noteq> ''source_file'') (col_names df)) 0.5 r"
      using cols by (simp add: missing_share_below_def)
  qed
  show ?thesis
    unfolding handle_missing_values_def Let_def 1 2 3 by (rule 4)
qed

lemma clean_dates_id:
  assumes "dates_in_window env df"
  shows "clean_dates env df = df"
proof (cases "has_col df ''date''")
  case False
  then show ?thesis by (simp add: clean_dates_def)
next
  case True
  with assms have dt: "dtype_is df ''date'' Datetime"
    and td: "to_datetime env (column df ''date'') = column df ''date''"
    and lo: "\<forall>r\<in>set (tb_rows df). date_at_least program_start (cell_of df ''date'' r)"
    and hi: "\<forall>r\<in>set (tb_rows df). date_at_most (now env) (cell_of df ''date'' r)"
    by (auto simp: dates_in_window_def)
  have 0: "set_dtype ''date'' Datetime
             (assign_column ''date'' (to_datetime env (column df ''date'')) df) = df"
    by (simp add: td assign_column_id set_dtype_id dt)
  have 1: "filter_rows (\<lambda>r. \<not> isna (cell_of df ''date'' r)) df = df"
    by (rule filter_rows_id) (use lo in \<open>auto simp: isna_def dest!: bspec date_at_leastD\<close>)
  have 2: "filter_rows (\<lambda>r. date_at_least program_start (cell_of df ''date'' r)) df = df"
    by (rule filter_rows_id) (rule lo)
  have 3: "filter_rows (\<lambda>r. date_at_most (now env) (cell_of df ''date'' r)) df = df"
    by (rule filter_rows_id) (rule hi)
  show ?thesis using True by (simp add: clean_dates_def Let_def 0 1 2 3)
qed

lemma map_of_dtype:
  assumes "has_col df c" and "dtype_is df c dt"
  shows "map_of (tb_columns df) c = Some dt"
proof -
  from assms(1) obtain d where "map_of (tb_columns df) c = Some d"
    by (cases "map_of (tb_columns df) c")
       (auto simp: has_col_def col_names_def map_of_eq_None_iff)
  moreover from this have "(c, d) \<in> set (tb_columns df)" by (rule map_of_SomeD)
  ultimately show ?thesis using assms(2) by (auto simp: dtype_is_def)
qed

lemma str_accessor_id:
  assumes "has_col df c" and "dtype_is df c Object"
    and "\<forall>r\<in>set (tb_rows df). str_holds (\<lambda>s. f s = Str s) (cell_of df c r)"
  shows "str_accessor c f df = Inr df"
proof -
  have "map_column c (str_map f) df = df"
  proof (rule map_column_id, rule ballI)
    fix r assume "r \<in> set (tb_rows df)"
    with assms(3) obtain s where "cell_of df c r = Str s" "f s = Str s"
      by (auto dest!: bspec str_holdsD)
    then show "str_map f (cell_of df c r) = cell_of df c r" by (simp add: str_map_def)
  qed
  then show ?thesis using map_of_dtype[OF assms(1,2)] by (simp add: str_accessor_def)
qed

lemma state_corrections_keys: "list_all (\<lambda>(k, v). str_title k \<noteq> k) state_corrections"
  by code_simp

lemma state_corrections_title:
  assumes "str_title s = s"
  shows "map_of state_corrections s = None"
proof (cases "map_of state_corrections s")
  case (Some v)
  then have "(s, v) \<in> set state_corrections" by (rule map_of_SomeD)
  then show ?thesis using state_corrections_keys assms by (auto simp: list_all_iff)
qed simp

lemma clean_state_id:
  assumes "title_case df ''state''"
  shows "clean_state df = Inr df"
proof (cases "has_col df ''state''")
  case False
  then show ?thesis by (simp add: clean_state_def)
next
  case True
  with assms have dt: "dtype_is df ''state'' Object"
    and tc: "\<forall>r\<in>set (tb_rows df). str_holds (\<lambda>s. str_title s = s) (cell_of df ''state'' r)"
    by (auto simp: title_case_def)
  have 1: "str_accessor ''state'' (\<lambda>s. Str (str_title s)) df = Inr df"
    by (rule str_accessor_id[OF True dt]) (use tc in simp)
  have 2: "map_column ''state'' (replace_values state_corrections) df = df"
  proof (rule map_column_id, rule ballI)
    fix r assume "r \<in> set (tb_rows df)"
    with tc obtain s where "cell_of df ''state'' r = Str s" "str_title s = s"
      by (auto dest!: bspec str_holdsD)
    then show "replace_values state_corrections (cell_of df ''state'' r) = cell_of df ''state'' r"
      by (simp add: replace_values_def state_corrections_title)
  qed
  show ?thesis using True by (simp add: clean_state_def 1 2)
qed

lemma clean_district_id:
  assumes "title_case df ''district''" and "district_alphabetic df"
  shows "clean_district df = Inr df"
proof (cases "has_col df ''district''")
  case False
  then show ?thesis by (simp add: clean_district_def)
next
  case True
  with assms have dt: "dtype_is df ''district'' Object"
    and tc: "\<forall>r\<in>set (tb_rows df). str_holds (\<lambda>s. str_title s = s) (cell_of df ''district'' r)"
    and al: "\<forall>r\<in>set (tb_rows df).
               str_holds (\<lambda>s. strip_non_alpha s = s) (cell_of df ''district'' r)"
    by (auto simp: title_case_def district_alphabetic_def)
  have 1: "str_accessor ''district'' (\<lambda>s. Str (str_title s)) df = Inr df"
    by (rule str_accessor_id[OF True dt]) (use tc in simp)
  have 2: "str_accessor ''district'' (\<lambda>s. Str (strip_non_alpha s)) df = Inr df"
    by (rule str_accessor_id[OF True dt]) (use al in simp)
  show ?thesis using True by (simp add: clean_district_def 1 2)
qed

lemma digit_not_space: "is_digit c \<Longrightarrow> \<not> is_space c"
  by (auto simp: is_digit_def is_space_def)

lemma six_digits_strip:
  assumes "length s = 6" and "list_all is_digit s"
  shows "str_strip s = s"
proof (rule str_strip_id)
  show "s \<noteq> []" using assms(1) by auto
  then have "hd s \<in> set s" "last s \<in> set s" by simp_all
  then show "\<not> is_space (hd s)" "\<not> is_space (last s)"
    using assms(2) by (auto simp: list_all_iff digit_not_space)
qed

lemma six_digits_extract:
  assumes "length s = 6" and "list_all is_digit s"
  shows "extract_six_digits s = Str s"
  using assms by (cases s) simp_all

lemma clean_pincode_id:
  assumes "pincode_six_digits df"
  shows "clean_pincode env df = df"
proof (cases "has_col df ''pincode''")
  case False
  then show ?thesis by (simp add: clean_pincode_def)
next
  case True
  with assms have dt: "dtype_is df ''pincode'' Object"
    and six: "\<forall>r\<in>set (tb_rows df).
               str_holds (\<lambda>s. length s = 6 \<and> list_all is_digit s) (cell_of df ''pincode'' r)"
    by (auto simp: pincode_six_digits_def)
  have cell: "\<exists>s. cell_of df ''pincode'' r = Str s \<and> length s = 6 \<and> list_all is_digit s"
    if "r \<in> set (tb_rows df)" for r
    using six that by (auto dest!: bspec str_holdsD)
  have 1: "map_column ''pincode''
             (\<lambda>v. Str (str_strip (case v of Str s \<Rightarrow> s | _ \<Rightarrow> astype_str env v))) df = df"
  proof (rule map_column_id, rule ballI)
    fix r assume "r \<in> set (tb_rows df)"
    from cell[OF this]
    show "Str (str_strip (case cell_of df ''pincode'' r of Str s \<Rightarrow> s
                          | _ \<Rightarrow> astype_str env (cell_of df ''pincode'' r)))
          = cell_of df ''pincode'' r"
      by (auto simp: six_digits_strip)
  qed
  have 2: "map_column ''pincode'' (str_map extract_six_digits) df = df"
  proof (rule map_column_id, rule ballI)
    fix r assume "r \<in> set (tb_rows df)"
    from cell[OF this]
    show "str_map extract_six_digits (cell_of df ''pincode'' r) = cell_of df ''pincode'' r"
      by (auto simp: str_map_def six_digits_extract)
  qed
  show ?thesis using True by (simp add: clean_pincode_def Let_def 1 set_dtype_id[OF dt] 2)
qed

lemma clean_geographic_data_id:
  assumes "title_case df ''state''" and "title_case df ''district''"
    and "district_alphabetic df" and "pincode_six_digits df"
  shows "clean_geographic_data env df = Inr df"
  using assms
  by (simp add: clean_geographic_data_def clean_state_id clean_district_id clean_pincode_id)

lemma numeric_column_num:
  assumes "\<forall>r\<in>set (tb_rows df). num_holds P (cell_of df c r)"
  shows "numeric_column df c"
  using assms
  by (auto simp: numeric_column_def column_def list_all_iff is_number_or_na_def
           dest!: bspec num_holdsD)

lemma validate_enrolment_id:
  assumes "has_col df ''enrolment_count'' \<longrightarrow>
           (\<forall>r\<in>set (tb_rows df).
              num_holds (\<lambda>x. 0 \<le> x \<and> x \<le> 1000000) (cell_of df ''enrolment_count'' r))"
  shows "validate_enrolment df = Inr df"
proof (cases "has_col df ''enrolment_count''")
  case False
  then show ?thesis by (simp add: validate_enrolment_def)
next
  case True
  with assms have rng: "\<forall>r\<in>set (tb_rows df).
      num_holds (\<lambda>x. 0 \<le> x \<and> x \<le> 1000000) (cell_of df ''enrolment_count'' r)"
    by simp
  have 1: "filter_rows (\<lambda>r. num_ge (cell_of df ''enrolment_count'' r) 0) df = df"
    by (rule filter_rows_id) (use rng in \<open>auto simp: num_ge_def dest!: bspec num_holdsD\<close>)
  have 2: "map_column ''enrolment_count'' (clip_upper 1000000) df = df"
    by (rule map_column_id) (use rng in \<open>auto simp: clip_upper_def dest!: bspec num_holdsD\<close>)
  show ?thesis
    using True numeric_column_num[OF rng] by (simp add: validate_enrolment_def Let_def 1 2)
qed

lemma validate_update_id:
  assumes "has_col df ''update_count'' \<longrightarrow>
           (\<forall>r\<in>set (tb_rows df).
              num_holds (\<lambda>y. 0 \<le> y) (cell_of df ''update_count'' r) \<and>
              (has_col df ''enrolment_count'' \<longrightarrow>
                 num_le_scaled (cell_of df ''update_count'' r)
                   (cell_of df ''enrolment_count'' r) 5))"
  shows "validate_update df = Inr df"
proof (cases "has_col df ''update_count''")
  case False
  then show ?thesis by (simp add: validate_update_def)
next
  case True
  with assms have rng: "\<forall>r\<in>set (tb_rows df). num_holds (\<lambda>y. 0 \<le> y) (cell_of df ''update_count'' r)"
    and le: "has_col df ''enrolment_count'' \<longrightarrow>
             (\<forall>r\<in>set (tb_rows df).
                num_le_scaled (cell_of df ''update_count'' r)
                  (cell_of df ''enrolment_count'' r) 5)"
    by simp_all
  have 1: "filter_rows (\<lambda>r. num_ge (cell_of df ''update_count'' r) 0) df = df"
    by (rule filter_rows_id) (use rng in \<open>auto simp: num_ge_def dest!: bspec num_holdsD\<close>)
  have 2: "has_col df ''enrolment_count'' \<longrightarrow>
           filter_rows (\<lambda>r. num_le_scaled (cell_of df ''update_count'' r)
                               (cell_of df ''enrolment_count'' r) 5) df = df"
    using le by (simp add: filter_rows_id)
  show ?thesis
    using True numeric_column_num[OF rng] 2 by (simp add: validate_update_def Let_def 1)
qed

lemma validate_age_id:
  assumes age: "\<forall>c\<in>set age_columns. has_col df c \<longrightarrow>
             (\<forall>r\<in>set (tb_rows df). num_holds (\<lambda>a. 0 \<le> a) (cell_of df c r))"
    and total: "has_col df ''enrolment_count'' \<longrightarrow>
             (\<forall>r\<in>set (tb_rows df).
                num_holds (\<lambda>e. age_sum df (filter (has_col df) age_columns) r \<le> e * 1.1)
                  (cell_of df ''enrolment_count'' r))"
  shows "validate_age df = Inr df"
proof -
  let ?cs = "filter (has_col df) age_columns"
  have cells: "\<forall>r\<in>set (tb_rows df). num_holds (\<lambda>a. 0 \<le> a) (cell_of df c r)"
    if "c \<in> set ?cs" for c
    using age that by auto
  have 1: "list_all (numeric_column df) ?cs"
    unfolding list_all_iff by (rule ballI, rule numeric_column_num, rule cells)
  have 2: "fold (\<lambda>col. map_column col (clip_lower 0)) ?cs df = df"
  proof (rule fold_id, rule map_column_id)
    fix c assume "c \<in> set ?cs"
    from cells[OF this]
    show "\<forall>r\<in>set (tb_rows df). clip_lower 0 (cell_of df c r) = cell_of df c r"
      by (auto simp: clip_lower_def dest!: bspec num_holdsD)
  qed
  have 3: "has_col df ''enrolment_count'' \<longrightarrow>
           filter_rows (\<lambda>r. case cell_of df ''enrolment_count'' r of
                               Num e \<Rightarrow> age_sum df ?cs r \<le> e * 1.1
                             | _ \<Rightarrow> False) df = df"
  proof
    assume "has_col df ''enrolment_count''"
    with total show "filter_rows (\<lambda>r. case cell_of df ''enrolment_count'' r of
                               Num e \<Rightarrow> age_sum df ?cs r \<le> e * 1.1
                             | _ \<Rightarrow> False) df = df"
      by (intro filter_rows_id) (auto dest!: bspec num_holdsD)
  qed
  show ?thesis
    unfolding validate_age_def Let_def 2 using 1 3 by simp
qed

lemma validate_numeric_ranges_id:
  assumes "counts_in_range df"
  shows "validate_numeric_ranges df = Inr df"
proof -
  from assms have "validate_enrolment df = Inr df" "validate_update df = Inr df"
    "validate_age df = Inr df"
    unfolding counts_in_range_def
    by (intro validate_enrolment_id validate_update_id validate_age_id; simp)+
  then show ?thesis by (simp add: validate_numeric_ranges_def)
qed

lemma drop_duplicates_id:
  assumes "distinct (map key rs)" and "set (map key rs) \<inter> set seen = {}"
  shows "drop_duplicates key seen rs = rs"
  using assms by (induction rs arbitrary: seen) auto

lemma remove_duplicates_id:
  assumes "no_duplicate_keys df"
  shows "remove_duplicates df = df"
  using assms by (simp add: remove_duplicates_def no_duplicate_keys_def drop_duplicates_id Let_def)

subsection \<open>Cleaning a clean table\<close>

lemma sample_facts:
  "listed_clean example_env sample_table"
  "clean example_env sample_table = Inr sample_cleaned"
  "sample_cleaned \<noteq> sample_table"
  "cell_of sample_table ''district'' (hd (tb_rows sample_table)) = Str ''Maharashtra_District''"
  "cell_of sample_cleaned ''district'' (hd (tb_rows sample_cleaned)) = Str ''MaharashtraDistrict''"
  by code_simp+

lemma tidy_facts:
  "already_clean example_env tidy_table"
  "ascii_names tidy_table"
  "row_count tidy_table = 2"
  by code_simp+

text \<open>
  C8, as the specification states it. A table with no nulls, no duplicate
  (date, state, district) keys, its dates parsed and inside the window, its state and
  district names in title case and its counts in range is returned unchanged. It fails
  on the one record of \<open>sample_table\<close>: the district \<open>Maharashtra_District\<close> is in title
  case, and the cleaner returns it as \<open>MaharashtraDistrict\<close>.
\<close>

theorem clean_idempotent_counterexample:
  "listed_clean example_env sample_table \<and>
   clean example_env sample_table = Inr sample_cleaned \<and>
   sample_cleaned \<noteq> sample_table \<and>
   cell_of sample_table ''district'' (hd (tb_rows sample_table)) = Str ''Maharashtra_District'' \<and>
   cell_of sample_cleaned ''district'' (hd (tb_rows sample_cleaned)) = Str ''MaharashtraDistrict''"
  by (simp add: sample_facts)

text \<open>
  C8, amended. When in addition the state names, district names and pincodes are ASCII
  strings, the district names hold only letters and whitespace and the pincodes are
  strings of six digits in an object column, \<open>clean\<close> returns the table unchanged.
\<close>

theorem clean_idempotent_on_clean_tables:
  assumes "already_clean env df"
  shows "clean env df = Inr df"
proof -
  from assms have c: "canonical_columns env df" and n: "no_nulls df"
    and k: "no_duplicate_keys df" and d: "dates_in_window env df"
    and s: "title_case df ''state''" and t: "title_case df ''district''"
    and r: "counts_in_range df" and a: "district_alphabetic df" and p: "pincode_six_digits df"
    by (simp_all add: already_clean_def listed_clean_def)
  from c have cols: "filter (\<lambda>c. c \<noteq> ''source_file'') (col_names df) \<noteq> []"
    by (simp add: canonical_columns_def)
  show ?thesis
    by (simp add: clean_def standardize_columns_id[OF c] handle_missing_values_id[OF n cols]
          clean_dates_id[OF d] clean_geographic_data_id[OF s t a p]
          validate_numeric_ranges_id[OF r] remove_duplicates_id[OF k])
qed

theorem clean_idempotent_on_clean_tables_witness:
  "already_clean example_env tidy_table \<and> ascii_names tidy_table \<and>
   clean example_env tidy_table = Inr tidy_table \<and> row_count tidy_table = 2"
  using clean_idempotent_on_clean_tables[of example_env tidy_table] by (simp add: tidy_facts)

section \<open>Schema normalizer: properties\<close>

lemma str_contains_prefix: "str_contains sub (sub @ xs)"
proof (cases "sub @ xs")
  case Nil
  then show ?thesis by simp
next
  case (Cons a l)
  have "take (length sub) (a # l) = sub" unfolding Cons[symmetric] by simp
  then show ?thesis unfolding Cons by simp
qed

lemma re_match_search: "re_match p c \<Longrightarrow> re_search p c"
  using str_contains_prefix[of "str_lower p" "[]"] str_contains_prefix[of "str_lower p" "[CHR 0x0A]"]
  by (auto simp: re_match_def re_search_def)

lemma set_update_cases:
  "(a, b) \<in> set (AList.update k v m) \<Longrightarrow> (a, b) \<in> set m \<or> (a = k \<and> b = v)"
  by (induction m) (auto split: if_splits)

text \<open>The column a pattern picks is one that the pattern matches.\<close>

lemma picked_matches:
  assumes law: "\<forall>xs. set (list_set env xs) = set xs"
    and "list_set env (filter (re_match p) cols @ filter (re_search p) cols) \<noteq> []"
  shows "hd (list_set env (filter (re_match p) cols @ filter (re_search p) cols)) \<in> set cols \<and>
         re_search p (hd (list_set env (filter (re_match p) cols @ filter (re_search p) cols)))"
proof -
  let ?xs = "filter (re_match p) cols @ filter (re_search p) cols"
  have "hd (list_set env ?xs) \<in> set (list_set env ?xs)" using assms(2) by simp
  then have "hd (list_set env ?xs) \<in> set ?xs" using law by simp
  then show ?thesis by (auto simp: re_match_search)
qed

lemma pattern_loop_pairs:
  assumes law: "\<forall>xs. set (list_set env xs) = set xs"
    and "(c, v) \<in> set (column_mapping (pattern_loop env cols sn ps st))"
  shows "(c, v) \<in> set (column_mapping st) \<or>
         (v = sn \<and> c \<in> set cols \<and> (\<exists>p\<in>set ps. re_search p c))"
  using assms(2)
proof (induction ps)
  case Nil
  then show ?case by simp
next
  case (Cons p ps)
  show ?case
  proof (cases "list_set env (filter (re_match p) cols @ filter (re_search p) cols) = []")
    case True
    with Cons show ?thesis by (auto simp: Let_def)
  next
    case False
    from picked_matches[OF law False] Cons.prems False show ?thesis
      by (auto simp: Let_def dest!: set_update_cases)
  qed
qed

lemma name_loop_pairs:
  assumes law: "\<forall>xs. set (list_set env xs) = set xs"
    and "(c, v) \<in> set (column_mapping (name_loop env cols entries st))"
  shows "(c, v) \<in> set (column_mapping st) \<or>
         (c \<in> set cols \<and> (\<exists>ps. (v, ps) \<in> set entries \<and> (\<exists>p\<in>set ps. re_search p c)))"
  using assms(2)
proof (induction entries arbitrary: st)
  case Nil
  then show ?case by simp
next
  case (Cons e entries)
  obtain sn ps where e: "e = (sn, ps)" by (cases e)
  from Cons.IH[of "pattern_loop env cols sn ps st"] Cons.prems
  have "(c, v) \<in> set (column_mapping (pattern_loop env cols sn ps st)) \<or>
        (c \<in> set cols \<and> (\<exists>ps. (v, ps) \<in> set entries \<and> (\<exists>p\<in>set ps. re_search p c)))"
    by (simp add: e)
  then show ?case
    using pattern_loop_pairs[OF law, of c v cols sn ps st] by (auto simp: e)
qed

lemma pattern_loop_other:
  assumes law: "\<forall>xs. set (list_set env xs) = set xs"
    and "\<forall>p\<in>set ps. \<not> re_search p c"
  shows "map_of (column_mapping (pattern_loop env cols sn ps st)) c = map_of (column_mapping st) c"
  using assms(2)
proof (induction ps)
  case Nil
  then show ?case by simp
next
  case (Cons p ps)
  show ?case
  proof (cases "list_set env (filter (re_match p) cols @ filter (re_search p) cols) = []")
    case True
    with Cons show ?thesis by (simp add: Let_def)
  next
    case False
    from picked_matches[OF law False] Cons.prems
    have "hd (list_set env (filter (re_match p) cols @ filter (re_search p) cols)) \<noteq> c"
      by auto
    with False show ?thesis by (simp add: Let_def update_conv')
  qed
qed

lemma name_loop_other:
  assumes law: "\<forall>xs. set (list_set env xs) = set xs"
    and "list_all (\<lambda>(sn, ps). list_all (\<lambda>p. \<not> re_search p c) ps) entries"
  shows "map_of (column_mapping (name_loop env cols entries st)) c = map_of (column_mapping st) c"
  using assms(2)
proof (induction entries arbitrary: st)
  case Nil
  then show ?case by simp
next
  case (Cons e entries)
  obtain sn ps where e: "e = (sn, ps)" by (cases e)
  from Cons.prems have "\<forall>p\<in>set ps. \<not> re_search p c" by (simp add: e list_all_iff)
  from pattern_loop_other[OF law this] Cons show ?case by (simp add: e)
qed

lemma name_loop_append:
  "name_loop env cols (xs @ ys) st = name_loop env cols ys (name_loop env cols xs st)"
  by (induction xs arbitrary: st) auto

lemma date_loop_keeps:
  assumes "map_of (column_mapping st) c = Some v"
  shows "map_of (column_mapping (date_loop env df cols st)) c = Some v"
  using assms
proof (induction cols arbitrary: st)
  case Nil
  then show ?case by simp
next
  case (Cons col cols)
  show ?case
    unfolding date_loop.simps
    by (rule Cons.IH) (use Cons.prems in \<open>auto simp: update_conv'\<close>)
qed

lemma numeric_loop_keeps:
  assumes "map_of (column_mapping st) c = Some v"
  shows "map_of (column_mapping (numeric_loop cols st)) c = Some v"
  using assms
proof (induction cols arbitrary: st)
  case Nil
  then show ?case by simp
next
  case (Cons col cols)
  show ?case
    unfolding numeric_loop.simps
    by (rule Cons.IH) (use Cons.prems in \<open>auto simp: update_conv' Let_def\<close>)
qed

lemma auto_detect_schema_keeps:
  assumes "map_of (column_mapping (date_loop env df (col_names df) (name_stage env df))) c = Some v"
  shows "map_of (mapping (auto_detect_schema env df)) c = Some v"
  using assms by (simp add: auto_detect_schema_def Let_def numeric_loop_keeps)

subsection \<open>The column named Total_Enrolments\<close>

lemma enrolment_entry:
  "column_patterns =
     take 4 column_patterns @
     (''enrolment_count'', ''enrolment'' # tl (patterns_of ''enrolment_count'')) #
     drop 5 column_patterns"
  by code_simp

lemma total_enrolments_names:
  "re_search ''enrolment'' ''Total_Enrolments''"
  "list_all (\<lambda>(sn, ps). list_all (\<lambda>p. \<not> re_search p ''Total_Enrolments'') ps)
     (drop 5 column_patterns)"
  by code_simp+

lemma enrolment_step:
  assumes law: "\<forall>xs. set (list_set env xs) = set xs"
    and only: "only_enrolment_column df"
  shows "map_of (column_mapping
           (pattern_loop env (col_names df) ''enrolment_count'' (''enrolment'' # ps) st))
           ''Total_Enrolments'' = Some ''enrolment_count''"
proof -
  let ?xs = "filter (re_match ''enrolment'') (col_names df) @
             filter (re_search ''enrolment'') (col_names df)"
  from only have T: "''Total_Enrolments'' \<in> set (col_names df)"
    and one: "\<forall>c\<in>set (col_names df). re_search ''enrolment'' c \<longrightarrow> c = ''Total_Enrolments''"
    by (simp_all add: only_enrolment_column_def has_col_def list_all_iff)
  have "''Total_Enrolments'' \<in> set ?xs" using T total_enrolments_names(1) by simp
  then have "set (list_set env ?xs) \<noteq> {}" using law by auto
  then have ne: "list_set env ?xs \<noteq> []" by auto
  from picked_matches[OF law ne] one have "hd (list_set env ?xs) = ''Total_Enrolments''"
    by auto
  with ne show ?thesis by (simp add: Let_def update_conv')
qed

lemma name_stage_total_enrolments:
  assumes law: "\<forall>xs. set (list_set env xs) = set xs"
    and only: "only_enrolment_column df"
  shows "map_of (column_mapping (name_stage env df)) ''Total_Enrolments''
         = Some ''enrolment_count''"
proof -
  let ?st = "name_loop env (col_names df) (take 4 column_patterns)
               \<lparr>column_mapping = [], detected_patterns = []\<rparr>"
  have eq: "name_stage env df =
        name_loop env (col_names df) (drop 5 column_patterns)
          (pattern_loop env (col_names df) ''enrolment_count''
             (''enrolment'' # tl (patterns_of ''enrolment_count'')) ?st)"
    unfolding name_stage_def
    by (subst enrolment_entry) (simp only: name_loop_append name_loop.simps)
  show ?thesis
    unfolding eq name_loop_other[OF law total_enrolments_names(2)]
    by (rule enrolment_step[OF law only])
qed

subsection \<open>The date column found by its values\<close>

lemma standard_names_distinct: "distinct (map fst column_patterns)"
  by code_simp

lemma name_stage_pairs:
  assumes law: "\<forall>xs. set (list_set env xs) = set xs"
    and "(c, v) \<in> set (column_mapping (name_stage env df))"
  shows "c \<in> set (col_names df) \<and> (\<exists>p\<in>set (patterns_of v). re_search p c)"
proof -
  from name_loop_pairs[OF law assms(2)[unfolded name_stage_def]]
  obtain ps where c: "c \<in> set (col_names df)" and ps: "(v, ps) \<in> set column_patterns"
    and p: "\<exists>p\<in>set ps. re_search p c"
    by auto
  from ps have "map_of column_patterns v = Some ps"
    using standard_names_distinct by (simp add: map_of_is_SomeI)
  then show ?thesis using c p by (simp add: patterns_of_def)
qed

lemma name_stage_unnamed:
  assumes law: "\<forall>xs. set (list_set env xs) = set xs" and "unnamed c"
  shows "map_of (column_mapping (name_stage env df)) c = None"
  using name_loop_other[OF law assms(2)[unfolded unnamed_def]] by (simp add: name_stage_def)

lemma name_stage_no_date:
  assumes law: "\<forall>xs. set (list_set env xs) = set xs" and "no_date_name df"
  shows "''date'' \<notin> set (map snd (column_mapping (name_stage env df)))"
proof
  assume "''date'' \<in> set (map snd (column_mapping (name_stage env df)))"
  then obtain c where "(c, ''date'') \<in> set (column_mapping (name_stage env df))" by auto
  from name_stage_pairs[OF law this] assms(2) show False
    by (auto simp: no_date_name_def list_all_iff)
qed

lemma date_loop_skip:
  assumes "list_all (\<lambda>c'. map_of (column_mapping st) c' \<noteq> None \<or>
                          sample df c' = [] \<or> \<not> parses env (sample df c')) pre"
  shows "date_loop env df (pre @ rest) st = date_loop env df rest st"
  using assms by (induction pre) auto

lemma date_loop_first:
  assumes c: "c \<in> set cols"
    and free: "map_of (column_mapping st) c = None"
    and nodate: "''date'' \<notin> set (map snd (column_mapping st))"
    and smp: "sample df c \<noteq> []" "parses env (sample df c)"
    and pre: "list_all (\<lambda>c'. map_of (column_mapping st) c' \<noteq> None \<or>
                             sample df c' = [] \<or> \<not> parses env (sample df c'))
                (takeWhile (\<lambda>c'. c' \<noteq> c) cols)"
  shows "map_of (column_mapping (date_loop env df cols st)) c = Some ''date''"
proof -
  from c have "dropWhile (\<lambda>c'. c' \<noteq> c) cols \<noteq> []" by (auto simp: dropWhile_eq_Nil_conv)
  then obtain rest where d: "dropWhile (\<lambda>c'. c' \<noteq> c) cols = c # rest"
    using hd_dropWhile[of "\<lambda>c'. c' \<noteq> c" cols]
    by (cases "dropWhile (\<lambda>c'. c' \<noteq> c) cols") auto
  have "cols = takeWhile (\<lambda>c'. c' \<noteq> c) cols @ c # rest"
    using takeWhile_dropWhile_id[of "\<lambda>c'. c' \<noteq> c" cols] by (simp add: d)
  then have "date_loop env df cols st = date_loop env df (c # rest) st"
    using date_loop_skip[OF pre, of "c # rest"] by simp
  also have "map_of (column_mapping \<dots>) c = Some ''date''"
    unfolding date_loop.simps
    by (rule date_loop_keeps) (use free nodate smp in \<open>simp add: update_conv'\<close>)
  finally show ?thesis .
qed

subsection \<open>The scenario\<close>

lemma example_list_set: "\<forall>xs. set (list_set example_schema_env xs) = set xs"
  by (simp add: example_schema_env_def)

lemma created_name_stage:
  "column_mapping (name_stage example_schema_env created_table) =
     [(''State_Name'', ''state''), (''Total_Enrolments'', ''enrolment_count'')]"
  by code_simp

lemma region_name_stage:
  "column_mapping (name_stage example_schema_env region_table) = [(''region'', ''state'')]"
  by code_simp

lemma created_facts:
  "only_enrolment_column created_table"
  "iso_dates created_table ''created_on''"
  "no_date_name created_table"
  "unnamed ''created_on''"
  "has_col created_table ''created_on''"
  "sample created_table ''created_on'' = [Str ''2023-01-15'', Str ''2023-02-15'']"
  "parses example_schema_env [Str ''2023-01-15'', Str ''2023-02-15'']"
  "takeWhile (\<lambda>c'. c' \<noteq> ''created_on'') (col_names created_table)
     = [''State_Name'', ''Total_Enrolments'']"
  by code_simp+

lemma created_first: "first_parsing_column example_schema_env created_table ''created_on''"
  unfolding first_parsing_column_def created_name_stage by (simp add: created_facts)

lemma region_facts:
  "iso_dates region_table ''region_dt''"
  "no_date_name region_table"
  "re_search ''region'' ''region_dt''"
  "has_col region_table ''region_dt''"
  "sample region_table ''region_dt'' = [Str ''2023-01-15'', Str ''2023-02-15'']"
  "parses example_schema_env [Str ''2023-01-15'', Str ''2023-02-15'']"
  "sample region_table ''region'' = [Str ''Delhi'', Str ''Goa'']"
  "takeWhile (\<lambda>c'. c' \<noteq> ''region_dt'') (col_names region_table) = [''region'']"
  by code_simp+

lemma region_first: "first_parsing_column example_schema_env region_table ''region_dt''"
  unfolding first_parsing_column_def region_name_stage by (simp add: region_facts)

lemma change_facts:
  "no_date_name change_table"
  "iso_dates change_table ''last_change''"
  "parses example_schema_env (sample change_table ''last_change'')"
  "mapping (auto_detect_schema example_schema_env change_table) =
     [(''State_Name'', ''state''), (''Total_Enrolments'', ''enrolment_count''),
      (''last_change'', ''update_count'')]"
  by code_simp+

text \<open>
  C9, as the specification states it: when no column name matches a date pattern and a
  column holds ISO date strings, that column is mapped to \<open>date\<close>. It fails on
  \<open>change_table\<close>: no name matches a date pattern, the column \<open>last_change\<close> holds ISO date
  strings that parse, its name matches the pattern \<open>change\<close>, so it is mapped to
  \<open>update_count\<close>, the loop over the values passes it by, and no column is mapped to
  \<open>date\<close>.
\<close>

theorem schema_date_fallback_counterexample:
  "no_date_name change_table \<and>
   iso_dates change_table ''last_change'' \<and>
   parses example_schema_env (sample change_table ''last_change'') \<and>
   mapping (auto_detect_schema example_schema_env change_table) =
     [(''State_Name'', ''state''), (''Total_Enrolments'', ''enrolment_count''),
      (''last_change'', ''update_count'')]"
  by (simp add: change_facts)

text \<open>
  C9, amended. Whatever the order in which Python lists a set: a column named
  \<open>Total_Enrolments\<close> is mapped to \<open>enrolment_count\<close> when it is the only column whose name
  contains \<open>enrolment\<close>; and when the names have given \<open>date\<close> to no column, the first
  column in column order that the names have left without a standard name and whose
  sample of up to 10 values that are not missing is not empty and parses as dates is
  mapped to \<open>date\<close>. The names give \<open>date\<close> to no column when no column name matches a
  date pattern, and they leave a column without a standard name when its name matches no
  pattern, or when another column was taken for each pattern it matches.
\<close>

theorem schema_detects_enrolment_and_date:
  assumes "\<forall>xs. set (list_set env xs) = set xs"
  shows "(only_enrolment_column df \<longrightarrow>
            map_of (mapping (auto_detect_schema env df)) ''Total_Enrolments''
              = Some ''enrolment_count'') \<and>
         (first_parsing_column env df c \<longrightarrow>
            map_of (mapping (auto_detect_schema env df)) c = Some ''date'') \<and>
         (no_date_name df \<longrightarrow>
            ''date'' \<notin> set (map snd (column_mapping (name_stage env df)))) \<and>
         (unnamed c \<longrightarrow> map_of (column_mapping (name_stage env df)) c = None)"
proof (intro conjI impI)
  assume "only_enrolment_column df"
  from name_stage_total_enrolments[OF assms this]
  show "map_of (mapping (auto_detect_schema env df)) ''Total_Enrolments''
        = Some ''enrolment_count''"
    by (intro auto_detect_schema_keeps date_loop_keeps)
next
  assume "first_parsing_column env df c"
  then have c: "c \<in> set (col_names df)"
    and nd: "''date'' \<notin> set (map snd (column_mapping (name_stage env df)))"
    and un: "map_of (column_mapping (name_stage env df)) c = None"
    and smp: "sample df c \<noteq> []" "parses env (sample df c)"
    and pre: "list_all (\<lambda>c'. map_of (column_mapping (name_stage env df)) c' \<noteq> None \<or>
                             sample df c' = [] \<or> \<not> parses env (sample df c'))
                (takeWhile (\<lambda>c'. c' \<noteq> c) (col_names df))"
    by (simp_all add: first_parsing_column_def has_col_def)
  show "map_of (mapping (auto_detect_schema env df)) c = Some ''date''"
    by (intro auto_detect_schema_keeps date_loop_first c smp pre un nd)
next
  assume "no_date_name df"
  from name_stage_no_date[OF assms this]
  show "''date'' \<notin> set (map snd (column_mapping (name_stage env df)))" .
next
  assume "unnamed c"
  from name_stage_unnamed[OF assms this]
  show "map_of (column_mapping (name_stage env df)) c = None" .
qed

theorem schema_detects_enrolment_and_date_witness:
  "only_enrolment_column created_table \<and>
   no_date_name created_table \<and> unnamed ''created_on'' \<and>
   first_parsing_column example_schema_env created_table ''created_on'' \<and>
   iso_dates created_table ''created_on'' \<and>
   map_of (mapping (auto_detect_schema example_schema_env created_table)) ''Total_Enrolments''
     = Some ''enrolment_count'' \<and>
   map_of (mapping (auto_detect_schema example_schema_env created_table)) ''created_on''
     = Some ''date'' \<and>
   map_of (column_mapping (name_stage example_schema_env created_table)) ''created_on'' = None \<and>
   re_search ''region'' ''region_dt'' \<and>
   first_parsing_column example_schema_env region_table ''region_dt'' \<and>
   map_of (mapping (auto_detect_schema example_schema_env region_table)) ''region_dt''
     = Some ''date''"
  using schema_detects_enrolment_and_date
      [OF example_list_set, of created_table "''created_on''"]
    schema_detects_enrolment_and_date
      [OF example_list_set, of region_table "''region_dt''"]
  by (simp add: created_facts created_first region_facts region_first)

section \<open>Confidence levels in double precision: properties\<close>

text \<open>Rounding a number below 1 whose binade is known.\<close>

lemma ulp_binade:
  assumes "1 / 2 ^ (n + 1) \<le> \<bar>x\<bar>" and "\<bar>x\<bar> < 1 / 2 ^ n"
  shows "ulp x = 1 / 2 ^ (n + 53)"
proof -
  have "(0::real) < 1 / 2 ^ (n + 1)" by simp
  with assms(1) have pos: "0 < \<bar>x\<bar>" by linarith
  have "\<lfloor>log 2 \<bar>x\<bar>\<rfloor> = - int (n + 1)"
  proof (subst floor_log_eq_powr_iff[OF pos])
    show "(1::real) < 2" by simp
    have 1: "(2::real) powr real_of_int (- int (n + 1)) = 1 / 2 ^ (n + 1)"
      by (subst powr_int) (simp_all add: nat_add_distrib)
    have 2: "(2::real) powr real_of_int (- int (n + 1) + 1) = 1 / 2 ^ n"
      by (subst powr_int) simp_all
    show "2 powr real_of_int (- int (n + 1)) \<le> \<bar>x\<bar> \<and>
          \<bar>x\<bar> < 2 powr real_of_int (- int (n + 1) + 1)"
      unfolding 1 2 using assms by simp
  qed
  moreover have "real_of_int (- int (n + 1)) - 52 = real_of_int (- int (n + 53))"
    by simp
  ultimately have "ulp x = 2 powr real_of_int (- int (n + 53))"
    by (simp only: ulp_def)
  also have "\<dots> = 1 / 2 ^ (n + 53)"
    by (subst powr_int) (simp_all add: nat_add_distrib)
  finally show ?thesis .
qed

lemma round_double_binade:
  assumes "1 / 2 ^ (n + 1) \<le> \<bar>x\<bar>" and "\<bar>x\<bar> < 1 / 2 ^ n"
  shows "round_double x = of_int (round_even (x * 2 ^ (n + 53))) / 2 ^ (n + 53)"
proof -
  have "(0::real) < 1 / 2 ^ (n + 1)" by simp
  with assms(1) have "0 < \<bar>x\<bar>" by linarith
  then have "x \<noteq> 0" by simp
  then show ?thesis by (simp add: round_double_def ulp_binade[OF assms])
qed

lemma round_double_0 [simp]: "round_double 0 = 0"
  by (simp add: round_double_def)

lemma tenth_value: "tenth = 3602879701896397 / 2 ^ 55"
  unfolding tenth_def by (subst round_double_binade[where n = 3]; code_simp)

lemma sqrt_inverse_power: "sqrt (1 / 2 ^ 112) = 1 / 2 ^ 56"
proof -
  have "(1 / 2 ^ 112 :: real) = (1 / 2 ^ 56)\<^sup>2"
    by (simp add: power2_eq_square power_add [symmetric] del: power_add)
  then show ?thesis by (simp only: real_sqrt_abs) simp
qed

text \<open>
  The standard deviation numpy computes for three scores of 0.1: the sum rounds up on a
  tie, the mean comes out one gap above 0.1, and every deviation is that gap.
\<close>

lemma np_std_double_tenths: "np_std_double [tenth, tenth, tenth] = 1 / 2 ^ 56"
proof -
  define t :: real where "t = 3602879701896397 / 2 ^ 55"
  define t2 :: real where "t2 = 3602879701896397 / 2 ^ 54"
  define t3 :: real where "t3 = 5404319552844596 / 2 ^ 54"
  define m :: real where "m = 7205759403792795 / 2 ^ 56"
  define d :: real where "d = - (1 / 2 ^ 56)"
  define q :: real where "q = 1 / 2 ^ 112"
  define q2 :: real where "q2 = 1 / 2 ^ 111"
  define q3 :: real where "q3 = 3 / 2 ^ 112"
  have s1: "round_double (0 + t) = t"
    unfolding t_def by (subst round_double_binade[where n = 3]; code_simp)
  have s2: "round_double (t + t) = t2"
    unfolding t_def t2_def by (subst round_double_binade[where n = 2]; code_simp)
  have s3: "round_double (t2 + t) = t3"
    unfolding t_def t2_def t3_def by (subst round_double_binade[where n = 1]; code_simp)
  have s4: "round_double (t3 / 3) = m"
    unfolding t3_def m_def by (subst round_double_binade[where n = 3]; code_simp)
  have s5: "round_double (t - m) = d"
    unfolding t_def m_def d_def by (subst round_double_binade[where n = 55]; code_simp)
  have s6: "round_double (d * d) = q"
    unfolding d_def q_def by (subst round_double_binade[where n = 111]; code_simp)
  have s7: "round_double (0 + q) = q"
    unfolding q_def by (subst round_double_binade[where n = 111]; code_simp)
  have s8: "round_double (q + q) = q2"
    unfolding q_def q2_def by (subst round_double_binade[where n = 110]; code_simp)
  have s9: "round_double (q2 + q) = q3"
    unfolding q_def q2_def q3_def by (subst round_double_binade[where n = 110]; code_simp)
  have s10: "round_double (q3 / 3) = q"
    unfolding q_def q3_def by (subst round_double_binade[where n = 111]; code_simp)
  have s11: "round_double (sqrt q) = 1 / 2 ^ 56"
    unfolding q_def sqrt_inverse_power
    by (subst round_double_binade[where n = 55]; code_simp)
  have n: "real (length [t, t, t]) = 3" by simp
  have "np_std_double [t, t, t] = 1 / 2 ^ 56"
    unfolding np_std_double_def Let_def np_sum_double_def n
    by (simp only: foldl.simps list.map s1 s2 s3 s4 s5 s6 s7 s8 s9 s10 s11)
  then show ?thesis unfolding tenth_value t_def .
qed

text \<open>
  C10 on the batch of three scores 0.1. Every row has the same score, and the claim gives
  every row the number 0. The standard deviation comes out as \<open>2 ^ -56\<close>, not 0, so the
  guard is passed by; \<open>max - min\<close> is 0, every normalised score is \<open>0 / 0\<close>, NaN, no
  threshold comparison holds, and every row gets the label LOW. In exact arithmetic the
  standard deviation of the batch is 0.
\<close>

theorem constant_tenths_get_labels:
  "calculate_confidence_double [tenth, tenth, tenth] = [Label LOW, Label LOW, Label LOW] \<and>
   np_std_double [tenth, tenth, tenth] = 1 / 2 ^ 56 \<and>
   np_std [tenth, tenth, tenth] = 0 \<and>
   tenth = 3602879701896397 / 2 ^ 55"
proof -
  have "np_std_double [tenth, tenth, tenth] \<noteq> 0"
    unfolding np_std_double_tenths by simp
  then have "calculate_confidence_double [tenth, tenth, tenth]
             = [Label LOW, Label LOW, Label LOW]"
    by (simp add: Let_def fdiv_double_def confidence_level_double_def fgt_def)
  moreover have "np_std [tenth, tenth, tenth] = 0"
    by (subst np_std_zero_iff) simp_all
  ultimately show ?thesis using np_std_double_tenths tenth_value by blast
qed

end
